theory Spec2Isabelle
  imports Complex_Main "HOL-Library.Word"
begin

unbundle bit_operations_syntax

section \<open>The touchpad dispatcher of libinput: data model\<close>

text \<open>
  The development embeds the touchpad dispatcher (\<^verbatim>\<open>evdev-mt-touchpad.c\<close>) as HOL
  functions on explicit state.  A \<^verbatim>\<open>struct tp_touch *\<close> is the index of the touch in
  \<^verbatim>\<open>tp->touches\<close>; a function that writes through \<^verbatim>\<open>tp\<close> or \<^verbatim>\<open>t\<close> returns the
  updated value; \<^verbatim>\<open>assert\<close> and \<^verbatim>\<open>abort\<close> are the result \<open>None\<close>.  Calls into the
  collaborating modules (tap, buttons, edge scroll, gestures, pointer acceleration,
  timers) and the bug messages of the log are appended to the field \<open>trace\<close>; debug
  messages are not recorded.  Fields follow the C path: \<^verbatim>\<open>t->palm.state\<close> is
  \<open>t_palm_state\<close>, \<^verbatim>\<open>tp->palm.use_pressure\<close> is \<open>palm_use_pressure\<close>.
  \<^verbatim>\<open>uint64_t\<close> is \<open>64 word\<close>, \<^verbatim>\<open>uint32_t\<close> is \<open>32 word\<close>; device coordinates,
  pressure and sizes are \<open>int\<close> (they stay far from the limits of \<^verbatim>\<open>int\<close>);
  \<^verbatim>\<open>double\<close> is idealised as \<open>real\<close>.
\<close>

datatype touch_state =
  TOUCH_NONE | TOUCH_HOVERING | TOUCH_BEGIN | TOUCH_UPDATE | TOUCH_MAYBE_END | TOUCH_END

datatype touch_palm_state =
  PALM_NONE | PALM_EDGE | PALM_TYPING | PALM_TRACKPOINT | PALM_TOOL_PALM
  | PALM_PRESSURE | PALM_TOUCH_SIZE | PALM_ARBITRATION

datatype tp_thumb_state = THUMB_STATE_NO | THUMB_STATE_YES | THUMB_STATE_MAYBE

datatype tp_jump_state = JUMP_STATE_IGNORE | JUMP_STATE_EXPECT_FIRST | JUMP_STATE_EXPECT_DELAY

datatype evdev_arbitration_state =
  ARBITRATION_NOT_ACTIVE | ARBITRATION_IGNORE_ALL | ARBITRATION_IGNORE_RECT

datatype libinput_config_scroll_method =
  LIBINPUT_CONFIG_SCROLL_NO_SCROLL | LIBINPUT_CONFIG_SCROLL_2FG
  | LIBINPUT_CONFIG_SCROLL_EDGE | LIBINPUT_CONFIG_SCROLL_ON_BUTTON_DOWN

datatype timer = Keyboard_timer | Trackpoint_timer | Arbitration_timer

text \<open>What the dispatcher sends to the outside, in order.\<close>

datatype call =
    Log_bug_kernel_invalid_fake_finger_state "32 word"
  | Log_bug_kernel_touch_ended_and_began nat
  | Log_bug_kernel_touch_jump
  | Log_bug_libinput_already_in_TOUCH_END nat
  | Log_bug_libinput_should_be_MAYBE_END nat touch_state
  | Log_bug_libinput_no_topmost_touch
  | Filter_restart "64 word"
  | Timer_set timer "64 word"
  | Edge_scroll_stop_events "64 word"
  | Gesture_cancel "64 word"
  | Tap_suspend "64 word"
  | Tap_resume "64 word"
  | Tap_handle_state "64 word"
  | Tap_post_process_state
  | Button_handle_state "64 word"
  | Post_button_events "64 word"
  | Edge_scroll_handle_state "64 word"
  | Edge_scroll_post_events "64 word"
  | Gesture_handle_state "64 word"
  | Gesture_post_events "64 word"
  | Clickpad_middlebutton_apply_config
  | Process_button nat int "64 word"
  | Trackpoint_process nat int "64 word"
  | Release_all_buttons "64 word"
  | Release_all_taps "64 word"

record device_coords =
  dc_x :: int
  dc_y :: int

record tp_history_point =
  hp_point :: device_coords
  hp_time :: "64 word"

record tp_touch =
  t_index :: nat
  t_state :: touch_state
  t_has_ended :: bool
  t_dirty :: bool
  t_point :: device_coords
  t_time :: "64 word"
  t_pressure :: int
  t_is_tool_palm :: bool
  t_major :: int
  t_minor :: int
  t_was_down :: bool
  t_quirks_reset_motion_history :: bool
  t_history_samples :: "tp_history_point list"
  t_history_index :: nat
  t_history_count :: nat
  t_jumps_last_delta_mm :: real
  t_pinned_is_pinned :: bool
  t_pinned_center :: device_coords
  t_hysteresis_center :: device_coords
  t_hysteresis_x_motion_history :: "8 word"
  t_tap_is_thumb :: bool
  t_tap_is_palm :: bool
  t_palm_state :: touch_palm_state
  t_palm_first :: device_coords
  t_palm_time :: "64 word"
  t_thumb_state :: tp_thumb_state
  t_thumb_initial :: device_coords
  t_thumb_first_touch_time :: "64 word"
  t_speed_last_speed :: real
  t_speed_exceeded_count :: nat

record tp_dispatch =
  device_model_wacom_touchpad :: bool
  device_model_test_device :: bool
  device_model_lenovo_t450_touchpad :: bool
  device_model_synaptics_serial_touchpad :: bool
  device_is_suspended :: bool
  device_left_handed_enabled :: bool
  device_abs_x_minimum :: int
  device_abs_x_maximum :: int
  device_abs_x_resolution :: int
  device_abs_y_minimum :: int
  device_abs_y_maximum :: int
  device_abs_y_resolution :: int
  left_handed_rotate :: bool
  touches :: "tp_touch list"
  slot :: nat
  has_mt :: bool
  semi_mt :: bool
  num_slots :: nat
  ntouches :: nat
  nfingers_down :: nat
  old_nfingers_down :: nat
  fake_touches :: "32 word"
  queued :: "32 word"
  pressure_use_pressure :: bool
  pressure_high :: int
  pressure_low :: int
  touch_size_use_touch_size :: bool
  touch_size_low :: int
  touch_size_high :: int
  hysteresis_enabled :: bool
  hysteresis_margin :: device_coords
  hysteresis_last_motion_time :: "64 word"
  buttons_is_clickpad :: bool
  buttons_has_topbuttons :: bool
  scroll_method :: libinput_config_scroll_method
  arbitration_state :: evdev_arbitration_state
  palm_left_edge :: int
  palm_right_edge :: int
  palm_upper_edge :: int
  palm_trackpoint_active :: bool
  palm_trackpoint_last_event_time :: "64 word"
  palm_trackpoint_event_count :: nat
  palm_monitor_trackpoint :: bool
  palm_use_mt_tool :: bool
  palm_use_pressure :: bool
  palm_pressure_threshold :: int
  palm_use_size :: bool
  palm_size_threshold :: int
  thumb_detect_thumbs :: bool
  thumb_upper_thumb_line :: int
  thumb_lower_thumb_line :: int
  thumb_use_pressure :: bool
  thumb_pressure_threshold :: int
  thumb_use_size :: bool
  thumb_size_threshold :: int
  dwt_dwt_enabled :: bool
  dwt_keyboard_active :: bool
  dwt_key_mask :: "64 word list"
  dwt_mod_mask :: "64 word list"
  dwt_keyboard_last_press_time :: "64 word"
  quirks_msc_timestamp_state :: tp_jump_state
  quirks_msc_timestamp_interval :: "32 word"
  quirks_msc_timestamp_now :: "32 word"
  quirks_nonmotion_event_count :: nat
  suspend_reason :: "32 word"
  trace :: "call list"

subsection \<open>Constants of the headers\<close>

text \<open>
  Modelled from the spec: \<^verbatim>\<open>TOUCHPAD_HISTORY_LENGTH\<close> is declared in
  \<^verbatim>\<open>evdev-mt-touchpad.h\<close>; the capacity of the history ring, at least 4.
\<close>

definition TOUCHPAD_HISTORY_LENGTH :: nat where
  "TOUCHPAD_HISTORY_LENGTH = 4"

definition FAKE_FINGER_OVERFLOW :: "32 word" where
  "FAKE_FINGER_OVERFLOW = push_bit 7 1"

definition THUMB_IGNORE_SPEED_THRESHOLD :: real where
  "THUMB_IGNORE_SPEED_THRESHOLD = 20"

definition ms2us :: "64 word \<Rightarrow> 64 word" where
  "ms2us ms = ms * 1000"

definition DEFAULT_KEYBOARD_ACTIVITY_TIMEOUT_1 :: "64 word" where
  "DEFAULT_KEYBOARD_ACTIVITY_TIMEOUT_1 = ms2us 200"

definition DEFAULT_KEYBOARD_ACTIVITY_TIMEOUT_2 :: "64 word" where
  "DEFAULT_KEYBOARD_ACTIVITY_TIMEOUT_2 = ms2us 500"

definition THUMB_MOVE_TIMEOUT :: "64 word" where
  "THUMB_MOVE_TIMEOUT = ms2us 300"

text \<open>
  Modelled from the spec: the bits of \<^verbatim>\<open>enum touchpad_event\<close>, declared in
  \<^verbatim>\<open>evdev-mt-touchpad.h\<close>, are the flags that \<open>queued\<close> collects during a frame.
\<close>

definition TOUCHPAD_EVENT_NONE :: "32 word" where "TOUCHPAD_EVENT_NONE = 0"
definition TOUCHPAD_EVENT_MOTION :: "32 word" where "TOUCHPAD_EVENT_MOTION = push_bit 0 1"
definition TOUCHPAD_EVENT_BUTTON_PRESS :: "32 word" where "TOUCHPAD_EVENT_BUTTON_PRESS = push_bit 1 1"
definition TOUCHPAD_EVENT_BUTTON_RELEASE :: "32 word" where "TOUCHPAD_EVENT_BUTTON_RELEASE = push_bit 2 1"
definition TOUCHPAD_EVENT_OTHERAXIS :: "32 word" where "TOUCHPAD_EVENT_OTHERAXIS = push_bit 3 1"
definition TOUCHPAD_EVENT_TIMESTAMP :: "32 word" where "TOUCHPAD_EVENT_TIMESTAMP = push_bit 4 1"

text \<open>Event codes of \<^verbatim>\<open>linux/input-event-codes.h\<close>.\<close>

definition BTN_TOOL_FINGER :: nat where "BTN_TOOL_FINGER = 0x145"
definition BTN_TOOL_QUINTTAP :: nat where "BTN_TOOL_QUINTTAP = 0x148"
definition BTN_TOUCH :: nat where "BTN_TOUCH = 0x14a"
definition BTN_TOOL_DOUBLETAP :: nat where "BTN_TOOL_DOUBLETAP = 0x14d"
definition BTN_TOOL_TRIPLETAP :: nat where "BTN_TOOL_TRIPLETAP = 0x14e"
definition BTN_TOOL_QUADTAP :: nat where "BTN_TOOL_QUADTAP = 0x14f"

definition KEY_TAB :: nat where "KEY_TAB = 15"
definition KEY_LEFTCTRL :: nat where "KEY_LEFTCTRL = 29"
definition KEY_A :: nat where "KEY_A = 30"
definition KEY_LEFTSHIFT :: nat where "KEY_LEFTSHIFT = 42"
definition KEY_RIGHTSHIFT :: nat where "KEY_RIGHTSHIFT = 54"
definition KEY_LEFTALT :: nat where "KEY_LEFTALT = 56"
definition KEY_CAPSLOCK :: nat where "KEY_CAPSLOCK = 58"
definition KEY_F1 :: nat where "KEY_F1 = 59"
definition KEY_RIGHTCTRL :: nat where "KEY_RIGHTCTRL = 97"
definition KEY_RIGHTALT :: nat where "KEY_RIGHTALT = 100"
definition KEY_LEFTMETA :: nat where "KEY_LEFTMETA = 125"
definition KEY_RIGHTMETA :: nat where "KEY_RIGHTMETA = 126"
definition KEY_COMPOSE :: nat where "KEY_COMPOSE = 127"
definition KEY_FN :: nat where "KEY_FN = 0x1d0"
definition KEY_CNT :: nat where "KEY_CNT = 0x300"

subsection \<open>A freshly allocated dispatcher\<close>

text \<open>
  \<^verbatim>\<open>tp_init_slots\<close> allocates \<^verbatim>\<open>ntouches\<close> zeroed touches and runs
  \<^verbatim>\<open>tp_init_touch\<close> on each: \<^verbatim>\<open>has_ended = true\<close>, \<^verbatim>\<open>index = i\<close>.  The
  dispatcher itself is zeroed memory; the concrete states of the examples below are
  built from it.
\<close>

definition device_coords_zero :: device_coords where
  "device_coords_zero = \<lparr>dc_x = 0, dc_y = 0\<rparr>"

definition tp_init_touch :: "nat \<Rightarrow> tp_touch" where
  "tp_init_touch i =
     \<lparr>t_index = i, t_state = TOUCH_NONE, t_has_ended = True, t_dirty = False,
      t_point = device_coords_zero, t_time = 0, t_pressure = 0, t_is_tool_palm = False,
      t_major = 0, t_minor = 0, t_was_down = False, t_quirks_reset_motion_history = False,
      t_history_samples =
        replicate TOUCHPAD_HISTORY_LENGTH \<lparr>hp_point = device_coords_zero, hp_time = 0\<rparr>,
      t_history_index = 0, t_history_count = 0, t_jumps_last_delta_mm = 0,
      t_pinned_is_pinned = False, t_pinned_center = device_coords_zero,
      t_hysteresis_center = device_coords_zero, t_hysteresis_x_motion_history = 0,
      t_tap_is_thumb = False, t_tap_is_palm = False,
      t_palm_state = PALM_NONE, t_palm_first = device_coords_zero, t_palm_time = 0,
      t_thumb_state = THUMB_STATE_NO, t_thumb_initial = device_coords_zero,
      t_thumb_first_touch_time = 0, t_speed_last_speed = 0, t_speed_exceeded_count = 0\<rparr>"

definition NLONGS_KEY_CNT :: nat where
  "NLONGS_KEY_CNT = (KEY_CNT + 64 - 1) div 64"

definition tp_zalloc :: "nat \<Rightarrow> nat \<Rightarrow> tp_dispatch" where
  "tp_zalloc nslots n =
     \<lparr>device_model_wacom_touchpad = False, device_model_test_device = False,
      device_model_lenovo_t450_touchpad = False,
      device_model_synaptics_serial_touchpad = False,
      device_is_suspended = False, device_left_handed_enabled = False,
      device_abs_x_minimum = 0, device_abs_x_maximum = 0, device_abs_x_resolution = 1,
      device_abs_y_minimum = 0, device_abs_y_maximum = 0, device_abs_y_resolution = 1,
      left_handed_rotate = False,
      touches = map tp_init_touch [0..<n],
      slot = 0, has_mt = (1 < nslots), semi_mt = False, num_slots = nslots, ntouches = n,
      nfingers_down = 0, old_nfingers_down = 0, fake_touches = 0, queued = 0,
      pressure_use_pressure = False, pressure_high = 0, pressure_low = 0,
      touch_size_use_touch_size = False, touch_size_low = 0, touch_size_high = 0,
      hysteresis_enabled = False, hysteresis_margin = device_coords_zero,
      hysteresis_last_motion_time = 0,
      buttons_is_clickpad = False, buttons_has_topbuttons = False,
      scroll_method = LIBINPUT_CONFIG_SCROLL_NO_SCROLL,
      arbitration_state = ARBITRATION_NOT_ACTIVE,
      palm_left_edge = 0, palm_right_edge = 0, palm_upper_edge = 0,
      palm_trackpoint_active = False, palm_trackpoint_last_event_time = 0,
      palm_trackpoint_event_count = 0, palm_monitor_trackpoint = False,
      palm_use_mt_tool = False, palm_use_pressure = False, palm_pressure_threshold = 0,
      palm_use_size = False, palm_size_threshold = 0,
      thumb_detect_thumbs = False, thumb_upper_thumb_line = 0, thumb_lower_thumb_line = 0,
      thumb_use_pressure = False, thumb_pressure_threshold = 0,
      thumb_use_size = False, thumb_size_threshold = 0,
      dwt_dwt_enabled = False, dwt_keyboard_active = False,
      dwt_key_mask = replicate NLONGS_KEY_CNT 0, dwt_mod_mask = replicate NLONGS_KEY_CNT 0,
      dwt_keyboard_last_press_time = 0,
      quirks_msc_timestamp_state = JUMP_STATE_IGNORE,
      quirks_msc_timestamp_interval = 0, quirks_msc_timestamp_now = 0,
      quirks_nonmotion_event_count = 0,
      suspend_reason = 0, trace = []\<rparr>"

section \<open>Fake-finger tracker\<close>

text \<open>
  \<^verbatim>\<open>ffs\<close> of the C library: the position, counted from 1, of the least significant
  set bit, and 0 when no bit is set.  \<^verbatim>\<open>__builtin_popcount\<close> counts the set bits.
\<close>

fun ffs_from :: "nat \<Rightarrow> nat \<Rightarrow> 32 word \<Rightarrow> nat" where
  "ffs_from 0 i w = 0"
| "ffs_from (Suc k) i w = (if bit w i then Suc i else ffs_from k (Suc i) w)"

definition ffs :: "32 word \<Rightarrow> nat" where
  "ffs w = ffs_from 32 0 w"

definition popcount :: "32 word \<Rightarrow> nat" where
  "popcount w = length (filter (bit w) [0..<32])"

text \<open>
  \<^verbatim>\<open>tp_fake_finger_count\<close> returns the count and may log a kernel bug: the result is the
  count and the dispatcher with its trace.
\<close>

definition tp_fake_finger_count :: "tp_dispatch \<Rightarrow> nat \<times> tp_dispatch" where
  "tp_fake_finger_count tp =
     (let tp1 = (if 1 < popcount (fake_touches tp AND NOT (FAKE_FINGER_OVERFLOW OR 1))
                 then tp\<lparr>trace := trace tp @
                        [Log_bug_kernel_invalid_fake_finger_state (fake_touches tp)]\<rparr>
                 else tp)
      in if fake_touches tp AND FAKE_FINGER_OVERFLOW \<noteq> 0
         then (unat FAKE_FINGER_OVERFLOW, tp1)
         else (ffs (drop_bit 1 (fake_touches tp)), tp1))"

definition tp_fake_finger_is_touching :: "tp_dispatch \<Rightarrow> bool" where
  "tp_fake_finger_is_touching tp \<longleftrightarrow> fake_touches tp AND 1 \<noteq> 0"

text \<open>
  \<^verbatim>\<open>tp_fake_finger_set\<close>: the \<^verbatim>\<open>switch\<close> yields the shift, or returns at once for
  \<^verbatim>\<open>BTN_TOOL_QUINTTAP\<close> and for every other code.
\<close>

definition tp_fake_finger_set :: "tp_dispatch \<Rightarrow> nat \<Rightarrow> bool \<Rightarrow> tp_dispatch" where
  "tp_fake_finger_set tp code is_press =
     (if code = BTN_TOUCH \<or> code = BTN_TOOL_FINGER \<or> code = BTN_TOOL_DOUBLETAP
         \<or> code = BTN_TOOL_TRIPLETAP \<or> code = BTN_TOOL_QUADTAP
      then
        (let tp1 = (if code = BTN_TOUCH \<and> \<not> is_press
                    then tp\<lparr>fake_touches := fake_touches tp AND NOT FAKE_FINGER_OVERFLOW\<rparr>
                    else tp);
             shift = (if code = BTN_TOUCH then 0
                      else if code = BTN_TOOL_FINGER then 1
                      else code - BTN_TOOL_DOUBLETAP + 2)
         in if is_press
            then tp1\<lparr>fake_touches :=
                      (fake_touches tp1 AND NOT FAKE_FINGER_OVERFLOW) OR push_bit shift 1\<rparr>
            else tp1\<lparr>fake_touches := fake_touches tp1 AND NOT (push_bit shift 1)\<rparr>)
      else if code = BTN_TOOL_QUINTTAP
      then (if is_press then tp\<lparr>fake_touches := fake_touches tp OR FAKE_FINGER_OVERFLOW\<rparr>
            else tp)
      else tp)"

text \<open>
  The reading of the spec, for comparison: the index of the highest asserted tool bit
  among \<^verbatim>\<open>BTN_TOOL_FINGER\<close> (1) to \<^verbatim>\<open>BTN_TOOL_QUADTAP\<close> (4); and what the code
  computes: the index of the lowest asserted bit above bit 0.
\<close>

definition highest_asserted_tool_bit :: "32 word \<Rightarrow> nat" where
  "highest_asserted_tool_bit w =
     (if bit w 4 then 4 else if bit w 3 then 3 else if bit w 2 then 2
      else if bit w 1 then 1 else 0)"

definition lowest_asserted_bit_above_0 :: "32 word \<Rightarrow> nat" where
  "lowest_asserted_bit_above_0 w = (case filter (bit w) [1..<32] of [] \<Rightarrow> 0 | i # _ \<Rightarrow> i)"

section \<open>Touch life cycle\<close>

definition touch :: "tp_dispatch \<Rightarrow> nat \<Rightarrow> tp_touch" where
  "touch tp i = touches tp ! i"

definition set_touch :: "tp_dispatch \<Rightarrow> nat \<Rightarrow> tp_touch \<Rightarrow> tp_dispatch" where
  "set_touch tp i t = tp\<lparr>touches := (touches tp)[i := t]\<rparr>"

definition add_trace :: "call list \<Rightarrow> tp_dispatch \<Rightarrow> tp_dispatch" where
  "add_trace cs tp = tp\<lparr>trace := trace tp @ cs\<rparr>"

text \<open>\<^verbatim>\<open>tp_get_touch\<close> asserts that the slot is allocated.\<close>

definition tp_get_touch :: "tp_dispatch \<Rightarrow> nat \<Rightarrow> tp_touch option" where
  "tp_get_touch tp sl = (if sl < ntouches tp then Some (touch tp sl) else None)"

definition tp_motion_history_reset :: "tp_touch \<Rightarrow> tp_touch" where
  "tp_motion_history_reset t = t\<lparr>t_history_count := 0\<rparr>"

text \<open>
  \<^verbatim>\<open>nfingers_down\<close> is an \<^verbatim>\<open>unsigned int\<close>: the increment wraps at \<open>2 ^ 32\<close>, the
  decrement is guarded by the assertion before it.
\<close>

definition tp_new_touch :: "tp_dispatch \<Rightarrow> nat \<Rightarrow> 64 word \<Rightarrow> tp_dispatch" where
  "tp_new_touch tp i time =
     (let t = touch tp i in
      if t_state t = TOUCH_BEGIN \<or> t_state t = TOUCH_UPDATE \<or> t_state t = TOUCH_HOVERING
      then tp
      else if t_state t = TOUCH_MAYBE_END
      then set_touch
             ((add_trace [Log_bug_kernel_touch_ended_and_began (t_index t)] tp)
                \<lparr>nfingers_down := (nfingers_down tp + 1) mod 2 ^ 32\<rparr>)
             i (t\<lparr>t_state := TOUCH_UPDATE, t_has_ended := False\<rparr>)
      else set_touch (tp\<lparr>queued := queued tp OR TOUCHPAD_EVENT_MOTION\<rparr>) i
             ((tp_motion_history_reset t)
                \<lparr>t_dirty := True, t_has_ended := False, t_was_down := False,
                 t_palm_state := PALM_NONE, t_state := TOUCH_HOVERING,
                 t_pinned_is_pinned := False, t_time := time,
                 t_speed_last_speed := 0, t_speed_exceeded_count := 0,
                 t_hysteresis_x_motion_history := 0\<rparr>))"

definition tp_begin_touch :: "tp_dispatch \<Rightarrow> nat \<Rightarrow> 64 word \<Rightarrow> tp_dispatch option" where
  "tp_begin_touch tp i time =
     (let t = touch tp i;
          n = (nfingers_down tp + 1) mod 2 ^ 32;
          t' = t\<lparr>t_dirty := True, t_state := TOUCH_BEGIN, t_time := time, t_was_down := True,
                 t_palm_time := time, t_thumb_state := THUMB_STATE_MAYBE,
                 t_thumb_first_touch_time := time, t_tap_is_thumb := False,
                 t_tap_is_palm := False, t_speed_exceeded_count := 0\<rparr>
      in if 1 \<le> n
         then Some (set_touch (tp\<lparr>nfingers_down := n, hysteresis_last_motion_time := time\<rparr>) i t')
         else None)"

definition tp_maybe_end_touch :: "tp_dispatch \<Rightarrow> nat \<Rightarrow> 64 word \<Rightarrow> tp_dispatch option" where
  "tp_maybe_end_touch tp i time =
     (let t = touch tp i in
      case t_state t of
        TOUCH_NONE \<Rightarrow> Some tp
      | TOUCH_MAYBE_END \<Rightarrow> Some tp
      | TOUCH_END \<Rightarrow> Some (add_trace [Log_bug_libinput_already_in_TOUCH_END (t_index t)] tp)
      | TOUCH_HOVERING \<Rightarrow> Some (set_touch tp i (t\<lparr>t_state := TOUCH_NONE, t_dirty := True\<rparr>))
      | _ \<Rightarrow>
          if 1 \<le> nfingers_down tp
          then Some (set_touch (tp\<lparr>nfingers_down := nfingers_down tp - 1\<rparr>) i
                       (t\<lparr>t_state := TOUCH_MAYBE_END, t_dirty := True\<rparr>))
          else None)"

definition tp_recover_ended_touch :: "tp_dispatch \<Rightarrow> nat \<Rightarrow> tp_dispatch" where
  "tp_recover_ended_touch tp i =
     set_touch (tp\<lparr>nfingers_down := (nfingers_down tp + 1) mod 2 ^ 32\<rparr>) i
       ((touch tp i)\<lparr>t_dirty := True, t_state := TOUCH_UPDATE\<rparr>)"

definition tp_end_touch :: "tp_dispatch \<Rightarrow> nat \<Rightarrow> 64 word \<Rightarrow> tp_dispatch" where
  "tp_end_touch tp i time =
     (let t = touch tp i in
      if t_state t \<noteq> TOUCH_MAYBE_END
      then add_trace [Log_bug_libinput_should_be_MAYBE_END (t_index t) (t_state t)] tp
      else set_touch (tp\<lparr>queued := queued tp OR TOUCHPAD_EVENT_MOTION\<rparr>) i
             (t\<lparr>t_dirty := True, t_palm_state := PALM_NONE, t_state := TOUCH_END,
                t_pinned_is_pinned := False, t_time := time, t_palm_time := 0,
                t_speed_exceeded_count := 0\<rparr>))"

definition tp_end_sequence :: "tp_dispatch \<Rightarrow> nat \<Rightarrow> 64 word \<Rightarrow> tp_dispatch option" where
  "tp_end_sequence tp i time =
     tp_maybe_end_touch (set_touch tp i ((touch tp i)\<lparr>t_has_ended := True\<rparr>)) i time"

definition tp_stop_actions :: "tp_dispatch \<Rightarrow> 64 word \<Rightarrow> tp_dispatch" where
  "tp_stop_actions tp time =
     add_trace [Edge_scroll_stop_events time, Gesture_cancel time, Tap_suspend time] tp"

section \<open>Disable-while-typing\<close>

text \<open>
  The key masks are arrays of \<^verbatim>\<open>unsigned long\<close> with one bit per key code.  A key
  code is below \<^verbatim>\<open>KEY_CNT\<close>, so the word it selects exists; outside that range the C
  code is undefined and the list update of the model does nothing.
  \<^verbatim>\<open>long_any_bit_set\<close> is always called with the length of the array.
\<close>

definition long_set_bit :: "64 word list \<Rightarrow> nat \<Rightarrow> 64 word list" where
  "long_set_bit array b = array[b div 64 := (array ! (b div 64)) OR push_bit (b mod 64) 1]"

definition long_clear_bit :: "64 word list \<Rightarrow> nat \<Rightarrow> 64 word list" where
  "long_clear_bit array b =
     array[b div 64 := (array ! (b div 64)) AND NOT (push_bit (b mod 64) 1)]"

definition long_any_bit_set :: "64 word list \<Rightarrow> nat \<Rightarrow> bool" where
  "long_any_bit_set array sz = list_ex (\<lambda>w. w \<noteq> 0) (take sz array)"

datatype libinput_event =
    LIBINPUT_EVENT_KEYBOARD_KEY nat bool
  | LIBINPUT_EVENT_POINTER_BUTTON
  | LIBINPUT_EVENT_OTHER

definition tp_key_is_modifier :: "nat \<Rightarrow> bool" where
  "tp_key_is_modifier keycode \<longleftrightarrow>
     keycode = KEY_LEFTCTRL \<or> keycode = KEY_RIGHTCTRL \<or> keycode = KEY_LEFTALT
     \<or> keycode = KEY_RIGHTALT \<or> keycode = KEY_LEFTSHIFT \<or> keycode = KEY_RIGHTSHIFT
     \<or> keycode = KEY_FN \<or> keycode = KEY_CAPSLOCK \<or> keycode = KEY_TAB
     \<or> keycode = KEY_COMPOSE \<or> keycode = KEY_RIGHTMETA \<or> keycode = KEY_LEFTMETA"

definition tp_key_ignore_for_dwt :: "nat \<Rightarrow> bool" where
  "tp_key_ignore_for_dwt keycode \<longleftrightarrow>
     (if tp_key_is_modifier keycode then False else KEY_F1 \<le> keycode)"

text \<open>
  \<^verbatim>\<open>tp_keyboard_event\<close>; the second argument of \<open>LIBINPUT_EVENT_KEYBOARD_KEY\<close> says
  that the key state is \<^verbatim>\<open>LIBINPUT_KEY_STATE_PRESSED\<close>.
\<close>

definition tp_keyboard_event :: "64 word \<Rightarrow> libinput_event \<Rightarrow> tp_dispatch \<Rightarrow> tp_dispatch" where
  "tp_keyboard_event time event tp =
     (case event of
        LIBINPUT_EVENT_KEYBOARD_KEY key pressed \<Rightarrow>
          if \<not> pressed
          then tp\<lparr>dwt_key_mask := long_clear_bit (dwt_key_mask tp) key,
                  dwt_mod_mask := long_clear_bit (dwt_mod_mask tp) key\<rparr>
          else if \<not> dwt_dwt_enabled tp then tp
          else if tp_key_ignore_for_dwt key then tp
          else if tp_key_is_modifier key
          then tp\<lparr>dwt_mod_mask := long_set_bit (dwt_mod_mask tp) key\<rparr>
          else if \<not> dwt_keyboard_active tp \<and>
                  long_any_bit_set (dwt_mod_mask tp) (length (dwt_mod_mask tp))
          then tp
          else
            (let tp1 = (if \<not> dwt_keyboard_active tp
                        then (tp_stop_actions tp time)\<lparr>dwt_keyboard_active := True\<rparr>
                        else tp);
                 timeout = (if \<not> dwt_keyboard_active tp
                            then DEFAULT_KEYBOARD_ACTIVITY_TIMEOUT_1
                            else DEFAULT_KEYBOARD_ACTIVITY_TIMEOUT_2)
             in add_trace [Timer_set Keyboard_timer (time + timeout)]
                  (tp1\<lparr>dwt_keyboard_last_press_time := time,
                       dwt_key_mask := long_set_bit (dwt_key_mask tp1) key\<rparr>))
      | _ \<Rightarrow> tp)"



section \<open>Collaborators and geometry\<close>

text \<open>
  The tap, button, edge-scroll and geometry helpers live in other files of the library.
  The dispatcher only asks them questions; they are parameters of the model.
  \<open>tp_touch_get_edge_right\<close> is the test \<^verbatim>\<open>tp_touch_get_edge(tp, t) & EDGE_RIGHT\<close>;
  \<open>tp_process_button_queued\<close> is the value of \<^verbatim>\<open>tp->queued\<close> after
  \<^verbatim>\<open>tp_process_button\<close>; \<open>tp_tap_handle_state\<close>, \<open>tp_post_button_events\<close> and
  \<open>tp_edge_scroll_post_events\<close> say whether the call returns a nonzero value.  The
  collaborators keep their state in fields of their own, which the model leaves out.
\<close>

type_synonym phys_coords = "real \<times> real"

record collaborators =
  tp_button_is_inside_softbutton_area :: "tp_dispatch \<Rightarrow> tp_touch \<Rightarrow> bool"
  tp_touch_get_edge_right :: "tp_dispatch \<Rightarrow> tp_touch \<Rightarrow> bool"
  tp_button_touch_active :: "tp_dispatch \<Rightarrow> tp_touch \<Rightarrow> bool"
  tp_edge_scroll_touch_active :: "tp_dispatch \<Rightarrow> tp_touch \<Rightarrow> bool"
  phys_get_direction :: "phys_coords \<Rightarrow> 32 word"
  evdev_hysteresis :: "device_coords \<Rightarrow> device_coords \<Rightarrow> device_coords \<Rightarrow> device_coords"
  tp_process_button_queued :: "tp_dispatch \<Rightarrow> nat \<Rightarrow> int \<Rightarrow> 32 word"
  tp_tap_handle_state :: "tp_dispatch \<Rightarrow> 64 word \<Rightarrow> bool"
  tp_post_button_events :: "tp_dispatch \<Rightarrow> 64 word \<Rightarrow> bool"
  tp_edge_scroll_post_events :: "tp_dispatch \<Rightarrow> 64 word \<Rightarrow> bool"

text \<open>
  Modelled from the spec: \<^verbatim>\<open>enum directions\<close> of the utility header names the eight
  compass octants that \<^verbatim>\<open>phys_get_direction\<close> reports as a bit mask.
\<close>

definition dir_N :: "32 word" where "dir_N = push_bit 0 1"
definition dir_NE :: "32 word" where "dir_NE = push_bit 1 1"
definition dir_E :: "32 word" where "dir_E = push_bit 2 1"
definition dir_SE :: "32 word" where "dir_SE = push_bit 3 1"
definition dir_S :: "32 word" where "dir_S = push_bit 4 1"
definition dir_SW :: "32 word" where "dir_SW = push_bit 5 1"
definition dir_W :: "32 word" where "dir_W = push_bit 6 1"
definition dir_NW :: "32 word" where "dir_NW = push_bit 7 1"

definition device_delta :: "device_coords \<Rightarrow> device_coords \<Rightarrow> real \<times> real" where
  "device_delta a b = (real_of_int (dc_x a - dc_x b), real_of_int (dc_y a - dc_y b))"

text \<open>
  Modelled from the spec: \<^verbatim>\<open>tp_phys_delta\<close>, \<^verbatim>\<open>evdev_device_unit_delta_to_mm\<close> and
  \<^verbatim>\<open>length_in_mm\<close> are declared in headers that are not part of the sources at hand;
  the axis resolution is in units per millimetre, so a distance in millimetres is the
  distance in device units divided by the resolution of its axis.
\<close>

definition tp_phys_delta :: "tp_dispatch \<Rightarrow> real \<times> real \<Rightarrow> phys_coords" where
  "tp_phys_delta tp delta =
     (fst delta / real_of_int (device_abs_x_resolution tp),
      snd delta / real_of_int (device_abs_y_resolution tp))"

definition evdev_device_unit_delta_to_mm :: "tp_dispatch \<Rightarrow> device_coords \<Rightarrow> phys_coords" where
  "evdev_device_unit_delta_to_mm tp units =
     (real_of_int (dc_x units) / real_of_int (device_abs_x_resolution tp),
      real_of_int (dc_y units) / real_of_int (device_abs_y_resolution tp))"

definition hypot :: "real \<Rightarrow> real \<Rightarrow> real" where
  "hypot a b = sqrt (a * a + b * b)"

definition length_in_mm :: "phys_coords \<Rightarrow> real" where
  "length_in_mm mm = hypot (fst mm) (snd mm)"

section \<open>Motion history\<close>

definition tp_motion_history_offset :: "tp_touch \<Rightarrow> nat \<Rightarrow> nat" where
  "tp_motion_history_offset t offset =
     nat ((int (t_history_index t) - int offset + int TOUCHPAD_HISTORY_LENGTH)
          mod int TOUCHPAD_HISTORY_LENGTH)"

definition history_sample :: "tp_touch \<Rightarrow> nat \<Rightarrow> tp_history_point" where
  "history_sample t offset = t_history_samples t ! tp_motion_history_offset t offset"

definition tp_motion_history_push :: "tp_touch \<Rightarrow> tp_touch" where
  "tp_motion_history_push t =
     (let motion_index = (t_history_index t + 1) mod TOUCHPAD_HISTORY_LENGTH;
          t1 = (if t_history_count t < TOUCHPAD_HISTORY_LENGTH
                then t\<lparr>t_history_count := t_history_count t + 1\<rparr> else t)
      in t1\<lparr>t_history_samples :=
               (t_history_samples t1)[motion_index :=
                  \<lparr>hp_point = t_point t1, hp_time = t_time t1\<rparr>],
             t_history_index := motion_index\<rparr>)"

section \<open>Palm classifier\<close>

definition tp_touch_active :: "collaborators \<Rightarrow> tp_dispatch \<Rightarrow> tp_touch \<Rightarrow> bool" where
  "tp_touch_active ext tp t \<longleftrightarrow>
     (t_state t = TOUCH_BEGIN \<or> t_state t = TOUCH_UPDATE) \<and>
     t_palm_state t = PALM_NONE \<and> \<not> t_pinned_is_pinned t \<and>
     t_thumb_state t \<noteq> THUMB_STATE_YES \<and>
     tp_button_touch_active ext tp t \<and> tp_edge_scroll_touch_active ext tp t"

definition tp_palm_was_in_side_edge :: "tp_dispatch \<Rightarrow> tp_touch \<Rightarrow> bool" where
  "tp_palm_was_in_side_edge tp t \<longleftrightarrow>
     dc_x (t_palm_first t) < palm_left_edge tp \<or> dc_x (t_palm_first t) > palm_right_edge tp"

definition tp_palm_was_in_top_edge :: "tp_dispatch \<Rightarrow> tp_touch \<Rightarrow> bool" where
  "tp_palm_was_in_top_edge tp t \<longleftrightarrow> dc_y (t_palm_first t) < palm_upper_edge tp"

definition tp_palm_in_side_edge :: "tp_dispatch \<Rightarrow> tp_touch \<Rightarrow> bool" where
  "tp_palm_in_side_edge tp t \<longleftrightarrow>
     dc_x (t_point t) < palm_left_edge tp \<or> dc_x (t_point t) > palm_right_edge tp"

definition tp_palm_in_top_edge :: "tp_dispatch \<Rightarrow> tp_touch \<Rightarrow> bool" where
  "tp_palm_in_top_edge tp t \<longleftrightarrow> dc_y (t_point t) < palm_upper_edge tp"

definition tp_palm_in_edge :: "tp_dispatch \<Rightarrow> tp_touch \<Rightarrow> bool" where
  "tp_palm_in_edge tp t \<longleftrightarrow> tp_palm_in_side_edge tp t \<or> tp_palm_in_top_edge tp t"

text \<open>
  Each rule of the classifier writes only the touch it is given: it returns whether it
  triggered, and the touch.
\<close>

definition tp_palm_detect_dwt_triggered ::
  "tp_dispatch \<Rightarrow> tp_touch \<Rightarrow> 64 word \<Rightarrow> bool \<times> tp_touch" where
  "tp_palm_detect_dwt_triggered tp t time =
     (if dwt_dwt_enabled tp \<and> dwt_keyboard_active tp \<and> t_state t = TOUCH_BEGIN
      then (True, t\<lparr>t_palm_state := PALM_TYPING, t_palm_first := t_point t\<rparr>)
      else if \<not> dwt_keyboard_active tp \<and> t_state t = TOUCH_UPDATE \<and>
              t_palm_state t = PALM_TYPING
      then (False,
            if t_palm_time t = 0 \<or> t_palm_time t > dwt_keyboard_last_press_time tp
            then t\<lparr>t_palm_state := PALM_NONE\<rparr> else t)
      else (False, t))"

definition tp_palm_detect_trackpoint_triggered ::
  "tp_dispatch \<Rightarrow> tp_touch \<Rightarrow> 64 word \<Rightarrow> bool \<times> tp_touch" where
  "tp_palm_detect_trackpoint_triggered tp t time =
     (if \<not> palm_monitor_trackpoint tp then (False, t)
      else if t_palm_state t = PALM_NONE \<and> t_state t = TOUCH_BEGIN \<and>
              palm_trackpoint_active tp
      then (True, t\<lparr>t_palm_state := PALM_TRACKPOINT\<rparr>)
      else if t_palm_state t = PALM_TRACKPOINT \<and> t_state t = TOUCH_UPDATE \<and>
              \<not> palm_trackpoint_active tp
      then (False,
            if t_palm_time t = 0 \<or> t_palm_time t > palm_trackpoint_last_event_time tp
            then t\<lparr>t_palm_state := PALM_NONE\<rparr> else t)
      else (False, t))"

definition tp_palm_detect_tool_triggered ::
  "tp_dispatch \<Rightarrow> tp_touch \<Rightarrow> 64 word \<Rightarrow> bool \<times> tp_touch" where
  "tp_palm_detect_tool_triggered tp t time =
     (if \<not> palm_use_mt_tool tp then (False, t)
      else if t_palm_state t \<noteq> PALM_NONE \<and> t_palm_state t \<noteq> PALM_TOOL_PALM
      then (False, t)
      else
        (let t1 = (if t_palm_state t = PALM_NONE \<and> t_is_tool_palm t
                   then t\<lparr>t_palm_state := PALM_TOOL_PALM\<rparr>
                   else if t_palm_state t = PALM_TOOL_PALM \<and> \<not> t_is_tool_palm t
                   then t\<lparr>t_palm_state := PALM_NONE\<rparr>
                   else t)
         in (t_palm_state t1 = PALM_TOOL_PALM, t1)))"

definition tp_palm_detect_move_out_of_edge ::
  "collaborators \<Rightarrow> tp_dispatch \<Rightarrow> tp_touch \<Rightarrow> 64 word \<Rightarrow> bool" where
  "tp_palm_detect_move_out_of_edge ext tp t time =
     (if time < t_palm_time t + ms2us 200 \<and> \<not> tp_palm_in_edge tp t
      then
        (let directions =
               (if tp_palm_was_in_side_edge tp t
                then dir_NE OR dir_E OR dir_SE OR dir_SW OR dir_W OR dir_NW
                else if tp_palm_was_in_top_edge tp t
                then dir_S OR dir_SE OR dir_SW
                else 0)
         in if directions \<noteq> 0
            then (let dirs = phys_get_direction ext
                               (tp_phys_delta tp (device_delta (t_point t) (t_palm_first t)))
                  in dirs AND directions \<noteq> 0 \<and> dirs AND NOT directions = 0)
            else False)
      else False)"

text \<open>\<^verbatim>\<open>tp_for_each_touch\<close> visits the touches \<open>0\<close> to \<open>ntouches - 1\<close> in order.\<close>

definition tp_palm_detect_multifinger ::
  "collaborators \<Rightarrow> tp_dispatch \<Rightarrow> nat \<Rightarrow> 64 word \<Rightarrow> bool" where
  "tp_palm_detect_multifinger ext tp i time =
     (if nfingers_down tp < 2 then False
      else list_ex (\<lambda>j. j \<noteq> i \<and> tp_touch_active ext tp (touch tp j) \<and>
                         t_palm_state (touch tp j) = PALM_NONE) [0..<ntouches tp])"

definition tp_palm_detect_touch_size_triggered ::
  "tp_dispatch \<Rightarrow> tp_touch \<Rightarrow> 64 word \<Rightarrow> bool \<times> tp_touch" where
  "tp_palm_detect_touch_size_triggered tp t time =
     (if \<not> palm_use_size tp then (False, t)
      else if t_palm_state t \<noteq> PALM_NONE \<and> t_palm_state t \<noteq> PALM_TOUCH_SIZE
      then (False, t)
      else if t_major t > palm_size_threshold tp \<or> t_minor t > palm_size_threshold tp
      then (True, t\<lparr>t_palm_state := PALM_TOUCH_SIZE\<rparr>)
      else (False, t))"

definition tp_palm_detect_edge ::
  "collaborators \<Rightarrow> tp_dispatch \<Rightarrow> nat \<Rightarrow> tp_touch \<Rightarrow> 64 word \<Rightarrow> bool \<times> tp_touch" where
  "tp_palm_detect_edge ext tp i t time =
     (if t_palm_state t = PALM_EDGE
      then (False,
            if tp_palm_detect_multifinger ext tp i time then t\<lparr>t_palm_state := PALM_NONE\<rparr>
            else if tp_palm_detect_move_out_of_edge ext tp t time
            then t\<lparr>t_palm_state := PALM_NONE\<rparr>
            else t)
      else if tp_palm_detect_multifinger ext tp i time then (False, t)
      else if t_state t \<noteq> TOUCH_BEGIN \<or> \<not> tp_palm_in_edge tp t then (False, t)
      else if buttons_is_clickpad tp \<and> tp_button_is_inside_softbutton_area ext tp t
      then (False, t)
      else if tp_touch_get_edge_right ext tp t then (False, t)
      else (True, t\<lparr>t_palm_state := PALM_EDGE, t_palm_time := time,
                      t_palm_first := t_point t\<rparr>))"

definition tp_palm_detect_pressure_triggered ::
  "tp_dispatch \<Rightarrow> tp_touch \<Rightarrow> 64 word \<Rightarrow> bool \<times> tp_touch" where
  "tp_palm_detect_pressure_triggered tp t time =
     (if \<not> palm_use_pressure tp then (False, t)
      else if t_palm_state t \<noteq> PALM_NONE \<and> t_palm_state t \<noteq> PALM_PRESSURE
      then (False, t)
      else
        (let t1 = (if t_pressure t > palm_pressure_threshold tp
                   then t\<lparr>t_palm_state := PALM_PRESSURE\<rparr> else t)
         in (t_palm_state t1 = PALM_PRESSURE, t1)))"

definition tp_palm_detect_arbitration_triggered ::
  "tp_dispatch \<Rightarrow> tp_touch \<Rightarrow> 64 word \<Rightarrow> bool \<times> tp_touch" where
  "tp_palm_detect_arbitration_triggered tp t time =
     (if arbitration_state tp = ARBITRATION_NOT_ACTIVE then (False, t)
      else (True, t\<lparr>t_palm_state := PALM_ARBITRATION\<rparr>))"

text \<open>
  \<^verbatim>\<open>tp_palm_detect\<close>: the first rule that triggers jumps to \<^verbatim>\<open>out\<close>, where a changed
  state is logged and the state \<^verbatim>\<open>PALM_NONE\<close> aborts.
\<close>

definition tp_palm_detect_rules ::
  "collaborators \<Rightarrow> tp_dispatch \<Rightarrow> nat \<Rightarrow> tp_touch \<Rightarrow> 64 word \<Rightarrow> bool \<times> tp_touch" where
  "tp_palm_detect_rules ext tp i t time =
     (let (r1, t1) = tp_palm_detect_pressure_triggered tp t time in
      if r1 then (True, t1) else
      let (r2, t2) = tp_palm_detect_arbitration_triggered tp t1 time in
      if r2 then (True, t2) else
      let (r3, t3) = tp_palm_detect_dwt_triggered tp t2 time in
      if r3 then (True, t3) else
      let (r4, t4) = tp_palm_detect_trackpoint_triggered tp t3 time in
      if r4 then (True, t4) else
      let (r5, t5) = tp_palm_detect_tool_triggered tp t4 time in
      if r5 then (True, t5) else
      let (r6, t6) = tp_palm_detect_touch_size_triggered tp t5 time in
      if r6 then (True, t6) else
      let (r7, t7) = tp_palm_detect_edge ext tp i t6 time in
      if r7 then (True, t7) else
      tp_palm_detect_pressure_triggered tp t7 time)"

definition tp_palm_detect ::
  "collaborators \<Rightarrow> tp_dispatch \<Rightarrow> nat \<Rightarrow> 64 word \<Rightarrow> tp_dispatch option" where
  "tp_palm_detect ext tp i time =
     (let oldstate = t_palm_state (touch tp i);
          (out, t') = tp_palm_detect_rules ext tp i (touch tp i) time
      in if out \<and> oldstate \<noteq> t_palm_state t' \<and> t_palm_state t' = PALM_NONE
         then None
         else Some (set_touch tp i t'))"

section \<open>Concrete collaborators and dispatchers for the examples\<close>

definition quiet_collaborators :: collaborators where
  "quiet_collaborators =
     \<lparr>tp_button_is_inside_softbutton_area = (\<lambda>tp t. False),
      tp_touch_get_edge_right = (\<lambda>tp t. False),
      tp_button_touch_active = (\<lambda>tp t. True),
      tp_edge_scroll_touch_active = (\<lambda>tp t. True),
      phys_get_direction = (\<lambda>mm. 0),
      evdev_hysteresis = (\<lambda>p c m. p),
      tp_process_button_queued = (\<lambda>tp code v. queued tp),
      tp_tap_handle_state = (\<lambda>tp time. False),
      tp_post_button_events = (\<lambda>tp time. False),
      tp_edge_scroll_post_events = (\<lambda>tp time. False)\<rparr>"

text \<open>
  A two-slot touchpad with size-based palm detection whose touch 0 is in state \<open>st\<close>,
  dirty, wider than the palm threshold and labelled with the palm state \<open>ps\<close>.
\<close>

definition palm_example :: "touch_state \<Rightarrow> touch_palm_state \<Rightarrow> tp_dispatch" where
  "palm_example st ps =
     set_touch ((tp_zalloc 2 2)\<lparr>palm_use_size := True, palm_size_threshold := 100,
                                 palm_use_pressure := True, palm_pressure_threshold := 200\<rparr>) 0
       ((tp_init_touch 0)\<lparr>t_state := st, t_dirty := True, t_major := 150,
                          t_palm_state := ps\<rparr>)"

section \<open>Thumb classifier\<close>

text \<open>
  The loop of \<^verbatim>\<open>tp_thumb_detect\<close> over the other touches (which does not skip the
  touch itself): the first touch that is down and below the upper thumb line rules the
  thumb out for \<open>i\<close> and, if it is still undecided, for itself.
\<close>

fun tp_thumb_detect_others :: "tp_dispatch \<Rightarrow> nat \<Rightarrow> nat list \<Rightarrow> tp_dispatch" where
  "tp_thumb_detect_others tp i [] = tp"
| "tp_thumb_detect_others tp i (j # js) =
     (let other = touch tp j in
      if t_state other \<noteq> TOUCH_BEGIN \<and> t_state other \<noteq> TOUCH_UPDATE
      then tp_thumb_detect_others tp i js
      else if dc_y (t_point other) > thumb_upper_thumb_line tp
      then (let tp1 = set_touch tp i ((touch tp i)\<lparr>t_thumb_state := THUMB_STATE_NO\<rparr>)
            in if t_thumb_state (touch tp1 j) = THUMB_STATE_MAYBE
               then set_touch tp1 j ((touch tp1 j)\<lparr>t_thumb_state := THUMB_STATE_NO\<rparr>)
               else tp1)
      else tp_thumb_detect_others tp i js)"

definition tp_thumb_detect :: "tp_dispatch \<Rightarrow> nat \<Rightarrow> 64 word \<Rightarrow> tp_dispatch" where
  "tp_thumb_detect tp i time =
     (let t = touch tp i in
      if \<not> thumb_detect_thumbs tp \<or> t_thumb_state t \<noteq> THUMB_STATE_MAYBE then tp
      else if dc_y (t_point t) < thumb_upper_thumb_line tp
      then set_touch tp i (t\<lparr>t_thumb_state := THUMB_STATE_NO\<rparr>)
      else if t_state t = TOUCH_UPDATE \<and>
              length_in_mm (tp_phys_delta tp (device_delta (t_point t) (t_thumb_initial t))) > 7
      then set_touch tp i (t\<lparr>t_thumb_state := THUMB_STATE_NO\<rparr>)
      else
        (let tp1 = (if t_state t = TOUCH_BEGIN
                    then set_touch tp i (t\<lparr>t_thumb_initial := t_point t\<rparr>) else tp);
             tp2 = (if dc_y (t_point t) > thumb_upper_thumb_line tp \<and> nfingers_down tp > 1
                    then tp_thumb_detect_others tp1 i [0..<ntouches tp] else tp1);
             t2 = touch tp2 i
         in if thumb_use_pressure tp \<and> t_pressure t2 > thumb_pressure_threshold tp
            then set_touch tp2 i (t2\<lparr>t_thumb_state := THUMB_STATE_YES\<rparr>)
            else if thumb_use_size tp \<and> t_major t2 > thumb_size_threshold tp \<and>
                    real_of_int (t_minor t2) < real_of_int (thumb_size_threshold tp) * (6 / 10)
            then set_touch tp2 i (t2\<lparr>t_thumb_state := THUMB_STATE_YES\<rparr>)
            else if dc_y (t_point t2) > thumb_lower_thumb_line tp \<and>
                    scroll_method tp \<noteq> LIBINPUT_CONFIG_SCROLL_EDGE \<and>
                    t_thumb_first_touch_time t2 + THUMB_MOVE_TIMEOUT < time
            then set_touch tp2 i (t2\<lparr>t_thumb_state := THUMB_STATE_YES\<rparr>)
            else tp2))"

text \<open>
  \<^verbatim>\<open>tp_detect_thumb_while_moving\<close>: the loop looks for a touch that is down but not new
  (\<open>first\<close>) and for a new one (\<open>second\<close>); both are asserted to exist.
\<close>

fun tp_detect_thumb_while_moving_find ::
  "tp_dispatch \<Rightarrow> nat list \<Rightarrow> nat option \<Rightarrow> nat option \<Rightarrow> nat option \<times> nat option" where
  "tp_detect_thumb_while_moving_find tp [] first second = (first, second)"
| "tp_detect_thumb_while_moving_find tp (j # js) first second =
     (if t_state (touch tp j) = TOUCH_NONE \<or> t_state (touch tp j) = TOUCH_HOVERING
      then tp_detect_thumb_while_moving_find tp js first second
      else
        (let first' = (if t_state (touch tp j) \<noteq> TOUCH_BEGIN then Some j else first);
             second' = (if t_state (touch tp j) \<noteq> TOUCH_BEGIN then second else Some j)
         in if first' \<noteq> None \<and> second' \<noteq> None then (first', second')
            else tp_detect_thumb_while_moving_find tp js first' second'))"

definition tp_detect_thumb_while_moving :: "tp_dispatch \<Rightarrow> tp_dispatch option" where
  "tp_detect_thumb_while_moving tp =
     (case tp_detect_thumb_while_moving_find tp [0..<ntouches tp] None None of
        (Some first, Some second) \<Rightarrow>
          (let distance = \<lparr>dc_x = \<bar>dc_x (t_point (touch tp first)) - dc_x (t_point (touch tp second))\<bar>,
                          dc_y = \<bar>dc_y (t_point (touch tp first)) - dc_y (t_point (touch tp second))\<bar>\<rparr>;
               mm = evdev_device_unit_delta_to_mm tp distance
           in if scroll_method tp = LIBINPUT_CONFIG_SCROLL_2FG \<and> fst mm \<le> 25 \<and> snd mm \<le> 15
              then Some tp
              else Some (set_touch tp second
                           ((touch tp second)\<lparr>t_thumb_state := THUMB_STATE_YES\<rparr>)))
      | _ \<Rightarrow> None)"

section \<open>Jump detector\<close>

text \<open>
  \<^verbatim>\<open>reference_interval\<close> is an \<^verbatim>\<open>unsigned int\<close>: the time delta of a test device is
  truncated into it, and its double is taken in 32 bits.
\<close>

definition tp_detect_jumps :: "tp_dispatch \<Rightarrow> tp_touch \<Rightarrow> 64 word \<Rightarrow> bool \<times> tp_touch" where
  "tp_detect_jumps tp t time =
     (if device_model_wacom_touchpad tp then (False, t)
      else if t_history_count t = 0 then (False, t\<lparr>t_jumps_last_delta_mm := 0\<rparr>)
      else
        (let last = history_sample t 0;
             tdelta = time - hp_time last;
             reference_interval =
               (if device_model_test_device tp then (ucast tdelta :: 32 word)
                else ucast (ms2us 12))
         in if tdelta > ucast (2 * reference_interval) \<or> tdelta = 0 then (False, t)
            else
              (let delta = \<lparr>dc_x = \<bar>dc_x (t_point t) - dc_x (hp_point last)\<bar>,
                             dc_y = \<bar>dc_y (t_point t) - dc_y (hp_point last)\<bar>\<rparr>;
                   mm = evdev_device_unit_delta_to_mm tp delta;
                   abs_distance = hypot (fst mm) (snd mm) * real (unat reference_interval)
                                    / real (unat tdelta);
                   rel_distance = abs_distance - t_jumps_last_delta_mm t
               in (abs_distance > 20 \<or> rel_distance > 7,
                   t\<lparr>t_jumps_last_delta_mm := abs_distance\<rparr>))))"

section \<open>MSC-timestamp jump corrector\<close>

definition tp_for_each_touch :: "(tp_touch \<Rightarrow> tp_touch) \<Rightarrow> tp_dispatch \<Rightarrow> tp_dispatch" where
  "tp_for_each_touch f tp =
     tp\<lparr>touches := map f (take (ntouches tp) (touches tp)) @ drop (ntouches tp) (touches tp)\<rparr>"

definition tp_motion_history_fix_last ::
  "tp_touch \<Rightarrow> 32 word \<Rightarrow> 32 word \<Rightarrow> 64 word \<Rightarrow> tp_touch" where
  "tp_motion_history_fix_last t jumping_interval normal_interval time =
     (if t_state t \<noteq> TOUCH_UPDATE then t
      else fold (\<lambda>i t'. t'\<lparr>t_history_samples :=
                   (t_history_samples t')[tp_motion_history_offset t' i :=
                      (history_sample t' i)
                        \<lparr>hp_time := time - ucast jumping_interval
                                      - ucast (normal_interval * of_nat i)\<rparr>]\<rparr>)
             [0..<t_history_count t] t)"

definition tp_process_msc_timestamp :: "tp_dispatch \<Rightarrow> 64 word \<Rightarrow> tp_dispatch" where
  "tp_process_msc_timestamp tp time =
     (let now = quirks_msc_timestamp_now tp; interval = quirks_msc_timestamp_interval tp in
      if now = 0
      then tp\<lparr>quirks_msc_timestamp_state := JUMP_STATE_EXPECT_FIRST,
              quirks_msc_timestamp_interval := 0\<rparr>
      else case quirks_msc_timestamp_state tp of
        JUMP_STATE_EXPECT_FIRST \<Rightarrow>
          if ucast now > ms2us 20
          then tp\<lparr>quirks_msc_timestamp_state := JUMP_STATE_IGNORE\<rparr>
          else tp\<lparr>quirks_msc_timestamp_state := JUMP_STATE_EXPECT_DELAY,
                  quirks_msc_timestamp_interval := now\<rparr>
      | JUMP_STATE_EXPECT_DELAY \<Rightarrow>
          if now > interval * 2
          then (let tdelta = now - interval;
                    tp1 = tp_for_each_touch
                            (\<lambda>t. tp_motion_history_fix_last t tdelta interval time) tp
                in add_trace [Filter_restart (time - ucast tdelta)]
                     (tp1\<lparr>quirks_msc_timestamp_state := JUMP_STATE_IGNORE\<rparr>))
          else tp
      | JUMP_STATE_IGNORE \<Rightarrow> tp)"

section \<open>Fake touches and the hover resolver\<close>

fun fold_option :: "('a \<Rightarrow> 's \<Rightarrow> 's option) \<Rightarrow> 'a list \<Rightarrow> 's \<Rightarrow> 's option" where
  "fold_option f [] s = Some s"
| "fold_option f (a # as) s = (case f a s of None \<Rightarrow> None | Some s' \<Rightarrow> fold_option f as s')"

definition tp_restore_synaptics_touches :: "tp_dispatch \<Rightarrow> 64 word \<Rightarrow> tp_dispatch option" where
  "tp_restore_synaptics_touches tp0 time =
     (let (nfake_touches, tp) = tp_fake_finger_count tp0 in
      if nfake_touches < 3 then Some tp
      else if nfingers_down tp \<ge> nfake_touches \<or>
              (nfingers_down tp = num_slots tp \<and> nfake_touches = num_slots tp)
      then Some tp
      else fold_option
             (\<lambda>i tp. case tp_get_touch tp i of
                        None \<Rightarrow> None
                      | Some t \<Rightarrow> if t_state t \<noteq> TOUCH_MAYBE_END then Some tp
                                  else Some (tp_recover_ended_touch tp i))
             [0..<num_slots tp] tp)"

definition tp_process_fake_touches :: "tp_dispatch \<Rightarrow> 64 word \<Rightarrow> tp_dispatch option" where
  "tp_process_fake_touches tp0 time =
     (let (nfake_touches, tp) = tp_fake_finger_count tp0 in
      if nfake_touches = unat FAKE_FINGER_OVERFLOW then Some tp
      else case (if device_model_synaptics_serial_touchpad tp
                 then tp_restore_synaptics_touches tp time else Some tp) of
        None \<Rightarrow> None
      | Some tp1 \<Rightarrow>
          fold_option
            (\<lambda>i tp. case tp_get_touch tp i of
                       None \<Rightarrow> None
                     | Some t \<Rightarrow> if i < nfake_touches then Some (tp_new_touch tp i time)
                                 else tp_end_sequence tp i time)
            [(if has_mt tp1 then num_slots tp1 else 0)..<ntouches tp1] tp1)"

text \<open>
  \<^verbatim>\<open>tp_unhover_pressure\<close>.  The first loop visits the slots and counts the real fingers
  that are down; the second begins hovering touches until the fake count is reached; the
  third ends touches in reverse order.
\<close>

fun tp_unhover_pressure_slots ::
  "nat \<Rightarrow> 64 word \<Rightarrow> nat list \<Rightarrow> tp_dispatch \<times> nat \<Rightarrow> (tp_dispatch \<times> nat) option" where
  "tp_unhover_pressure_slots nfake_touches time [] acc = Some acc"
| "tp_unhover_pressure_slots nfake_touches time (i # is) (tp, real_fingers_down) =
     (case tp_get_touch tp i of
        None \<Rightarrow> None
      | Some t \<Rightarrow>
          if t_state t = TOUCH_NONE
          then tp_unhover_pressure_slots nfake_touches time is (tp, real_fingers_down)
          else
            (case (if t_dirty t
                   then (if t_state t = TOUCH_HOVERING
                         then (if t_pressure t \<ge> pressure_high tp
                               then tp_begin_touch
                                      (set_touch tp i (tp_motion_history_reset t)) i time
                               else Some tp)
                         else if nfake_touches \<le> num_slots tp \<or> num_slots tp = 1
                         then (if t_pressure t < pressure_low tp
                               then tp_maybe_end_touch tp i time else Some tp)
                         else Some tp)
                   else Some tp) of
               None \<Rightarrow> None
             | Some tp1 \<Rightarrow>
                 tp_unhover_pressure_slots nfake_touches time is
                   (tp1, if t_state (touch tp1 i) = TOUCH_BEGIN \<or>
                            t_state (touch tp1 i) = TOUCH_UPDATE
                         then real_fingers_down + 1 else real_fingers_down)))"

fun tp_unhover_pressure_begin ::
  "nat \<Rightarrow> 64 word \<Rightarrow> nat list \<Rightarrow> tp_dispatch \<Rightarrow> tp_dispatch option" where
  "tp_unhover_pressure_begin nfake_touches time [] tp = Some tp"
| "tp_unhover_pressure_begin nfake_touches time (i # is) tp =
     (if t_state (touch tp i) = TOUCH_HOVERING
      then (case tp_begin_touch
                   (set_touch tp i (tp_motion_history_reset (touch tp i))) i time of
              None \<Rightarrow> None
            | Some tp1 \<Rightarrow>
                if nfingers_down tp1 \<ge> nfake_touches then Some tp1
                else tp_unhover_pressure_begin nfake_touches time is tp1)
      else tp_unhover_pressure_begin nfake_touches time is tp)"

fun tp_unhover_pressure_end ::
  "nat \<Rightarrow> nat \<Rightarrow> 64 word \<Rightarrow> nat list \<Rightarrow> tp_dispatch \<Rightarrow> tp_dispatch option" where
  "tp_unhover_pressure_end nfake_touches real_fingers_down time [] tp = Some tp"
| "tp_unhover_pressure_end nfake_touches real_fingers_down time (i # is) tp =
     (case tp_get_touch tp i of
        None \<Rightarrow> None
      | Some t \<Rightarrow>
          if t_state t = TOUCH_HOVERING \<or> t_state t = TOUCH_NONE \<or>
             t_state t = TOUCH_MAYBE_END
          then tp_unhover_pressure_end nfake_touches real_fingers_down time is tp
          else (case tp_maybe_end_touch tp i time of
                  None \<Rightarrow> None
                | Some tp1 \<Rightarrow>
                    if real_fingers_down > 0 \<and> nfingers_down tp1 = nfake_touches
                    then Some tp1
                    else tp_unhover_pressure_end nfake_touches real_fingers_down time is tp1))"

definition tp_unhover_pressure :: "tp_dispatch \<Rightarrow> 64 word \<Rightarrow> tp_dispatch option" where
  "tp_unhover_pressure tp0 time =
     (let (n, tp) = tp_fake_finger_count tp0;
          nfake_touches = (if n = unat FAKE_FINGER_OVERFLOW then 0 else n)
      in case tp_unhover_pressure_slots nfake_touches time [0..<num_slots tp] (tp, 0) of
           None \<Rightarrow> None
         | Some (tp1, real_fingers_down) \<Rightarrow>
             if nfake_touches \<le> num_slots tp1 \<or> nfingers_down tp1 = 0 then Some tp1
             else
               (case (if real_fingers_down > 0
                      then tp_unhover_pressure_begin nfake_touches time [0..<ntouches tp1] tp1
                      else Some tp1) of
                  None \<Rightarrow> None
                | Some tp2 \<Rightarrow>
                    if nfingers_down tp2 > nfake_touches \<or> real_fingers_down = 0
                    then tp_unhover_pressure_end nfake_touches real_fingers_down time
                           (rev [0..<ntouches tp2]) tp2
                    else Some tp2))"

definition tp_unhover_size :: "tp_dispatch \<Rightarrow> 64 word \<Rightarrow> tp_dispatch option" where
  "tp_unhover_size tp0 time =
     fold_option
       (\<lambda>i tp.
          case tp_get_touch tp i of
            None \<Rightarrow> None
          | Some t \<Rightarrow>
              if t_state t = TOUCH_NONE then Some tp
              else if \<not> t_dirty t then Some tp
              else if t_state t = TOUCH_HOVERING
              then (if (t_major t > touch_size_high tp \<and> t_minor t > touch_size_low tp) \<or>
                       (t_major t > touch_size_low tp \<and> t_minor t > touch_size_high tp)
                    then tp_begin_touch (set_touch tp i (tp_motion_history_reset t)) i time
                    else Some tp)
              else (if t_major t < touch_size_low tp \<or> t_minor t < touch_size_low tp
                    then tp_maybe_end_touch tp i time
                    else Some tp))
       [0..<num_slots tp0] tp0"

fun tp_unhover_fake_touches_begin ::
  "nat \<Rightarrow> 64 word \<Rightarrow> nat list \<Rightarrow> tp_dispatch \<Rightarrow> tp_dispatch option" where
  "tp_unhover_fake_touches_begin nfake_touches time [] tp = Some tp"
| "tp_unhover_fake_touches_begin nfake_touches time (i # is) tp =
     (if t_state (touch tp i) = TOUCH_HOVERING
      then (case tp_begin_touch tp i time of
              None \<Rightarrow> None
            | Some tp1 \<Rightarrow>
                if nfingers_down tp1 \<ge> nfake_touches then Some tp1
                else tp_unhover_fake_touches_begin nfake_touches time is tp1)
      else tp_unhover_fake_touches_begin nfake_touches time is tp)"

fun tp_unhover_fake_touches_end ::
  "nat \<Rightarrow> 64 word \<Rightarrow> nat list \<Rightarrow> tp_dispatch \<Rightarrow> tp_dispatch option" where
  "tp_unhover_fake_touches_end nfake_touches time [] tp = Some tp"
| "tp_unhover_fake_touches_end nfake_touches time (i # is) tp =
     (case tp_get_touch tp i of
        None \<Rightarrow> None
      | Some t \<Rightarrow>
          if t_state t = TOUCH_HOVERING \<or> t_state t = TOUCH_NONE
          then tp_unhover_fake_touches_end nfake_touches time is tp
          else (case tp_maybe_end_touch tp i time of
                  None \<Rightarrow> None
                | Some tp1 \<Rightarrow>
                    if tp_fake_finger_is_touching tp1 \<and> nfingers_down tp1 = nfake_touches
                    then Some tp1
                    else tp_unhover_fake_touches_end nfake_touches time is tp1))"

definition tp_unhover_fake_touches :: "tp_dispatch \<Rightarrow> 64 word \<Rightarrow> tp_dispatch option" where
  "tp_unhover_fake_touches tp0 time =
     (if fake_touches tp0 = 0 \<and> nfingers_down tp0 = 0 then Some tp0
      else
        (let (nfake_touches, tp) = tp_fake_finger_count tp0 in
         if nfake_touches = unat FAKE_FINGER_OVERFLOW then Some tp
         else if nfingers_down tp = nfake_touches \<and>
                 ((nfingers_down tp = 0 \<and> \<not> tp_fake_finger_is_touching tp) \<or>
                  (nfingers_down tp > 0 \<and> tp_fake_finger_is_touching tp))
         then Some tp
         else
           (case (if tp_fake_finger_is_touching tp \<and> nfingers_down tp < nfake_touches
                  then tp_unhover_fake_touches_begin nfake_touches time [0..<ntouches tp] tp
                  else Some tp) of
              None \<Rightarrow> None
            | Some tp1 \<Rightarrow>
                if nfingers_down tp1 > nfake_touches \<or> \<not> tp_fake_finger_is_touching tp1
                then tp_unhover_fake_touches_end nfake_touches time (rev [0..<ntouches tp1]) tp1
                else Some tp1)))"

definition tp_unhover_touches :: "tp_dispatch \<Rightarrow> 64 word \<Rightarrow> tp_dispatch option" where
  "tp_unhover_touches tp time =
     (if pressure_use_pressure tp then tp_unhover_pressure tp time
      else if touch_size_use_touch_size tp then tp_unhover_size tp time
      else tp_unhover_fake_touches tp time)"

section \<open>Frame pipeline\<close>

fun tp_position_fake_touches_topmost ::
  "tp_dispatch \<Rightarrow> nat list \<Rightarrow> nat option \<Rightarrow> nat option option" where
  "tp_position_fake_touches_topmost tp [] topmost = Some topmost"
| "tp_position_fake_touches_topmost tp (i # is) topmost =
     (case tp_get_touch tp i of
        None \<Rightarrow> None
      | Some t \<Rightarrow>
          if t_state t = TOUCH_END \<or> t_state t = TOUCH_NONE
          then tp_position_fake_touches_topmost tp is topmost
          else tp_position_fake_touches_topmost tp is
                 (case topmost of
                    None \<Rightarrow> Some i
                  | Some m \<Rightarrow> if dc_y (t_point t) < dc_y (t_point (touch tp m))
                              then Some i else Some m))"

definition tp_position_fake_touches :: "tp_dispatch \<Rightarrow> tp_dispatch option" where
  "tp_position_fake_touches tp0 =
     (let (nfake_touches, tp) = tp_fake_finger_count tp0 in
      if nfake_touches \<le> num_slots tp \<or> nfingers_down tp = 0 then Some tp
      else case tp_position_fake_touches_topmost tp [0..<num_slots tp] None of
        None \<Rightarrow> None
      | Some None \<Rightarrow> Some (add_trace [Log_bug_libinput_no_topmost_touch] tp)
      | Some (Some topmost) \<Rightarrow>
          fold_option
            (\<lambda>i tp. case tp_get_touch tp i of
                       None \<Rightarrow> None
                     | Some t \<Rightarrow>
                         if t_state t = TOUCH_NONE then Some tp
                         else Some (set_touch tp i
                                (t\<lparr>t_point := t_point (touch tp topmost),
                                   t_pressure := t_pressure (touch tp topmost),
                                   t_dirty := (if \<not> t_dirty t then t_dirty (touch tp topmost)
                                               else t_dirty t)\<rparr>)))
            [(if has_mt tp then num_slots tp else 1)..<ntouches tp] tp)"

definition tp_need_motion_history_reset :: "tp_dispatch \<Rightarrow> bool \<times> tp_dispatch" where
  "tp_need_motion_history_reset tp =
     (if nfingers_down tp \<noteq> old_nfingers_down tp then (True, tp)
      else if device_model_lenovo_t450_touchpad tp
      then
        (let (rc, tp1) =
               (if queued tp AND TOUCHPAD_EVENT_MOTION \<noteq> 0
                then (let (rc, tpa) =
                            (if quirks_nonmotion_event_count tp > 10
                             then (True, tp\<lparr>queued := queued tp AND NOT TOUCHPAD_EVENT_MOTION\<rparr>)
                             else (False, tp))
                      in (rc, tpa\<lparr>quirks_nonmotion_event_count := 0\<rparr>))
                else (False, tp));
             tp2 = (if queued tp1 AND (TOUCHPAD_EVENT_OTHERAXIS OR TOUCHPAD_EVENT_MOTION)
                         = TOUCHPAD_EVENT_OTHERAXIS
                    then tp1\<lparr>quirks_nonmotion_event_count :=
                               (quirks_nonmotion_event_count tp1 + 1) mod 2 ^ 32\<rparr>
                    else tp1)
         in (rc, tp2))
      else (False, tp))"

definition tp_detect_wobbling :: "tp_dispatch \<Rightarrow> nat \<Rightarrow> 64 word \<Rightarrow> tp_dispatch" where
  "tp_detect_wobbling tp i time =
     (let t = touch tp i in
      if nfingers_down tp \<noteq> 1 \<or> nfingers_down tp \<noteq> old_nfingers_down tp then tp
      else if hysteresis_enabled tp \<or> t_history_count t = 0 then tp
      else if queued tp AND TOUCHPAD_EVENT_MOTION = 0
      then set_touch tp i (t\<lparr>t_hysteresis_x_motion_history := 0\<rparr>)
      else
        (let prev_point = hp_point (history_sample t 0);
             dx = dc_x prev_point - dc_x (t_point t);
             dy = dc_y prev_point - dc_y (t_point t);
             dtime = time - hysteresis_last_motion_time tp;
             tp1 = tp\<lparr>hysteresis_last_motion_time := time\<rparr>
         in if (dx = 0 \<and> dy \<noteq> 0) \<or> dtime > ms2us 40
            then set_touch tp1 i (t\<lparr>t_hysteresis_x_motion_history := 0\<rparr>)
            else if dx > 0
            then (let h = drop_bit 1 (t_hysteresis_x_motion_history t) OR push_bit 2 1
                  in set_touch (if h = 5 then tp1\<lparr>hysteresis_enabled := True\<rparr> else tp1) i
                       (t\<lparr>t_hysteresis_x_motion_history := h\<rparr>))
            else set_touch tp1 i
                   (t\<lparr>t_hysteresis_x_motion_history :=
                        drop_bit 1 (t_hysteresis_x_motion_history t)\<rparr>)))"

definition tp_motion_hysteresis :: "collaborators \<Rightarrow> tp_dispatch \<Rightarrow> tp_touch \<Rightarrow> tp_touch" where
  "tp_motion_hysteresis ext tp t =
     (if \<not> hysteresis_enabled tp then t
      else (let t1 = (if t_history_count t > 0
                      then t\<lparr>t_point := evdev_hysteresis ext (t_point t)
                                            (t_hysteresis_center t) (hysteresis_margin tp)\<rparr>
                      else t)
            in t1\<lparr>t_hysteresis_center := t_point t1\<rparr>))"

definition tp_calculate_motion_speed :: "tp_dispatch \<Rightarrow> tp_touch \<Rightarrow> tp_touch" where
  "tp_calculate_motion_speed tp t =
     (if \<not> has_mt tp \<or> semi_mt tp then t
      else if t_state t \<noteq> TOUCH_UPDATE then t
      else if t_history_count t < 4 then t
      else
        (let last = history_sample t 1;
             delta = \<lparr>dc_x = \<bar>dc_x (t_point t) - dc_x (hp_point last)\<bar>,
                      dc_y = \<bar>dc_y (t_point t) - dc_y (hp_point last)\<bar>\<rparr>;
             distance = length_in_mm (evdev_device_unit_delta_to_mm tp delta);
             speed = distance / real (unat (t_time t - hp_time last)) * 1000000
         in t\<lparr>t_speed_last_speed := speed\<rparr>))"

definition tp_unpin_finger :: "tp_dispatch \<Rightarrow> tp_touch \<Rightarrow> tp_touch" where
  "tp_unpin_finger tp t =
     (if \<not> t_pinned_is_pinned t then t
      else
        (let delta = \<lparr>dc_x = \<bar>dc_x (t_point t) - dc_x (t_pinned_center t)\<bar>,
                      dc_y = \<bar>dc_y (t_point t) - dc_y (t_pinned_center t)\<bar>\<rparr>;
             mm = evdev_device_unit_delta_to_mm tp delta
         in if hypot (fst mm) (snd mm) \<ge> 15 / 10 then t\<lparr>t_pinned_is_pinned := False\<rparr>
            else t))"

definition tp_pin_fingers :: "tp_dispatch \<Rightarrow> tp_dispatch" where
  "tp_pin_fingers tp =
     tp_for_each_touch (\<lambda>t. t\<lparr>t_pinned_is_pinned := True, t_pinned_center := t_point t\<rparr>) tp"

text \<open>
  The body of the loop of \<^verbatim>\<open>tp_process_state\<close> for touch \<open>i\<close>; the accumulator holds
  the dispatcher and the locals \<^verbatim>\<open>restart_filter\<close>, \<^verbatim>\<open>have_new_touch\<close> and
  \<^verbatim>\<open>speed_exceeded_count\<close>.
\<close>

definition tp_process_state_touch ::
  "collaborators \<Rightarrow> bool \<Rightarrow> 64 word \<Rightarrow> nat \<Rightarrow> tp_dispatch \<times> bool \<times> bool \<times> nat \<Rightarrow>
     (tp_dispatch \<times> bool \<times> bool \<times> nat) option" where
  "tp_process_state_touch ext want_motion_reset time i acc =
     (case acc of (tp, restart_filter, have_new_touch, speed_exceeded_count) \<Rightarrow>
      let t = touch tp i in
      if t_state t = TOUCH_NONE then Some acc
      else
        (let t1 = (if want_motion_reset
                   then (tp_motion_history_reset t)\<lparr>t_quirks_reset_motion_history := True\<rparr>
                   else if t_quirks_reset_motion_history t
                   then (tp_motion_history_reset t)\<lparr>t_quirks_reset_motion_history := False\<rparr>
                   else t)
         in if \<not> t_dirty t1
            then (let t2 = (if t_speed_exceeded_count t1 > 0
                            then t1\<lparr>t_speed_exceeded_count := t_speed_exceeded_count t1 - 1\<rparr>
                            else t1)
                  in Some (set_touch tp i t2, restart_filter, have_new_touch,
                           max speed_exceeded_count (t_speed_exceeded_count t2)))
            else
              (let (is_jump, t2) = tp_detect_jumps tp t1 time;
                   tp1 = (if is_jump \<and> \<not> semi_mt tp
                          then add_trace [Log_bug_kernel_touch_jump] tp else tp);
                   t3 = (if is_jump then tp_motion_history_reset t2 else t2);
                   tp2 = tp_thumb_detect (set_touch tp1 i t3) i time
               in case tp_palm_detect ext tp2 i time of
                    None \<Rightarrow> None
                  | Some tp3 \<Rightarrow>
                      (let tp4 = tp_detect_wobbling tp3 i time;
                           t5 = tp_motion_history_push
                                  (tp_motion_hysteresis ext tp4 (touch tp4 i));
                           t6 = (if t_speed_last_speed t5 > THUMB_IGNORE_SPEED_THRESHOLD
                                 then (if t_speed_exceeded_count t5 < 10
                                       then t5\<lparr>t_speed_exceeded_count :=
                                                  t_speed_exceeded_count t5 + 1\<rparr>
                                       else t5)
                                 else if t_speed_exceeded_count t5 > 0
                                 then t5\<lparr>t_speed_exceeded_count :=
                                            t_speed_exceeded_count t5 - 1\<rparr>
                                 else t5);
                           t7 = tp_unpin_finger tp4 (tp_calculate_motion_speed tp4 t6)
                       in Some (set_touch tp4 i t7,
                                restart_filter \<or> t_state t7 = TOUCH_BEGIN,
                                have_new_touch \<or> t_state t7 = TOUCH_BEGIN,
                                max speed_exceeded_count (t_speed_exceeded_count t6))))))"

definition tp_process_state :: "collaborators \<Rightarrow> tp_dispatch \<Rightarrow> 64 word \<Rightarrow> tp_dispatch option" where
  "tp_process_state ext tp time =
     (case tp_position_fake_touches tp of
        None \<Rightarrow> None
      | Some tp0 \<Rightarrow>
          (let (want_motion_reset, tp1) = tp_need_motion_history_reset tp0 in
           case fold_option (tp_process_state_touch ext want_motion_reset time)
                  [0..<ntouches tp1] (tp1, False, False, 0) of
             None \<Rightarrow> None
           | Some (tp2, restart_filter, have_new_touch, speed_exceeded_count) \<Rightarrow>
               (case (if have_new_touch \<and> nfingers_down tp2 = 2 \<and> speed_exceeded_count > 5
                      then tp_detect_thumb_while_moving tp2 else Some tp2) of
                  None \<Rightarrow> None
                | Some tp3 \<Rightarrow>
                    (let tp4 = (if restart_filter then add_trace [Filter_restart time] tp3
                                else tp3);
                         tp5 = add_trace [Button_handle_state time,
                                          Edge_scroll_handle_state time] tp4;
                         tp6 = (if queued tp5 AND TOUCHPAD_EVENT_BUTTON_PRESS \<noteq> 0 \<and>
                                   buttons_is_clickpad tp5
                                then tp_pin_fingers tp5 else tp5)
                     in Some (add_trace [Gesture_handle_state time] tp6)))))"

definition tp_pre_process_state :: "tp_dispatch \<Rightarrow> 64 word \<Rightarrow> tp_dispatch option" where
  "tp_pre_process_state tp time =
     (case tp_process_fake_touches
             (if queued tp AND TOUCHPAD_EVENT_TIMESTAMP \<noteq> 0
              then tp_process_msc_timestamp tp time else tp) time of
        None \<Rightarrow> None
      | Some tp2 \<Rightarrow>
          (case tp_unhover_touches tp2 time of
             None \<Rightarrow> None
           | Some tp3 \<Rightarrow>
               Some (fold (\<lambda>i tp.
                       let tpa = (if t_state (touch tp i) = TOUCH_MAYBE_END
                                  then tp_end_touch tp i time else tp);
                           t = touch tpa i
                       in if t_state t = TOUCH_END \<and> t_history_count t > 0
                          then set_touch tpa i (t\<lparr>t_point := hp_point (history_sample t 0)\<rparr>)
                          else tpa)
                     [0..<ntouches tp3] tp3)))"

definition tp_post_process_state :: "tp_dispatch \<Rightarrow> 64 word \<Rightarrow> tp_dispatch" where
  "tp_post_process_state tp time =
     add_trace [Tap_post_process_state]
       ((tp_for_each_touch
           (\<lambda>t. if \<not> t_dirty t then t
                else (if t_state t = TOUCH_END
                      then (if t_has_ended t then t\<lparr>t_state := TOUCH_NONE\<rparr>
                            else t\<lparr>t_state := TOUCH_HOVERING\<rparr>)
                      else if t_state t = TOUCH_BEGIN then t\<lparr>t_state := TOUCH_UPDATE\<rparr>
                      else t)\<lparr>t_dirty := False\<rparr>) tp)
          \<lparr>old_nfingers_down := nfingers_down tp, queued := TOUCHPAD_EVENT_NONE\<rparr>)"

definition tp_post_events :: "collaborators \<Rightarrow> tp_dispatch \<Rightarrow> 64 word \<Rightarrow> tp_dispatch" where
  "tp_post_events ext tp time =
     (if device_is_suspended tp then add_trace [Post_button_events time] tp
      else
        (let tp1 = add_trace [Tap_handle_state time, Post_button_events time] tp in
         if tp_tap_handle_state ext tp time \<or> tp_post_button_events ext tp time \<or>
            palm_trackpoint_active tp \<or> dwt_keyboard_active tp
         then add_trace [Edge_scroll_stop_events time, Gesture_cancel time] tp1
         else if tp_edge_scroll_post_events ext tp time
         then add_trace [Edge_scroll_post_events time] tp1
         else add_trace [Edge_scroll_post_events time, Gesture_post_events time] tp1))"

definition tp_handle_state :: "collaborators \<Rightarrow> tp_dispatch \<Rightarrow> 64 word \<Rightarrow> tp_dispatch option" where
  "tp_handle_state ext tp time =
     (case tp_pre_process_state tp time of
        None \<Rightarrow> None
      | Some tp1 \<Rightarrow>
          (case tp_process_state ext tp1 time of
             None \<Rightarrow> None
           | Some tp2 \<Rightarrow>
               Some (add_trace [Clickpad_middlebutton_apply_config]
                       (tp_post_process_state (tp_post_events ext tp2 time) time))))"

section \<open>Frame decoder\<close>

record input_event =
  ev_type :: nat
  ev_code :: nat
  ev_value :: int

definition EV_SYN :: nat where "EV_SYN = 0"
definition EV_KEY :: nat where "EV_KEY = 1"
definition EV_ABS :: nat where "EV_ABS = 3"
definition EV_MSC :: nat where "EV_MSC = 4"
definition SYN_REPORT :: nat where "SYN_REPORT = 0"
definition MSC_TIMESTAMP :: nat where "MSC_TIMESTAMP = 5"
definition ABS_X :: nat where "ABS_X = 0"
definition ABS_Y :: nat where "ABS_Y = 1"
definition ABS_PRESSURE :: nat where "ABS_PRESSURE = 0x18"
definition ABS_MT_SLOT :: nat where "ABS_MT_SLOT = 0x2f"
definition ABS_MT_TOUCH_MAJOR :: nat where "ABS_MT_TOUCH_MAJOR = 0x30"
definition ABS_MT_TOUCH_MINOR :: nat where "ABS_MT_TOUCH_MINOR = 0x31"
definition ABS_MT_POSITION_X :: nat where "ABS_MT_POSITION_X = 0x35"
definition ABS_MT_POSITION_Y :: nat where "ABS_MT_POSITION_Y = 0x36"
definition ABS_MT_TOOL_TYPE :: nat where "ABS_MT_TOOL_TYPE = 0x37"
definition ABS_MT_TRACKING_ID :: nat where "ABS_MT_TRACKING_ID = 0x39"
definition ABS_MT_PRESSURE :: nat where "ABS_MT_PRESSURE = 0x3a"
definition MT_TOOL_PALM :: int where "MT_TOOL_PALM = 2"
definition BTN_0 :: nat where "BTN_0 = 0x100"
definition BTN_1 :: nat where "BTN_1 = 0x101"
definition BTN_2 :: nat where "BTN_2 = 0x102"
definition BTN_LEFT :: nat where "BTN_LEFT = 0x110"
definition BTN_RIGHT :: nat where "BTN_RIGHT = 0x111"
definition BTN_MIDDLE :: nat where "BTN_MIDDLE = 0x112"

definition tp_current_touch :: "tp_dispatch \<Rightarrow> nat" where
  "tp_current_touch tp = min (slot tp) (ntouches tp - 1)"

definition rotated :: "tp_dispatch \<Rightarrow> nat \<Rightarrow> int \<Rightarrow> int option" where
  "rotated tp code v =
     (if \<not> device_left_handed_enabled tp \<or> \<not> left_handed_rotate tp then Some v
      else if code = ABS_X \<or> code = ABS_MT_POSITION_X
      then Some (device_abs_x_maximum tp - (v - device_abs_x_minimum tp))
      else if code = ABS_Y \<or> code = ABS_MT_POSITION_Y
      then Some (device_abs_y_maximum tp - (v - device_abs_y_minimum tp))
      else None)"

definition tp_process_absolute ::
  "tp_dispatch \<Rightarrow> input_event \<Rightarrow> 64 word \<Rightarrow> tp_dispatch option" where
  "tp_process_absolute tp e time =
     (let i = tp_current_touch tp; t = touch tp i; c = ev_code e in
      if c = ABS_MT_POSITION_X
      then (case rotated tp c (ev_value e) of
              None \<Rightarrow> None
            | Some v \<Rightarrow>
                Some (set_touch (tp\<lparr>queued := queued tp OR TOUCHPAD_EVENT_MOTION\<rparr>) i
                        (t\<lparr>t_point := (t_point t)\<lparr>dc_x := v\<rparr>, t_time := time,
                           t_dirty := True\<rparr>)))
      else if c = ABS_MT_POSITION_Y
      then (case rotated tp c (ev_value e) of
              None \<Rightarrow> None
            | Some v \<Rightarrow>
                Some (set_touch (tp\<lparr>queued := queued tp OR TOUCHPAD_EVENT_MOTION\<rparr>) i
                        (t\<lparr>t_point := (t_point t)\<lparr>dc_y := v\<rparr>, t_time := time,
                           t_dirty := True\<rparr>)))
      else if c = ABS_MT_SLOT
      then Some (tp\<lparr>slot := nat (ev_value e mod 2 ^ 32)\<rparr>)
      else if c = ABS_MT_TRACKING_ID
      then (if ev_value e \<noteq> - 1 then Some (tp_new_touch tp i time)
            else tp_end_sequence tp i time)
      else if c = ABS_MT_PRESSURE
      then Some (set_touch (tp\<lparr>queued := queued tp OR TOUCHPAD_EVENT_OTHERAXIS\<rparr>) i
                   (t\<lparr>t_pressure := ev_value e, t_time := time, t_dirty := True\<rparr>))
      else if c = ABS_MT_TOOL_TYPE
      then Some (set_touch (tp\<lparr>queued := queued tp OR TOUCHPAD_EVENT_OTHERAXIS\<rparr>) i
                   (t\<lparr>t_is_tool_palm := (ev_value e = MT_TOOL_PALM), t_time := time,
                      t_dirty := True\<rparr>))
      else if c = ABS_MT_TOUCH_MAJOR
      then Some (set_touch (tp\<lparr>queued := queued tp OR TOUCHPAD_EVENT_OTHERAXIS\<rparr>) i
                   (t\<lparr>t_major := ev_value e, t_dirty := True\<rparr>))
      else if c = ABS_MT_TOUCH_MINOR
      then Some (set_touch (tp\<lparr>queued := queued tp OR TOUCHPAD_EVENT_OTHERAXIS\<rparr>) i
                   (t\<lparr>t_minor := ev_value e, t_dirty := True\<rparr>))
      else Some tp)"

definition tp_process_absolute_st ::
  "tp_dispatch \<Rightarrow> input_event \<Rightarrow> 64 word \<Rightarrow> tp_dispatch option" where
  "tp_process_absolute_st tp e time =
     (let i = tp_current_touch tp; t = touch tp i; c = ev_code e in
      if c = ABS_X
      then (case rotated tp c (ev_value e) of
              None \<Rightarrow> None
            | Some v \<Rightarrow>
                Some (set_touch (tp\<lparr>queued := queued tp OR TOUCHPAD_EVENT_MOTION\<rparr>) i
                        (t\<lparr>t_point := (t_point t)\<lparr>dc_x := v\<rparr>, t_time := time,
                           t_dirty := True\<rparr>)))
      else if c = ABS_Y
      then (case rotated tp c (ev_value e) of
              None \<Rightarrow> None
            | Some v \<Rightarrow>
                Some (set_touch (tp\<lparr>queued := queued tp OR TOUCHPAD_EVENT_MOTION\<rparr>) i
                        (t\<lparr>t_point := (t_point t)\<lparr>dc_y := v\<rparr>, t_time := time,
                           t_dirty := True\<rparr>)))
      else if c = ABS_PRESSURE
      then Some (set_touch (tp\<lparr>queued := queued tp OR TOUCHPAD_EVENT_OTHERAXIS\<rparr>) i
                   (t\<lparr>t_pressure := ev_value e, t_time := time, t_dirty := True\<rparr>))
      else Some tp)"

definition tp_process_key ::
  "collaborators \<Rightarrow> tp_dispatch \<Rightarrow> input_event \<Rightarrow> 64 word \<Rightarrow> tp_dispatch" where
  "tp_process_key ext tp e time =
     (let c = ev_code e in
      if c = BTN_LEFT \<or> c = BTN_MIDDLE \<or> c = BTN_RIGHT
      then add_trace [Process_button c (ev_value e) time]
             (tp\<lparr>queued := tp_process_button_queued ext tp c (ev_value e)\<rparr>)
      else if c = BTN_TOUCH \<or> c = BTN_TOOL_FINGER \<or> c = BTN_TOOL_DOUBLETAP \<or>
              c = BTN_TOOL_TRIPLETAP \<or> c = BTN_TOOL_QUADTAP \<or> c = BTN_TOOL_QUINTTAP
      then tp_fake_finger_set tp c (ev_value e \<noteq> 0)
      else if c = BTN_0 \<or> c = BTN_1 \<or> c = BTN_2
      then add_trace [Trackpoint_process c (ev_value e) time] tp
      else tp)"

definition tp_process_msc :: "tp_dispatch \<Rightarrow> input_event \<Rightarrow> 64 word \<Rightarrow> tp_dispatch" where
  "tp_process_msc tp e time =
     (if ev_code e \<noteq> MSC_TIMESTAMP then tp
      else tp\<lparr>quirks_msc_timestamp_now := word_of_int (ev_value e),
              queued := queued tp OR TOUCHPAD_EVENT_TIMESTAMP\<rparr>)"

definition tp_interface_process ::
  "collaborators \<Rightarrow> tp_dispatch \<Rightarrow> input_event \<Rightarrow> 64 word \<Rightarrow> tp_dispatch option" where
  "tp_interface_process ext tp e time =
     (if ev_type e = EV_ABS
      then (if has_mt tp then tp_process_absolute tp e time
            else tp_process_absolute_st tp e time)
      else if ev_type e = EV_KEY then Some (tp_process_key ext tp e time)
      else if ev_type e = EV_MSC then Some (tp_process_msc tp e time)
      else if ev_type e = EV_SYN then tp_handle_state ext tp time
      else Some tp)"

definition tp_release_fake_touches :: "tp_dispatch \<Rightarrow> tp_dispatch" where
  "tp_release_fake_touches tp = tp\<lparr>fake_touches := 0\<rparr>"

definition tp_clear_state :: "collaborators \<Rightarrow> tp_dispatch \<Rightarrow> 64 word \<Rightarrow> tp_dispatch option" where
  "tp_clear_state ext tp now =
     (case fold_option (\<lambda>i tp. tp_end_sequence tp i now) [0..<ntouches tp]
             (add_trace [Release_all_buttons now, Release_all_taps now] tp) of
        None \<Rightarrow> None
      | Some tp1 \<Rightarrow> tp_handle_state ext (tp_release_fake_touches tp1) now)"

text \<open>
  What reaches the dispatcher from outside and can move a touch: an input event of the
  device, or a request to clear the state (on suspend, resume and arbitration).
\<close>

datatype input = Process input_event "64 word" | Clear_state "64 word"

fun tp_step :: "collaborators \<Rightarrow> tp_dispatch \<Rightarrow> input \<Rightarrow> tp_dispatch option" where
  "tp_step ext tp (Process e time) = tp_interface_process ext tp e time"
| "tp_step ext tp (Clear_state now) = tp_clear_state ext tp now"

fun tp_run :: "collaborators \<Rightarrow> tp_dispatch \<Rightarrow> input list \<Rightarrow> tp_dispatch option" where
  "tp_run ext tp [] = Some tp"
| "tp_run ext tp (a # as) =
     (case tp_step ext tp a of None \<Rightarrow> None | Some tp' \<Rightarrow> tp_run ext tp' as)"

section \<open>The invariant of the finger counter\<close>

text \<open>
  A touch is down when its state is \<^verbatim>\<open>TOUCH_BEGIN\<close> or \<^verbatim>\<open>TOUCH_UPDATE\<close>.  The
  dispatcher is well formed when \<^verbatim>\<open>ntouches\<close> is the number of allocated touches, as
  \<^verbatim>\<open>tp_init_slots\<close> leaves it: at least one touch, at least as many as slots, and a
  count that fits an \<^verbatim>\<open>unsigned int\<close>.
\<close>

definition is_down :: "tp_touch \<Rightarrow> bool" where
  "is_down t \<longleftrightarrow> t_state t = TOUCH_BEGIN \<or> t_state t = TOUCH_UPDATE"

definition fingers_down :: "tp_touch list \<Rightarrow> nat" where
  "fingers_down ts = length (filter is_down ts)"

definition tp_wf :: "tp_dispatch \<Rightarrow> bool" where
  "tp_wf tp \<longleftrightarrow>
     ntouches tp = length (touches tp) \<and> 0 < ntouches tp \<and> num_slots tp \<le> ntouches tp \<and>
     ntouches tp < 2 ^ 32"

definition nfingers_inv :: "tp_dispatch \<Rightarrow> bool" where
  "nfingers_inv tp \<longleftrightarrow>
     nfingers_down tp = fingers_down (touches tp) \<and>
     list_all (\<lambda>t. t_state t = TOUCH_BEGIN \<longrightarrow> t_dirty t) (touches tp)"

definition tp_inv :: "tp_dispatch \<Rightarrow> bool" where
  "tp_inv tp \<longleftrightarrow> tp_wf tp \<and> nfingers_inv tp"

definition ends_frame :: "input \<Rightarrow> bool" where
  "ends_frame a \<longleftrightarrow>
     (case a of Process e time \<Rightarrow> ev_type e = EV_SYN | Clear_state now \<Rightarrow> True)"

text \<open>
  Most of the frame pipeline classifies touches and does not move them: it keeps the
  state of every touch, clears no dirty flag and leaves the counter alone.
\<close>

definition touch_kept :: "tp_touch \<Rightarrow> tp_touch \<Rightarrow> bool" where
  "touch_kept t t' \<longleftrightarrow> t_state t' = t_state t \<and> (t_dirty t \<longrightarrow> t_dirty t')"

definition same_shape :: "tp_dispatch \<Rightarrow> tp_dispatch \<Rightarrow> bool" where
  "same_shape tp tp' \<longleftrightarrow>
     length (touches tp') = length (touches tp) \<and>
     (\<forall>i<length (touches tp). touch_kept (touches tp ! i) (touches tp' ! i)) \<and>
     ntouches tp' = ntouches tp \<and> num_slots tp' = num_slots tp \<and>
     nfingers_down tp' = nfingers_down tp"

text \<open>
  A frame on a single-touch touchpad: a finger lands at (1000, 1000) with
  \<^verbatim>\<open>BTN_TOOL_FINGER\<close> and \<^verbatim>\<open>BTN_TOUCH\<close>, and the frame is reported.
\<close>

definition finger_down_frame :: "input list" where
  "finger_down_frame =
     [Process \<lparr>ev_type = EV_ABS, ev_code = ABS_X, ev_value = 1000\<rparr> 10,
      Process \<lparr>ev_type = EV_ABS, ev_code = ABS_Y, ev_value = 1000\<rparr> 10,
      Process \<lparr>ev_type = EV_KEY, ev_code = BTN_TOOL_FINGER, ev_value = 1\<rparr> 10,
      Process \<lparr>ev_type = EV_KEY, ev_code = BTN_TOUCH, ev_value = 1\<rparr> 10,
      Process \<lparr>ev_type = EV_SYN, ev_code = SYN_REPORT, ev_value = 0\<rparr> 10]"

text \<open>
  The history ring of a touch is well formed when it has its capacity, the index points
  into it and the count does not exceed it; \<^verbatim>\<open>tp_motion_history_push\<close> keeps that.  In
  state \<^verbatim>\<open>JUMP_STATE_EXPECT_DELAY\<close> the latched interval is the value of
  \<^verbatim>\<open>MSC_TIMESTAMP\<close> that \<^verbatim>\<open>JUMP_STATE_EXPECT_FIRST\<close> accepted: at most 20 ms.
\<close>

definition tp_history_wf :: "tp_touch \<Rightarrow> bool" where
  "tp_history_wf t \<longleftrightarrow>
     length (t_history_samples t) = TOUCHPAD_HISTORY_LENGTH \<and>
     t_history_index t < TOUCHPAD_HISTORY_LENGTH \<and>
     t_history_count t \<le> TOUCHPAD_HISTORY_LENGTH"

definition msc_timestamp_inv :: "tp_dispatch \<Rightarrow> bool" where
  "msc_timestamp_inv tp \<longleftrightarrow>
     (quirks_msc_timestamp_state tp = JUMP_STATE_EXPECT_DELAY \<longrightarrow>
        0 < unat (quirks_msc_timestamp_interval tp) \<and>
        unat (quirks_msc_timestamp_interval tp) \<le> 20000)"

text \<open>
  The third frame of a controller that slept: the hardware interval 7300 was latched,
  \<^verbatim>\<open>MSC_TIMESTAMP\<close> now reads 123456; touch 0 is in \<^verbatim>\<open>TOUCH_UPDATE\<close> with two
  history entries, touch 1 is unused.
\<close>

definition msc_example :: tp_dispatch where
  "msc_example =
     set_touch
       ((tp_zalloc 2 2)\<lparr>quirks_msc_timestamp_state := JUMP_STATE_EXPECT_DELAY,
                        quirks_msc_timestamp_interval := 7300,
                        quirks_msc_timestamp_now := 123456\<rparr>) 0
       ((tp_init_touch 0)\<lparr>t_state := TOUCH_UPDATE,
          t_history_samples :=
            [\<lparr>hp_point = \<lparr>dc_x = 10, dc_y = 10\<rparr>, hp_time = 11000\<rparr>,
             \<lparr>hp_point = \<lparr>dc_x = 12, dc_y = 11\<rparr>, hp_time = 13000\<rparr>,
             \<lparr>hp_point = device_coords_zero, hp_time = 0\<rparr>,
             \<lparr>hp_point = device_coords_zero, hp_time = 0\<rparr>],
          t_history_index := 1, t_history_count := 2\<rparr>)"

text \<open>
  A two-slot touchpad with thumb detection at the entry of \<^verbatim>\<open>tp_process_state\<close>: touch 0
  has been moving fast (its speed counter is at 8), touch 1 has just begun, far to the
  right of it and above the upper thumb line; ten units are one millimetre.
\<close>

definition thumb_example :: tp_dispatch where
  "thumb_example =
     set_touch
       (set_touch
          ((tp_zalloc 2 2)\<lparr>device_abs_x_resolution := 10, device_abs_y_resolution := 10,
                           nfingers_down := 2, old_nfingers_down := 1,
                           thumb_detect_thumbs := True, thumb_upper_thumb_line := 1000,
                           thumb_lower_thumb_line := 1200\<rparr>) 0
          ((tp_init_touch 0)\<lparr>t_state := TOUCH_UPDATE, t_has_ended := False,
             t_point := \<lparr>dc_x = 500, dc_y = 500\<rparr>, t_was_down := True,
             t_speed_exceeded_count := 8\<rparr>)) 1
       ((tp_init_touch 1)\<lparr>t_state := TOUCH_BEGIN, t_has_ended := False, t_dirty := True,
          t_point := \<lparr>dc_x = 3000, dc_y = 500\<rparr>, t_time := 500000, t_was_down := True,
          t_palm_time := 500000, t_thumb_state := THUMB_STATE_MAYBE,
          t_thumb_first_touch_time := 500000\<rparr>)"

text \<open>
  A single-touch touchpad without pressure or size axes: the touch has been hovering for
  two frames, which are in its history, and \<^verbatim>\<open>BTN_TOUCH\<close> has just been set next to
  \<^verbatim>\<open>BTN_TOOL_FINGER\<close>.
\<close>

definition hover_touch :: "nat \<Rightarrow> tp_touch" where
  "hover_touch i =
     (tp_init_touch i)\<lparr>t_state := TOUCH_HOVERING, t_has_ended := False,
        t_point := \<lparr>dc_x = 120, dc_y = 110\<rparr>, t_time := 2000,
        t_history_samples :=
          [\<lparr>hp_point = \<lparr>dc_x = 100, dc_y = 100\<rparr>, hp_time = 1000\<rparr>,
           \<lparr>hp_point = \<lparr>dc_x = 120, dc_y = 110\<rparr>, hp_time = 2000\<rparr>,
           \<lparr>hp_point = device_coords_zero, hp_time = 0\<rparr>,
           \<lparr>hp_point = device_coords_zero, hp_time = 0\<rparr>],
        t_history_index := 1, t_history_count := 2\<rparr>"

definition hover_example :: tp_dispatch where
  "hover_example = set_touch ((tp_zalloc 1 1)\<lparr>fake_touches := 3\<rparr>) 0 (hover_touch 0)"

text \<open>
  The same on two slots, at the end of a frame in which the finger of slot 0 was lifted
  (\<^verbatim>\<open>tp_end_sequence\<close> has run) while the fake-finger bits still report one finger
  touching: the finger count is the one of the frame before once the hovering touch of
  slot 1 has begun.
\<close>

definition hover_frame_example :: tp_dispatch where
  "hover_frame_example =
     set_touch
       (set_touch ((tp_zalloc 2 2)\<lparr>fake_touches := 3, old_nfingers_down := 1\<rparr>) 0
          ((tp_init_touch 0)\<lparr>t_state := TOUCH_MAYBE_END, t_dirty := True,
             t_was_down := True\<rparr>)) 1
       (hover_touch 1)"




section \<open>Facts about the freshly allocated dispatcher\<close>

lemma touch_zalloc [simp]: "i < n \<Longrightarrow> touch (tp_zalloc k n) i = tp_init_touch i"
  by (simp add: touch_def tp_zalloc_def)

lemma trace_zalloc [simp]: "trace (tp_zalloc k n) = []"
  by (simp add: tp_zalloc_def)
lemma dwt_zalloc [simp]: "dwt_mod_mask (tp_zalloc k n) = replicate NLONGS_KEY_CNT 0"
  "dwt_key_mask (tp_zalloc k n) = replicate NLONGS_KEY_CNT 0"
  "dwt_keyboard_active (tp_zalloc k n) = False"
  by (simp_all add: tp_zalloc_def)
lemma NLONGS_KEY_CNT_eq: "NLONGS_KEY_CNT = 12"
  by (simp add: NLONGS_KEY_CNT_def KEY_CNT_def)
lemma long_any_bit_set_replicate [simp]: "\<not> long_any_bit_set (replicate n 0) k"
  by (auto simp: long_any_bit_set_def list_ex_iff dest: in_set_takeD)
lemma long_any_bit_set_set_bit:
  "b div 64 < length array \<Longrightarrow> long_any_bit_set (long_set_bit array b) (length (long_set_bit array b))"
proof -
  assume b: "b div 64 < length array"
  have "bit ((array ! (b div 64)) OR push_bit (b mod 64) (1::64 word)) (b mod 64)"
    by (simp add: bit_simps)
  then have "(array ! (b div 64)) OR push_bit (b mod 64) (1::64 word) \<noteq> 0"
    by (metis bit_0_eq bot_apply bot_bool_def)
  then show ?thesis
    using b unfolding long_any_bit_set_def long_set_bit_def list_ex_iff
    by (auto simp: set_update_memI intro!: bexI [where x = "(array ! (b div 64)) OR push_bit (b mod 64) 1"])
qed

section \<open>Properties of the fake-finger tracker\<close>

lemmas btn_codes =
  BTN_TOOL_FINGER_def BTN_TOOL_QUINTTAP_def BTN_TOUCH_def BTN_TOOL_DOUBLETAP_def
  BTN_TOOL_TRIPLETAP_def BTN_TOOL_QUADTAP_def

lemmas key_codes =
  KEY_TAB_def KEY_LEFTCTRL_def KEY_A_def KEY_LEFTSHIFT_def KEY_RIGHTSHIFT_def KEY_LEFTALT_def
  KEY_CAPSLOCK_def KEY_F1_def KEY_RIGHTCTRL_def KEY_RIGHTALT_def KEY_LEFTMETA_def
  KEY_RIGHTMETA_def KEY_COMPOSE_def KEY_FN_def


lemma ffs_from_numeral [simp]:
  "ffs_from (numeral k) i w = (if bit w i then Suc i else ffs_from (pred_numeral k) (Suc i) w)"
  by (simp add: numeral_eq_Suc)

lemma ffs_from_drop_bit:
  "ffs_from k i (drop_bit (Suc 0) w) =
     (case filter (bit w) [Suc i..<Suc i + k] of [] \<Rightarrow> 0 | j # _ \<Rightarrow> j)"
proof (induction k arbitrary: i)
  case 0
  then show ?case by simp
next
  case (Suc k)
  have split: "[Suc i..<Suc i + Suc k] = Suc i # [Suc (Suc i)..<Suc (Suc i) + k]"
    by (simp add: upt_conv_Cons)
  show ?case
    using Suc.IH [of "Suc i"] by (simp only: split) (simp add: bit_drop_bit_eq)
qed

lemma no_bit_32: "\<not> bit (w :: 32 word) 32"
  by (auto dest: bit_imp_le_length)

lemma ffs_drop_bit: "ffs (drop_bit (Suc 0) w) = lowest_asserted_bit_above_0 w"
proof -
  have "[Suc 0..<33] = [1..<32] @ [32]"
    by (simp add: upt_rec)
  then show ?thesis
    unfolding ffs_def lowest_asserted_bit_above_0_def ffs_from_drop_bit
    by (simp add: no_bit_32)
qed

lemma overflow_bit: "(w AND FAKE_FINGER_OVERFLOW = 0) = (\<not> bit w 7)"
  using and_exp_eq_0_iff_not_bit [of w 7] by (simp add: FAKE_FINGER_OVERFLOW_def)

lemma tp_fake_finger_count_fst:
  "fst (tp_fake_finger_count tp) =
     (if bit (fake_touches tp) 7 then 128 else lowest_asserted_bit_above_0 (fake_touches tp))"
  by (simp add: tp_fake_finger_count_def Let_def overflow_bit ffs_drop_bit)
     (simp add: FAKE_FINGER_OVERFLOW_def)

text \<open>
  C4, as the spec states it, fails: with \<^verbatim>\<open>BTN_TOOL_FINGER\<close> and
  \<^verbatim>\<open>BTN_TOOL_DOUBLETAP\<close> both asserted (mask \<open>0b110\<close>) and no overflow, the highest
  asserted tool bit is 2 but \<^verbatim>\<open>tp_fake_finger_count\<close> returns 1.
\<close>

theorem tp_fake_finger_count_not_highest:
  "fst (tp_fake_finger_count ((tp_zalloc 2 5)\<lparr>fake_touches := 6\<rparr>)) = 1
   \<and> highest_asserted_tool_bit (fake_touches ((tp_zalloc 2 5)\<lparr>fake_touches := 6\<rparr>)) = 2"
  by (simp add: tp_fake_finger_count_def Let_def FAKE_FINGER_OVERFLOW_def ffs_def
      highest_asserted_tool_bit_def)

text \<open>
  C4, amended: for every value of the mask, if the overflow flag (bit 7) is set
  \<^verbatim>\<open>tp_fake_finger_count\<close> returns the overflow sentinel 128; otherwise it returns the
  index of the lowest asserted bit above bit 0 (\<^verbatim>\<open>BTN_TOUCH\<close> is never counted), and 0
  when there is none.
\<close>

theorem tp_fake_finger_count_lowest:
  "fst (tp_fake_finger_count tp) =
     (if fake_touches tp AND FAKE_FINGER_OVERFLOW \<noteq> 0 then unat FAKE_FINGER_OVERFLOW
      else lowest_asserted_bit_above_0 (fake_touches tp))"
  by (simp add: tp_fake_finger_count_fst overflow_bit) (simp add: FAKE_FINGER_OVERFLOW_def)

theorem tp_fake_finger_count_lowest_witness:
  "fst (tp_fake_finger_count ((tp_zalloc 2 5)\<lparr>fake_touches := 0x8d\<rparr>)) = 128
   \<and> fst (tp_fake_finger_count ((tp_zalloc 2 5)\<lparr>fake_touches := 0x0d\<rparr>)) = 2
   \<and> lowest_asserted_bit_above_0 0x0d = 2"
  using tp_fake_finger_count_lowest [of "(tp_zalloc 2 5)\<lparr>fake_touches := 0x8d\<rparr>"]
    tp_fake_finger_count_lowest [of "(tp_zalloc 2 5)\<lparr>fake_touches := 0x0d\<rparr>"]
  by (simp add: FAKE_FINGER_OVERFLOW_def ffs_drop_bit [symmetric] ffs_def)

text \<open>
  C10: in \<^verbatim>\<open>tp_fake_finger_set\<close>, a press of \<^verbatim>\<open>BTN_TOUCH\<close>, \<^verbatim>\<open>BTN_TOOL_FINGER\<close>,
  \<^verbatim>\<open>BTN_TOOL_DOUBLETAP\<close>, \<^verbatim>\<open>BTN_TOOL_TRIPLETAP\<close> or \<^verbatim>\<open>BTN_TOOL_QUADTAP\<close> clears
  the overflow flag, as does a release of \<^verbatim>\<open>BTN_TOUCH\<close>; a press of
  \<^verbatim>\<open>BTN_TOOL_QUINTTAP\<close> sets it and is the only event after which a flag that was
  clear is set; a release of \<^verbatim>\<open>BTN_TOOL_QUINTTAP\<close> changes nothing.
\<close>

theorem tp_fake_finger_set_overflow:
  "(code \<in> {BTN_TOUCH, BTN_TOOL_FINGER, BTN_TOOL_DOUBLETAP, BTN_TOOL_TRIPLETAP,
            BTN_TOOL_QUADTAP} \<longrightarrow>
      fake_touches (tp_fake_finger_set tp code True) AND FAKE_FINGER_OVERFLOW = 0)
   \<and> fake_touches (tp_fake_finger_set tp BTN_TOUCH False) AND FAKE_FINGER_OVERFLOW = 0
   \<and> fake_touches (tp_fake_finger_set tp BTN_TOOL_QUINTTAP True) AND FAKE_FINGER_OVERFLOW \<noteq> 0
   \<and> tp_fake_finger_set tp BTN_TOOL_QUINTTAP False = tp
   \<and> (fake_touches tp AND FAKE_FINGER_OVERFLOW = 0 \<and>
      fake_touches (tp_fake_finger_set tp code is_press) AND FAKE_FINGER_OVERFLOW \<noteq> 0 \<longrightarrow>
        code = BTN_TOOL_QUINTTAP \<and> is_press)"
  unfolding overflow_bit
  by (auto simp: tp_fake_finger_set_def btn_codes Let_def bit_simps FAKE_FINGER_OVERFLOW_def
      split: if_splits)

theorem tp_fake_finger_set_overflow_witness:
  "BTN_TOOL_FINGER \<in> {BTN_TOUCH, BTN_TOOL_FINGER, BTN_TOOL_DOUBLETAP, BTN_TOOL_TRIPLETAP,
      BTN_TOOL_QUADTAP}
   \<and> fake_touches ((tp_zalloc 2 5)\<lparr>fake_touches := 0x80\<rparr>) AND FAKE_FINGER_OVERFLOW \<noteq> 0
   \<and> fake_touches (tp_fake_finger_set ((tp_zalloc 2 5)\<lparr>fake_touches := 0x80\<rparr>)
        BTN_TOOL_FINGER True) = 2
   \<and> fake_touches (tp_zalloc 2 5) AND FAKE_FINGER_OVERFLOW = 0
   \<and> fake_touches (tp_fake_finger_set (tp_zalloc 2 5) BTN_TOOL_QUINTTAP True)
        AND FAKE_FINGER_OVERFLOW \<noteq> 0"
  using tp_fake_finger_set_overflow [of BTN_TOOL_FINGER "(tp_zalloc 2 5)\<lparr>fake_touches := 0x80\<rparr>"]
    tp_fake_finger_set_overflow [of BTN_TOOL_QUINTTAP "tp_zalloc 2 5" True]
  by (simp add: tp_fake_finger_set_def btn_codes Let_def FAKE_FINGER_OVERFLOW_def tp_zalloc_def)

section \<open>Properties of the touch life cycle\<close>

text \<open>
  C9: \<^verbatim>\<open>tp_end_touch\<close> on a touch that is not in \<^verbatim>\<open>TOUCH_MAYBE_END\<close> is skipped:
  every touch and every field of the dispatcher (with \<^verbatim>\<open>nfingers_down\<close> and
  \<^verbatim>\<open>queued\<close>) is left as it was, and one library-bug message is logged.
\<close>

theorem tp_end_touch_skipped:
  "t_state (touch tp i) \<noteq> TOUCH_MAYBE_END \<Longrightarrow>
     tp_end_touch tp i time =
       tp\<lparr>trace := trace tp @
            [Log_bug_libinput_should_be_MAYBE_END (t_index (touch tp i)) (t_state (touch tp i))]\<rparr>"
  by (simp add: tp_end_touch_def Let_def add_trace_def)

theorem tp_end_touch_skipped_witness:
  "t_state (touch (tp_zalloc 2 5) 1) \<noteq> TOUCH_MAYBE_END
   \<and> tp_end_touch (tp_zalloc 2 5) 1 77 =
       (tp_zalloc 2 5)\<lparr>trace := [Log_bug_libinput_should_be_MAYBE_END 1 TOUCH_NONE]\<rparr>"
proof -
  have h: "t_state (touch (tp_zalloc 2 5) 1) \<noteq> TOUCH_MAYBE_END"
    by (simp add: tp_init_touch_def)
  show ?thesis
    using h tp_end_touch_skipped [OF h, of 77]
    by (simp add: tp_init_touch_def)
qed

section \<open>Properties of disable-while-typing\<close>

text \<open>
  C8: on a key-down of a key that is neither a modifier nor ignored, with dwt enabled:
  if dwt is not yet active it becomes active exactly when no bit of \<^verbatim>\<open>mod_mask\<close> is
  set, and then scroll, gestures and tap are stopped and the timer is set to 200 ms
  after the event; with a modifier held nothing changes.  If dwt is already active the
  timer is set to 500 ms after the event and nothing is stopped.  A key-down of a
  modifier changes at most \<^verbatim>\<open>mod_mask\<close> and never the activity of dwt.
\<close>

theorem tp_keyboard_event_key_down:
  "(\<not> tp_key_is_modifier key \<and> \<not> tp_key_ignore_for_dwt key \<and> dwt_dwt_enabled tp \<longrightarrow>
      (let tp' = tp_keyboard_event time (LIBINPUT_EVENT_KEYBOARD_KEY key True) tp in
       if dwt_keyboard_active tp
       then tp' = tp\<lparr>dwt_keyboard_last_press_time := time,
                     dwt_key_mask := long_set_bit (dwt_key_mask tp) key,
                     trace := trace tp @ [Timer_set Keyboard_timer (time + 500000)]\<rparr>
       else if long_any_bit_set (dwt_mod_mask tp) (length (dwt_mod_mask tp))
       then tp' = tp
       else tp' = tp\<lparr>dwt_keyboard_active := True,
                     dwt_keyboard_last_press_time := time,
                     dwt_key_mask := long_set_bit (dwt_key_mask tp) key,
                     trace := trace tp @
                       [Edge_scroll_stop_events time, Gesture_cancel time, Tap_suspend time,
                        Timer_set Keyboard_timer (time + 200000)]\<rparr>))
   \<and> (tp_key_is_modifier key \<longrightarrow>
      tp_keyboard_event time (LIBINPUT_EVENT_KEYBOARD_KEY key True) tp =
        (if dwt_dwt_enabled tp then tp\<lparr>dwt_mod_mask := long_set_bit (dwt_mod_mask tp) key\<rparr>
         else tp))"
  by (simp add: tp_keyboard_event_def Let_def tp_stop_actions_def add_trace_def
      tp_key_ignore_for_dwt_def DEFAULT_KEYBOARD_ACTIVITY_TIMEOUT_1_def
      DEFAULT_KEYBOARD_ACTIVITY_TIMEOUT_2_def ms2us_def)

text \<open>
  The witness is the scenario of the spec: left control goes down, then the key A; dwt
  does not become active and nothing is sent out.  Without the modifier the same key
  starts dwt.
\<close>

theorem tp_keyboard_event_key_down_witness:
  "tp_key_is_modifier KEY_LEFTCTRL \<and> \<not> tp_key_is_modifier KEY_A
   \<and> \<not> tp_key_ignore_for_dwt KEY_A \<and> dwt_dwt_enabled ((tp_zalloc 2 5)\<lparr>dwt_dwt_enabled := True\<rparr>)
   \<and> (let tp1 = tp_keyboard_event 1000 (LIBINPUT_EVENT_KEYBOARD_KEY KEY_LEFTCTRL True)
                   ((tp_zalloc 2 5)\<lparr>dwt_dwt_enabled := True\<rparr>);
           tp2 = tp_keyboard_event 11000 (LIBINPUT_EVENT_KEYBOARD_KEY KEY_A True) tp1
       in dwt_dwt_enabled tp1 \<and> tp2 = tp1 \<and> \<not> dwt_keyboard_active tp2 \<and> trace tp2 = [])
   \<and> (let tp3 = tp_keyboard_event 11000 (LIBINPUT_EVENT_KEYBOARD_KEY KEY_A True)
                   ((tp_zalloc 2 5)\<lparr>dwt_dwt_enabled := True\<rparr>)
       in dwt_keyboard_active tp3 \<and>
          trace tp3 = [Edge_scroll_stop_events 11000, Gesture_cancel 11000, Tap_suspend 11000,
                       Timer_set Keyboard_timer 211000])"
proof -
  let ?tp0 = "(tp_zalloc 2 5)\<lparr>dwt_dwt_enabled := True\<rparr>"
  let ?tp1 = "tp_keyboard_event 1000 (LIBINPUT_EVENT_KEYBOARD_KEY KEY_LEFTCTRL True) ?tp0"
  have m: "tp_key_is_modifier KEY_LEFTCTRL" "\<not> tp_key_is_modifier KEY_A"
    "\<not> tp_key_ignore_for_dwt KEY_A"
    by (simp_all add: tp_key_is_modifier_def tp_key_ignore_for_dwt_def key_codes)
  have tp1: "?tp1 = ?tp0\<lparr>dwt_mod_mask := long_set_bit (replicate NLONGS_KEY_CNT 0) KEY_LEFTCTRL\<rparr>"
    using tp_keyboard_event_key_down [of KEY_LEFTCTRL ?tp0 1000] m by simp
  have any: "long_any_bit_set (dwt_mod_mask ?tp1) (length (dwt_mod_mask ?tp1))"
    unfolding tp1 by (simp add: long_any_bit_set_set_bit NLONGS_KEY_CNT_eq KEY_LEFTCTRL_def)
  have en1: "dwt_dwt_enabled ?tp1" "\<not> dwt_keyboard_active ?tp1" "trace ?tp1 = []"
    unfolding tp1 by simp_all
  show ?thesis
    using tp_keyboard_event_key_down [of KEY_A ?tp1 11000]
      tp_keyboard_event_key_down [of KEY_A ?tp0 11000] m any en1
    by (simp add: Let_def)
qed

section \<open>Properties of the palm classifier\<close>

lemma touch_set_touch [simp]:
  "i < length (touches tp) \<Longrightarrow> touch (set_touch tp i t) i = t"
  by (simp add: touch_def set_touch_def)

lemma touch_set_touch_other [simp]:
  "j \<noteq> i \<Longrightarrow> touch (set_touch tp i t) j = touch tp j"
  by (simp add: touch_def set_touch_def)

lemma set_touch_same [simp]: "set_touch tp i (touch tp i) = tp"
  by (simp add: touch_def set_touch_def)



lemma touch_arbitration_state_update [simp]:
  "touch (tp\<lparr>arbitration_state := a\<rparr>) i = touch tp i"
  by (simp add: touch_def)

lemma palm_example_simps [simp]:
  "touch (palm_example st ps) 0 =
     (tp_init_touch 0)\<lparr>t_state := st, t_dirty := True, t_major := 150, t_palm_state := ps\<rparr>"
  "length (touches (palm_example st ps)) = 2"
  "arbitration_state (palm_example st ps) = ARBITRATION_NOT_ACTIVE"
  "palm_use_pressure (palm_example st ps) = True"
  by (simp_all add: palm_example_def touch_def set_touch_def tp_zalloc_def)




section \<open>The finger counter\<close>

subsection \<open>Updating one touch\<close>

lemma touches_set_touch [simp]: "touches (set_touch tp i t) = (touches tp)[i := t]"
  by (simp add: set_touch_def)

lemma set_touch_fields [simp]:
  "ntouches (set_touch tp i t) = ntouches tp"
  "num_slots (set_touch tp i t) = num_slots tp"
  "nfingers_down (set_touch tp i t) = nfingers_down tp"
  "fake_touches (set_touch tp i t) = fake_touches tp"
  "trace (set_touch tp i t) = trace tp"
  by (simp_all add: set_touch_def)

lemma add_trace_fields [simp]:
  "touches (add_trace cs tp) = touches tp"
  "ntouches (add_trace cs tp) = ntouches tp"
  "num_slots (add_trace cs tp) = num_slots tp"
  "nfingers_down (add_trace cs tp) = nfingers_down tp"
  "fake_touches (add_trace cs tp) = fake_touches tp"
  "touch (add_trace cs tp) i = touch tp i"
  by (simp_all add: add_trace_def touch_def)

lemma fingers_down_update:
  "i < length ts \<Longrightarrow>
     fingers_down (ts[i := t]) + (if is_down (ts ! i) then 1 else 0) =
     fingers_down ts + (if is_down t then 1 else 0)"
proof (induction ts arbitrary: i)
  case Nil
  then show ?case by simp
next
  case (Cons a ts)
  show ?case
  proof (cases i)
    case 0
    then show ?thesis by (simp add: fingers_down_def)
  next
    case (Suc k)
    with Cons.prems have "k < length ts" by simp
    from Cons.IH [OF this] Suc show ?thesis by (simp add: fingers_down_def)
  qed
qed

lemma fingers_down_le: "fingers_down ts \<le> length ts"
  by (simp add: fingers_down_def)

lemma fingers_down_less:
  "i < length ts \<Longrightarrow> \<not> is_down (ts ! i) \<Longrightarrow> fingers_down ts < length ts"
  unfolding fingers_down_def
  by (metis length_filter_less nth_mem)

lemma fingers_down_pos:
  "i < length ts \<Longrightarrow> is_down (ts ! i) \<Longrightarrow> 0 < fingers_down ts"
  unfolding fingers_down_def
  by (metis filter_empty_conv length_greater_0_conv nth_mem)

lemma list_all_update:
  "list_all P ts \<Longrightarrow> P t \<Longrightarrow> list_all P (ts[i := t])"
  by (auto simp: list_all_iff dest: set_update_subset_insert [THEN subsetD])

text \<open>
  The shape of every step of the life cycle: one touch is replaced, the counter moves
  with it, and a touch that is put into \<^verbatim>\<open>TOUCH_BEGIN\<close> is dirty.
\<close>

lemma tp_inv_update:
  assumes "tp_inv tp" and "i < length (touches tp)"
    and "touches tp' = (touches tp)[i := t]"
    and "ntouches tp' = ntouches tp" and "num_slots tp' = num_slots tp"
    and "nfingers_down tp' + (if is_down (touches tp ! i) then 1 else 0) =
           nfingers_down tp + (if is_down t then 1 else 0)"
    and "t_state t = TOUCH_BEGIN \<longrightarrow> t_dirty t"
  shows "tp_inv tp'"
proof -
  from assms(1) have wf: "tp_wf tp" and n: "nfingers_down tp = fingers_down (touches tp)"
    and d: "list_all (\<lambda>t. t_state t = TOUCH_BEGIN \<longrightarrow> t_dirty t) (touches tp)"
    by (simp_all add: tp_inv_def nfingers_inv_def)
  have "tp_wf tp'"
    using wf assms(3-5) by (auto simp: tp_wf_def)
  moreover have "nfingers_down tp' = fingers_down (touches tp')"
    using fingers_down_update [OF assms(2), of t] assms(6) n assms(3) by simp
  moreover have "list_all (\<lambda>t. t_state t = TOUCH_BEGIN \<longrightarrow> t_dirty t) (touches tp')"
    using d assms(7) by (simp add: assms(3) list_all_update)
  ultimately show ?thesis by (simp add: tp_inv_def nfingers_inv_def)
qed

lemma tp_inv_length: "tp_inv tp \<Longrightarrow> ntouches tp = length (touches tp)"
  by (simp add: tp_inv_def tp_wf_def)

lemma tp_inv_add_trace [simp]: "tp_inv (add_trace cs tp) = tp_inv tp"
  by (simp add: tp_inv_def tp_wf_def nfingers_inv_def)

lemma tp_inv_count_bound:
  "tp_inv tp \<Longrightarrow> i < length (touches tp) \<Longrightarrow> \<not> is_down (touch tp i) \<Longrightarrow>
     nfingers_down tp + 1 < 2 ^ 32"
proof -
  assume a: "tp_inv tp" "i < length (touches tp)" "\<not> is_down (touch tp i)"
  then have "fingers_down (touches tp) < length (touches tp)"
    by (auto simp: touch_def intro: fingers_down_less)
  with a(1) show ?thesis
    by (simp add: tp_inv_def tp_wf_def nfingers_inv_def)
qed

lemma tp_inv_count_pos:
  "tp_inv tp \<Longrightarrow> i < length (touches tp) \<Longrightarrow> is_down (touch tp i) \<Longrightarrow> 1 \<le> nfingers_down tp"
  using fingers_down_pos [of i "touches tp"]
  by (simp add: tp_inv_def nfingers_inv_def touch_def Suc_le_eq)

subsection \<open>The steps of the life cycle keep the invariant\<close>

lemma tp_new_touch_inv:
  assumes "tp_inv tp" and "i < length (touches tp)"
  shows "tp_inv (tp_new_touch tp i time)"
proof -
  let ?t = "touch tp i"
  consider (same) "t_state ?t = TOUCH_BEGIN \<or> t_state ?t = TOUCH_UPDATE \<or> t_state ?t = TOUCH_HOVERING"
    | (maybe) "t_state ?t = TOUCH_MAYBE_END"
    | (new) "t_state ?t = TOUCH_NONE \<or> t_state ?t = TOUCH_END"
    by (cases "t_state ?t") auto
  then show ?thesis
  proof cases
    case same
    then show ?thesis using assms by (auto simp: tp_new_touch_def Let_def)
  next
    case maybe
    then have nd: "\<not> is_down ?t" by (simp add: is_down_def)
    have cnt: "nfingers_down tp + 1 < 2 ^ 32"
      by (rule tp_inv_count_bound [OF assms nd])
    show ?thesis
      by (rule tp_inv_update [OF assms, where t = "?t\<lparr>t_state := TOUCH_UPDATE, t_has_ended := False\<rparr>"])
         (use maybe nd cnt in \<open>simp_all add: tp_new_touch_def Let_def is_down_def touch_def\<close>)
  next
    case new
    then have nd: "\<not> is_down ?t" by (auto simp: is_down_def)
    show ?thesis
      by (rule tp_inv_update [OF assms, where t = "(tp_motion_history_reset ?t)
                \<lparr>t_dirty := True, t_has_ended := False, t_was_down := False,
                 t_palm_state := PALM_NONE, t_state := TOUCH_HOVERING,
                 t_pinned_is_pinned := False, t_time := time,
                 t_speed_last_speed := 0, t_speed_exceeded_count := 0,
                 t_hysteresis_x_motion_history := 0\<rparr>"])
         (use new nd in \<open>auto simp: tp_new_touch_def Let_def is_down_def touch_def set_touch_def\<close>)
  qed
qed

lemma tp_begin_touch_inv:
  assumes "tp_inv tp" and "i < length (touches tp)" and "\<not> is_down (touch tp i)"
  shows "\<exists>tp'. tp_begin_touch tp i time = Some tp' \<and> tp_inv tp' \<and>
           nfingers_down tp' = nfingers_down tp + 1"
proof -
  have cnt: "nfingers_down tp + 1 < 2 ^ 32"
    by (rule tp_inv_count_bound [OF assms])
  let ?t' = "(touch tp i)\<lparr>t_dirty := True, t_state := TOUCH_BEGIN, t_time := time,
                 t_was_down := True,
                 t_palm_time := time, t_thumb_state := THUMB_STATE_MAYBE,
                 t_thumb_first_touch_time := time, t_tap_is_thumb := False,
                 t_tap_is_palm := False, t_speed_exceeded_count := 0\<rparr>"
  let ?tp' = "set_touch (tp\<lparr>nfingers_down := nfingers_down tp + 1,
                hysteresis_last_motion_time := time\<rparr>) i ?t'"
  have eq: "tp_begin_touch tp i time = Some ?tp'"
    using cnt by (simp add: tp_begin_touch_def Let_def)
  have "tp_inv ?tp'"
    by (rule tp_inv_update [OF assms(1,2), where t = ?t'])
       (use assms(3) in \<open>simp_all add: is_down_def touch_def set_touch_def\<close>)
  then show ?thesis using eq by (simp add: set_touch_def)
qed

lemma tp_maybe_end_touch_inv:
  assumes "tp_inv tp" and "i < length (touches tp)"
  shows "\<exists>tp'. tp_maybe_end_touch tp i time = Some tp' \<and> tp_inv tp'"
proof (cases "is_down (touch tp i)")
  case True
  then have pos: "1 \<le> nfingers_down tp"
    by (rule tp_inv_count_pos [OF assms])
  let ?t' = "(touch tp i)\<lparr>t_state := TOUCH_MAYBE_END, t_dirty := True\<rparr>"
  let ?tp' = "set_touch (tp\<lparr>nfingers_down := nfingers_down tp - 1\<rparr>) i ?t'"
  have eq: "tp_maybe_end_touch tp i time = Some ?tp'"
    using True pos by (auto simp: tp_maybe_end_touch_def Let_def is_down_def)
  have "tp_inv ?tp'"
    by (rule tp_inv_update [OF assms, where t = ?t'])
       (use True pos in \<open>simp_all add: is_down_def touch_def set_touch_def\<close>)
  then show ?thesis using eq by simp
next
  case False
  show ?thesis
  proof (cases "t_state (touch tp i) = TOUCH_HOVERING")
    case True
    let ?t' = "(touch tp i)\<lparr>t_state := TOUCH_NONE, t_dirty := True\<rparr>"
    have eq: "tp_maybe_end_touch tp i time = Some (set_touch tp i ?t')"
      using True by (simp add: tp_maybe_end_touch_def Let_def)
    have "tp_inv (set_touch tp i ?t')"
      by (rule tp_inv_update [OF assms, where t = ?t'])
         (use True in \<open>simp_all add: is_down_def touch_def\<close>)
    then show ?thesis using eq by simp
  next
    case h: False
    then show ?thesis
      using False assms(1)
      by (cases "t_state (touch tp i)") (simp_all add: tp_maybe_end_touch_def Let_def is_down_def)
  qed
qed

lemma tp_recover_ended_touch_inv:
  assumes "tp_inv tp" and "i < length (touches tp)"
    and "t_state (touch tp i) = TOUCH_MAYBE_END"
  shows "tp_inv (tp_recover_ended_touch tp i)"
proof -
  have nd: "\<not> is_down (touch tp i)" using assms(3) by (simp add: is_down_def)
  have cnt: "nfingers_down tp + 1 < 2 ^ 32"
    by (rule tp_inv_count_bound [OF assms(1,2) nd])
  show ?thesis
    by (rule tp_inv_update [OF assms(1,2),
          where t = "(touch tp i)\<lparr>t_dirty := True, t_state := TOUCH_UPDATE\<rparr>"])
       (use nd cnt in \<open>simp_all add: tp_recover_ended_touch_def is_down_def touch_def set_touch_def\<close>)
qed

lemma tp_end_touch_inv:
  assumes "tp_inv tp" and "i < length (touches tp)"
  shows "tp_inv (tp_end_touch tp i time)"
proof (cases "t_state (touch tp i) = TOUCH_MAYBE_END")
  case True
  show ?thesis
    by (rule tp_inv_update [OF assms,
          where t = "(touch tp i)\<lparr>t_dirty := True, t_palm_state := PALM_NONE,
                t_state := TOUCH_END,
                t_pinned_is_pinned := False, t_time := time, t_palm_time := 0,
                t_speed_exceeded_count := 0\<rparr>"])
       (use True in \<open>simp_all add: tp_end_touch_def Let_def is_down_def touch_def set_touch_def\<close>)
next
  case False
  then show ?thesis using assms(1) by (simp add: tp_end_touch_def Let_def)
qed

text \<open>A change of a touch that keeps its state and does not clear its dirty flag.\<close>

lemma tp_inv_set_touch_keep:
  assumes "tp_inv tp" and "t_state t = t_state (touch tp i)"
    and "t_dirty (touch tp i) \<longrightarrow> t_dirty t"
  shows "tp_inv (set_touch tp i t)"
proof (cases "i < length (touches tp)")
  case True
  have d: "t_state (touch tp i) = TOUCH_BEGIN \<longrightarrow> t_dirty (touch tp i)"
    using assms(1) True by (simp add: tp_inv_def nfingers_inv_def list_all_length touch_def)
  show ?thesis
    by (rule tp_inv_update [OF assms(1) True, where t = t])
       (use assms(2,3) d in \<open>auto simp: is_down_def touch_def\<close>)
next
  case False
  then have "set_touch tp i t = tp" by (simp add: set_touch_def not_less list_update_beyond)
  then show ?thesis using assms(1) by simp
qed

lemma tp_end_sequence_inv:
  assumes "tp_inv tp" and "i < length (touches tp)"
  shows "\<exists>tp'. tp_end_sequence tp i time = Some tp' \<and> tp_inv tp'"
proof -
  have "tp_inv (set_touch tp i ((touch tp i)\<lparr>t_has_ended := True\<rparr>))"
    by (rule tp_inv_set_touch_keep [OF assms(1)]) simp_all
  then show ?thesis
    unfolding tp_end_sequence_def
    using assms(2) by (intro tp_maybe_end_touch_inv) simp_all
qed

subsection \<open>The same facts, for results\<close>

lemma tp_inv_index: "tp_inv tp \<Longrightarrow> i < ntouches tp \<Longrightarrow> i < length (touches tp)"
  by (simp add: tp_inv_length)

lemma tp_get_touch_Some:
  "tp_get_touch tp i = Some t \<Longrightarrow> i < ntouches tp \<and> t = touch tp i"
  by (auto simp: tp_get_touch_def split: if_splits)

lemma ntouches_tp_new_touch [simp]: "ntouches (tp_new_touch tp i time) = ntouches tp"
  by (simp add: tp_new_touch_def Let_def)

lemma ntouches_tp_end_touch [simp]: "ntouches (tp_end_touch tp i time) = ntouches tp"
  by (simp add: tp_end_touch_def Let_def)

lemma ntouches_tp_recover_ended_touch [simp]:
  "ntouches (tp_recover_ended_touch tp i) = ntouches tp"
  by (simp add: tp_recover_ended_touch_def)

lemma ntouches_tp_begin_touch:
  "tp_begin_touch tp i time = Some tp' \<Longrightarrow> ntouches tp' = ntouches tp"
  by (auto simp: tp_begin_touch_def Let_def split: if_splits)

lemma ntouches_tp_maybe_end_touch:
  "tp_maybe_end_touch tp i time = Some tp' \<Longrightarrow> ntouches tp' = ntouches tp"
  by (auto simp: tp_maybe_end_touch_def Let_def split: if_splits touch_state.splits)

lemma ntouches_tp_end_sequence:
  "tp_end_sequence tp i time = Some tp' \<Longrightarrow> ntouches tp' = ntouches tp"
  by (auto simp: tp_end_sequence_def dest: ntouches_tp_maybe_end_touch)

lemma tp_begin_touch_Some:
  "tp_begin_touch tp i time = Some tp' \<Longrightarrow> tp_inv tp \<Longrightarrow> i < ntouches tp \<Longrightarrow>
   \<not> is_down (touch tp i) \<Longrightarrow> tp_inv tp' \<and> ntouches tp' = ntouches tp"
  using tp_begin_touch_inv [of tp i time] ntouches_tp_begin_touch [of tp i time tp']
  by (auto simp: tp_inv_length)

lemma tp_maybe_end_touch_Some:
  "tp_maybe_end_touch tp i time = Some tp' \<Longrightarrow> tp_inv tp \<Longrightarrow> i < ntouches tp \<Longrightarrow>
     tp_inv tp' \<and> ntouches tp' = ntouches tp"
  using tp_maybe_end_touch_inv [of tp i time] ntouches_tp_maybe_end_touch [of tp i time tp']
  by (auto simp: tp_inv_length)

lemma tp_end_sequence_Some:
  "tp_end_sequence tp i time = Some tp' \<Longrightarrow> tp_inv tp \<Longrightarrow> i < ntouches tp \<Longrightarrow>
     tp_inv tp' \<and> ntouches tp' = ntouches tp"
  using tp_end_sequence_inv [of tp i time] ntouches_tp_end_sequence [of tp i time tp']
  by (auto simp: tp_inv_length)

lemma tp_new_touch_Some:
  "tp_inv tp \<Longrightarrow> i < ntouches tp \<Longrightarrow> tp_inv (tp_new_touch tp i time)"
  by (simp add: tp_new_touch_inv tp_inv_length)

lemma tp_fake_finger_count_snd:
  "snd (tp_fake_finger_count tp) = tp \<or>
   snd (tp_fake_finger_count tp) =
     add_trace [Log_bug_kernel_invalid_fake_finger_state (fake_touches tp)] tp"
  by (simp add: tp_fake_finger_count_def Let_def add_trace_def)

lemma tp_fake_finger_count_fields [simp]:
  "tp_inv (snd (tp_fake_finger_count tp)) = tp_inv tp"
  "ntouches (snd (tp_fake_finger_count tp)) = ntouches tp"
  "num_slots (snd (tp_fake_finger_count tp)) = num_slots tp"
  "touches (snd (tp_fake_finger_count tp)) = touches tp"
  "nfingers_down (snd (tp_fake_finger_count tp)) = nfingers_down tp"
  using tp_fake_finger_count_snd [of tp] by auto

lemma fold_option_inv:
  assumes "fold_option f as s = Some s'" and "P s"
    and "\<And>a s s'. a \<in> set as \<Longrightarrow> P s \<Longrightarrow> f a s = Some s' \<Longrightarrow> P s'"
  shows "P s'"
  using assms
proof (induction as arbitrary: s)
  case Nil
  then show ?case by simp
next
  case (Cons a as)
  from Cons.prems(1) obtain s1 where s1: "f a s = Some s1" "fold_option f as s1 = Some s'"
    by (auto split: option.splits)
  have "P s1" using Cons.prems(2,3) s1(1) by auto
  then show ?case using Cons.IH [OF s1(2)] Cons.prems(3) by auto
qed

subsection \<open>Fake touches and the hover resolver keep the invariant\<close>

lemma tp_restore_synaptics_touches_inv:
  assumes "tp_restore_synaptics_touches tp time = Some tp'" and "tp_inv tp"
  shows "tp_inv tp' \<and> ntouches tp' = ntouches tp"
proof -
  let ?tp = "snd (tp_fake_finger_count tp)"
  let ?P = "\<lambda>s. tp_inv s \<and> ntouches s = ntouches tp"
  have P0: "?P ?tp" using assms(2) by simp
  show ?thesis
  proof (cases "tp' = ?tp")
    case True
    then show ?thesis using P0 by simp
  next
    case False
    with assms(1) have f: "fold_option
             (\<lambda>i tp. case tp_get_touch tp i of
                        None \<Rightarrow> None
                      | Some t \<Rightarrow> if t_state t \<noteq> TOUCH_MAYBE_END then Some tp
                                  else Some (tp_recover_ended_touch tp i))
             [0..<num_slots ?tp] ?tp = Some tp'"
      by (auto simp: tp_restore_synaptics_touches_def split_beta Let_def split: if_splits)
    show ?thesis
      by (rule fold_option_inv [OF f, where P = ?P, OF P0])
         (auto split: option.splits if_splits dest!: tp_get_touch_Some
            intro!: tp_recover_ended_touch_inv simp: tp_inv_length)
  qed
qed

lemma tp_process_fake_touches_inv:
  assumes "tp_process_fake_touches tp time = Some tp'" and "tp_inv tp"
  shows "tp_inv tp' \<and> ntouches tp' = ntouches tp"
proof -
  let ?tp = "snd (tp_fake_finger_count tp)"
  let ?n = "fst (tp_fake_finger_count tp)"
  let ?P = "\<lambda>s. tp_inv s \<and> ntouches s = ntouches tp"
  have P0: "?P ?tp" using assms(2) by simp
  show ?thesis
  proof (cases "?n = unat FAKE_FINGER_OVERFLOW")
    case True
    then show ?thesis using assms(1) P0
      by (simp add: tp_process_fake_touches_def split_beta)
  next
    case False
    with assms(1) obtain tp1 where tp1:
      "(if device_model_synaptics_serial_touchpad ?tp
        then tp_restore_synaptics_touches ?tp time else Some ?tp) = Some tp1"
      and f: "fold_option
            (\<lambda>i tp. case tp_get_touch tp i of
                       None \<Rightarrow> None
                     | Some t \<Rightarrow> if i < ?n then Some (tp_new_touch tp i time)
                                 else tp_end_sequence tp i time)
            [(if has_mt tp1 then num_slots tp1 else 0)..<ntouches tp1] tp1 = Some tp'"
      by (auto simp: tp_process_fake_touches_def split_beta split: option.splits)
    have P1: "?P tp1"
      using tp1 P0 tp_restore_synaptics_touches_inv [of ?tp time tp1]
      by (auto split: if_splits)
    show ?thesis
      by (rule fold_option_inv [OF f, where P = ?P, OF P1])
         (auto split: option.splits if_splits dest!: tp_get_touch_Some
            dest: tp_end_sequence_Some intro: tp_new_touch_Some)
  qed
qed

lemma tp_inv_reset_history:
  "tp_inv tp \<Longrightarrow> tp_inv (set_touch tp i (tp_motion_history_reset (touch tp i)))"
  by (rule tp_inv_set_touch_keep) (simp_all add: tp_motion_history_reset_def)

lemma touch_reset_history:
  "i < length (touches tp) \<Longrightarrow>
     touch (set_touch tp i (tp_motion_history_reset (touch tp i))) i =
       tp_motion_history_reset (touch tp i)"
  by (simp add: touch_def)

lemma hovering_not_down: "t_state t = TOUCH_HOVERING \<Longrightarrow> \<not> is_down (tp_motion_history_reset t)"
  by (simp add: is_down_def tp_motion_history_reset_def)

lemma begin_after_reset_Some:
  assumes "tp_begin_touch (set_touch tp i (tp_motion_history_reset (touch tp i))) i time = Some tp'"
    and "tp_inv tp" and "i < ntouches tp" and "t_state (touch tp i) = TOUCH_HOVERING"
  shows "tp_inv tp' \<and> ntouches tp' = ntouches tp"
proof -
  have i: "i < length (touches tp)" using assms(2,3) by (simp add: tp_inv_length)
  have "tp_inv tp' \<and>
        ntouches tp' = ntouches (set_touch tp i (tp_motion_history_reset (touch tp i)))"
    by (rule tp_begin_touch_Some [OF assms(1)])
       (use assms i in \<open>simp_all add: tp_inv_reset_history touch_reset_history hovering_not_down\<close>)
  then show ?thesis by simp
qed

lemma tp_unhover_pressure_slots_inv:
  "tp_unhover_pressure_slots nf time is (tp, r) = Some (tp', r') \<Longrightarrow> tp_inv tp \<Longrightarrow>
   set is \<subseteq> {..<ntouches tp} \<Longrightarrow> tp_inv tp' \<and> ntouches tp' = ntouches tp"
proof (induction "is" arbitrary: tp r)
  case Nil
  then show ?case by simp
next
  case (Cons i "is")
  let ?t = "touch tp i"
  have i: "i < ntouches tp" using Cons.prems(3) by simp
  then have g: "tp_get_touch tp i = Some ?t" by (simp add: tp_get_touch_def)
  show ?case
  proof (cases "t_state ?t = TOUCH_NONE")
    case True
    then show ?thesis using Cons.prems Cons.IH [of tp r] g by simp
  next
    case False
    with Cons.prems(1) g obtain tp1 where
      step: "(if t_dirty ?t
                   then (if t_state ?t = TOUCH_HOVERING
                         then (if t_pressure ?t \<ge> pressure_high tp
                               then tp_begin_touch
                                      (set_touch tp i (tp_motion_history_reset ?t)) i time
                               else Some tp)
                         else if nf \<le> num_slots tp \<or> num_slots tp = 1
                         then (if t_pressure ?t < pressure_low tp
                               then tp_maybe_end_touch tp i time else Some tp)
                         else Some tp)
                   else Some tp) = Some tp1"
      and rest: "tp_unhover_pressure_slots nf time is
                   (tp1, if t_state (touch tp1 i) = TOUCH_BEGIN \<or>
                            t_state (touch tp1 i) = TOUCH_UPDATE
                         then r + 1 else r) = Some (tp', r')"
      by (auto split: option.splits)
    have P1: "tp_inv tp1 \<and> ntouches tp1 = ntouches tp"
      using step Cons.prems(2) i
      by (auto split: if_splits dest: begin_after_reset_Some tp_maybe_end_touch_Some)
    then show ?thesis
      using Cons.IH [OF rest] Cons.prems(3) by simp
  qed
qed

lemma tp_unhover_pressure_begin_inv:
  "tp_unhover_pressure_begin nf time is tp = Some tp' \<Longrightarrow> tp_inv tp \<Longrightarrow>
   set is \<subseteq> {..<ntouches tp} \<Longrightarrow> tp_inv tp' \<and> ntouches tp' = ntouches tp"
proof (induction "is" arbitrary: tp)
  case Nil
  then show ?case by simp
next
  case (Cons i "is")
  have i: "i < ntouches tp" using Cons.prems(3) by simp
  show ?case
  proof (cases "t_state (touch tp i) = TOUCH_HOVERING")
    case False
    then show ?thesis using Cons.prems Cons.IH [of tp] by simp
  next
    case True
    with Cons.prems(1) obtain tp1 where
      b: "tp_begin_touch (set_touch tp i (tp_motion_history_reset (touch tp i))) i time = Some tp1"
      and rest: "(if nfingers_down tp1 \<ge> nf then Some tp1
                  else tp_unhover_pressure_begin nf time is tp1) = Some tp'"
      by (auto split: option.splits)
    have P1: "tp_inv tp1 \<and> ntouches tp1 = ntouches tp"
      by (rule begin_after_reset_Some [OF b Cons.prems(2) i True])
    show ?thesis
    proof (cases "nfingers_down tp1 \<ge> nf")
      case True
      then show ?thesis using rest P1 by simp
    next
      case False
      then show ?thesis using rest P1 Cons.IH [of tp1] Cons.prems(3) by simp
    qed
  qed
qed

lemma tp_unhover_pressure_end_inv:
  "tp_unhover_pressure_end nf r time is tp = Some tp' \<Longrightarrow> tp_inv tp \<Longrightarrow>
   set is \<subseteq> {..<ntouches tp} \<Longrightarrow> tp_inv tp' \<and> ntouches tp' = ntouches tp"
proof (induction "is" arbitrary: tp)
  case Nil
  then show ?case by simp
next
  case (Cons i "is")
  let ?t = "touch tp i"
  have i: "i < ntouches tp" using Cons.prems(3) by simp
  then have g: "tp_get_touch tp i = Some ?t" by (simp add: tp_get_touch_def)
  show ?case
  proof (cases "t_state ?t = TOUCH_HOVERING \<or> t_state ?t = TOUCH_NONE \<or>
             t_state ?t = TOUCH_MAYBE_END")
    case True
    then show ?thesis using Cons.prems Cons.IH [of tp] g by simp
  next
    case False
    with Cons.prems(1) g obtain tp1 where
      e: "tp_maybe_end_touch tp i time = Some tp1"
      and rest: "(if r > 0 \<and> nfingers_down tp1 = nf then Some tp1
                  else tp_unhover_pressure_end nf r time is tp1) = Some tp'"
      by (auto split: option.splits)
    have P1: "tp_inv tp1 \<and> ntouches tp1 = ntouches tp"
      by (rule tp_maybe_end_touch_Some [OF e Cons.prems(2) i])
    show ?thesis
      using rest P1 Cons.IH [of tp1] Cons.prems(3) by (auto split: if_splits)
  qed
qed

lemma upt_subset: "n \<le> m \<Longrightarrow> set [k..<n] \<subseteq> {..<m}"
  by auto

lemma tp_unhover_pressure_inv:
  assumes "tp_unhover_pressure tp time = Some tp'" and "tp_inv tp"
  shows "tp_inv tp' \<and> ntouches tp' = ntouches tp"
proof -
  let ?tp = "snd (tp_fake_finger_count tp)"
  let ?nf = "if fst (tp_fake_finger_count tp) = unat FAKE_FINGER_OVERFLOW then 0
             else fst (tp_fake_finger_count tp)"
  have slots: "num_slots tp \<le> ntouches tp"
    using assms(2) by (simp add: tp_inv_def tp_wf_def)
  from assms(1) obtain tp1 r where
    l1: "tp_unhover_pressure_slots ?nf time [0..<num_slots ?tp] (?tp, 0) = Some (tp1, r)"
    by (auto simp: tp_unhover_pressure_def split_beta Let_def split: option.splits)
  have sub: "set [0..<num_slots ?tp] \<subseteq> {..<ntouches ?tp}"
    using slots by auto
  have P1: "tp_inv tp1 \<and> ntouches tp1 = ntouches tp"
    using tp_unhover_pressure_slots_inv [OF l1 _ sub] assms(2) by simp
  show ?thesis
  proof (cases "?nf \<le> num_slots tp1 \<or> nfingers_down tp1 = 0")
    case True
    then have "tp' = tp1"
      using assms(1) l1 by (simp add: tp_unhover_pressure_def split_beta Let_def)
    then show ?thesis using P1 by simp
  next
    case False
    with assms(1) l1 have rest:
      "(case (if r > 0 then tp_unhover_pressure_begin ?nf time [0..<ntouches tp1] tp1
              else Some tp1) of
          None \<Rightarrow> None
        | Some tp2 \<Rightarrow>
            if nfingers_down tp2 > ?nf \<or> r = 0
            then tp_unhover_pressure_end ?nf r time (rev [0..<ntouches tp2]) tp2
            else Some tp2) = Some tp'"
      by (simp add: tp_unhover_pressure_def split_beta Let_def cong: if_cong)
    then obtain tp2 where
      l2: "(if r > 0 then tp_unhover_pressure_begin ?nf time [0..<ntouches tp1] tp1
            else Some tp1) = Some tp2"
      and l3: "(if nfingers_down tp2 > ?nf \<or> r = 0
                then tp_unhover_pressure_end ?nf r time (rev [0..<ntouches tp2]) tp2
                else Some tp2) = Some tp'"
      by (cases "(if r > 0 then tp_unhover_pressure_begin ?nf time [0..<ntouches tp1] tp1
              else Some tp1)") simp_all
    have s1: "set [0..<ntouches tp1] \<subseteq> {..<ntouches tp1}" by auto
    have P2: "tp_inv tp2 \<and> ntouches tp2 = ntouches tp"
      using l2 P1 tp_unhover_pressure_begin_inv [of ?nf time "[0..<ntouches tp1]" tp1 tp2, OF _ _ s1]
      by (auto split: if_splits)
    have s2: "set (rev [0..<ntouches tp2]) \<subseteq> {..<ntouches tp2}" by auto
    show ?thesis
      using l3 P2
        tp_unhover_pressure_end_inv [of ?nf r time "rev [0..<ntouches tp2]" tp2 tp', OF _ _ s2]
      by (auto split: if_splits)
  qed
qed

lemma tp_unhover_size_inv:
  assumes "tp_unhover_size tp time = Some tp'" and "tp_inv tp"
  shows "tp_inv tp' \<and> ntouches tp' = ntouches tp"
proof -
  let ?P = "\<lambda>s. tp_inv s \<and> ntouches s = ntouches tp"
  have P0: "?P tp" using assms(2) by simp
  show ?thesis
    by (rule fold_option_inv [OF assms(1) [unfolded tp_unhover_size_def], where P = ?P, OF P0])
       (auto split: option.splits if_splits dest!: tp_get_touch_Some
          dest: begin_after_reset_Some tp_maybe_end_touch_Some)
qed

lemma tp_unhover_fake_touches_begin_inv:
  "tp_unhover_fake_touches_begin nf time is tp = Some tp' \<Longrightarrow> tp_inv tp \<Longrightarrow>
   set is \<subseteq> {..<ntouches tp} \<Longrightarrow> tp_inv tp' \<and> ntouches tp' = ntouches tp"
proof (induction "is" arbitrary: tp)
  case Nil
  then show ?case by simp
next
  case (Cons i "is")
  have i: "i < ntouches tp" using Cons.prems(3) by simp
  show ?case
  proof (cases "t_state (touch tp i) = TOUCH_HOVERING")
    case False
    then show ?thesis using Cons.prems Cons.IH [of tp] by simp
  next
    case True
    with Cons.prems(1) obtain tp1 where
      b: "tp_begin_touch tp i time = Some tp1"
      and rest: "(if nfingers_down tp1 \<ge> nf then Some tp1
                  else tp_unhover_fake_touches_begin nf time is tp1) = Some tp'"
      by (auto split: option.splits)
    have nd: "\<not> is_down (touch tp i)" using True by (simp add: is_down_def)
    have P1: "tp_inv tp1 \<and> ntouches tp1 = ntouches tp"
      by (rule tp_begin_touch_Some [OF b Cons.prems(2) i nd])
    show ?thesis
      using rest P1 Cons.IH [of tp1] Cons.prems(3) by (auto split: if_splits)
  qed
qed

lemma tp_unhover_fake_touches_end_inv:
  "tp_unhover_fake_touches_end nf time is tp = Some tp' \<Longrightarrow> tp_inv tp \<Longrightarrow>
   set is \<subseteq> {..<ntouches tp} \<Longrightarrow> tp_inv tp' \<and> ntouches tp' = ntouches tp"
proof (induction "is" arbitrary: tp)
  case Nil
  then show ?case by simp
next
  case (Cons i "is")
  let ?t = "touch tp i"
  have i: "i < ntouches tp" using Cons.prems(3) by simp
  then have g: "tp_get_touch tp i = Some ?t" by (simp add: tp_get_touch_def)
  show ?case
  proof (cases "t_state ?t = TOUCH_HOVERING \<or> t_state ?t = TOUCH_NONE")
    case True
    then show ?thesis using Cons.prems Cons.IH [of tp] g by simp
  next
    case False
    with Cons.prems(1) g obtain tp1 where
      e: "tp_maybe_end_touch tp i time = Some tp1"
      and rest: "(if tp_fake_finger_is_touching tp1 \<and> nfingers_down tp1 = nf then Some tp1
                  else tp_unhover_fake_touches_end nf time is tp1) = Some tp'"
      by (auto split: option.splits)
    have P1: "tp_inv tp1 \<and> ntouches tp1 = ntouches tp"
      by (rule tp_maybe_end_touch_Some [OF e Cons.prems(2) i])
    show ?thesis
      using rest P1 Cons.IH [of tp1] Cons.prems(3) by (auto split: if_splits)
  qed
qed

lemma tp_unhover_fake_touches_inv:
  assumes "tp_unhover_fake_touches tp time = Some tp'" and "tp_inv tp"
  shows "tp_inv tp' \<and> ntouches tp' = ntouches tp"
proof -
  let ?tp = "snd (tp_fake_finger_count tp)"
  let ?nf = "fst (tp_fake_finger_count tp)"
  have P0: "tp_inv ?tp \<and> ntouches ?tp = ntouches tp" using assms(2) by simp
  consider (early) "tp' = tp \<or> tp' = ?tp"
    | (loops) tp1 where
        "(if tp_fake_finger_is_touching ?tp \<and> nfingers_down ?tp < ?nf
          then tp_unhover_fake_touches_begin ?nf time [0..<ntouches ?tp] ?tp
          else Some ?tp) = Some tp1"
        "(if nfingers_down tp1 > ?nf \<or> \<not> tp_fake_finger_is_touching tp1
          then tp_unhover_fake_touches_end ?nf time (rev [0..<ntouches tp1]) tp1
          else Some tp1) = Some tp'"
    using assms(1)
    by (auto simp: tp_unhover_fake_touches_def split_beta Let_def
        split: if_splits option.splits)
  then show ?thesis
  proof cases
    case early
    then show ?thesis using assms(2) P0 by auto
  next
    case loops
    have s1: "set [0..<ntouches ?tp] \<subseteq> {..<ntouches ?tp}" by auto
    have P1: "tp_inv tp1 \<and> ntouches tp1 = ntouches tp"
      using loops(1) P0
        tp_unhover_fake_touches_begin_inv [of ?nf time "[0..<ntouches ?tp]" ?tp tp1, OF _ _ s1]
      by (auto split: if_splits)
    have s2: "set (rev [0..<ntouches tp1]) \<subseteq> {..<ntouches tp1}" by auto
    show ?thesis
      using loops(2) P1
        tp_unhover_fake_touches_end_inv [of ?nf time "rev [0..<ntouches tp1]" tp1 tp', OF _ _ s2]
      by (auto split: if_splits)
  qed
qed

lemma tp_unhover_touches_inv:
  "tp_unhover_touches tp time = Some tp' \<Longrightarrow> tp_inv tp \<Longrightarrow>
     tp_inv tp' \<and> ntouches tp' = ntouches tp"
  by (auto simp: tp_unhover_touches_def split: if_splits
      dest: tp_unhover_pressure_inv tp_unhover_size_inv tp_unhover_fake_touches_inv)

subsection \<open>Steps that keep the shape\<close>

lemma touch_kept_refl [simp]: "touch_kept t t"
  by (simp add: touch_kept_def)

lemma touch_kept_trans: "touch_kept a b \<Longrightarrow> touch_kept b c \<Longrightarrow> touch_kept a c"
  by (simp add: touch_kept_def)

lemma same_shape_refl [simp]: "same_shape tp tp"
  by (simp add: same_shape_def)

lemma same_shape_trans: "same_shape a b \<Longrightarrow> same_shape b c \<Longrightarrow> same_shape a c"
  by (auto simp: same_shape_def intro: touch_kept_trans)

lemma same_shape_set_touch:
  "touch_kept (touch tp i) t \<Longrightarrow> same_shape tp (set_touch tp i t)"
  by (cases "i < length (touches tp)")
     (auto simp: same_shape_def touch_def nth_list_update list_update_beyond not_less)

lemma same_shape_fields:
  "touches tp' = touches tp \<Longrightarrow> ntouches tp' = ntouches tp \<Longrightarrow> num_slots tp' = num_slots tp \<Longrightarrow>
   nfingers_down tp' = nfingers_down tp \<Longrightarrow> same_shape tp tp'"
  by (simp add: same_shape_def)

lemma same_shape_add_trace [simp]: "same_shape tp (add_trace cs tp)"
  by (simp add: same_shape_fields)

lemma same_shape_fake_finger_count [simp]: "same_shape tp (snd (tp_fake_finger_count tp))"
  by (simp add: same_shape_fields)

lemma fingers_down_pointwise:
  assumes "length ts' = length ts" and "\<forall>i<length ts. is_down (ts' ! i) = is_down (ts ! i)"
  shows "fingers_down ts' = fingers_down ts"
proof -
  have "map is_down ts' = map is_down ts"
    using assms by (auto intro: nth_equalityI)
  moreover have "\<And>xs. fingers_down xs = length (filter (\<lambda>b. b) (map is_down xs))"
    by (simp add: fingers_down_def filter_map comp_def)
  ultimately show ?thesis by metis
qed

lemma same_shape_inv:
  assumes "tp_inv tp" and "same_shape tp tp'"
  shows "tp_inv tp'"
proof -
  from assms(2) have len: "length (touches tp') = length (touches tp)"
    and k: "\<forall>i<length (touches tp). touch_kept (touches tp ! i) (touches tp' ! i)"
    and f: "ntouches tp' = ntouches tp" "num_slots tp' = num_slots tp"
      "nfingers_down tp' = nfingers_down tp"
    by (simp_all add: same_shape_def)
  have "fingers_down (touches tp') = fingers_down (touches tp)"
    by (rule fingers_down_pointwise [OF len]) (use k in \<open>simp add: touch_kept_def is_down_def\<close>)
  moreover have "list_all (\<lambda>t. t_state t = TOUCH_BEGIN \<longrightarrow> t_dirty t) (touches tp')"
    using assms(1) k len
    by (auto simp: tp_inv_def nfingers_inv_def list_all_length touch_kept_def)
  ultimately show ?thesis
    using assms(1) len f by (auto simp: tp_inv_def nfingers_inv_def tp_wf_def)
qed

lemma same_shape_ntouches: "same_shape tp tp' \<Longrightarrow> ntouches tp' = ntouches tp"
  by (simp add: same_shape_def)

lemma same_shape_touch_state:
  "same_shape tp tp' \<Longrightarrow> i < length (touches tp) \<Longrightarrow> t_state (touch tp' i) = t_state (touch tp i)"
  by (simp add: same_shape_def touch_def touch_kept_def)

lemma same_shape_for_each:
  assumes "\<And>t. touch_kept t (f t)"
  shows "same_shape tp (tp_for_each_touch f tp)"
proof -
  have "\<And>i. i < length (touches tp) \<Longrightarrow>
          touch_kept (touches tp ! i)
            ((map f (take (ntouches tp) (touches tp)) @ drop (ntouches tp) (touches tp)) ! i)"
    using assms by (simp add: nth_append)
  then show ?thesis
    by (simp add: same_shape_def tp_for_each_touch_def)
qed

lemma fold_inv:
  assumes "P s" and "\<And>a s. a \<in> set as \<Longrightarrow> P s \<Longrightarrow> P (f a s)"
  shows "P (fold f as s)"
  using assms by (induction as arbitrary: s) auto

lemma touch_kept_fix_last: "touch_kept t (tp_motion_history_fix_last t j n time)"
proof -
  have "touch_kept t (fold (\<lambda>i t'. t'\<lparr>t_history_samples :=
                   (t_history_samples t')[tp_motion_history_offset t' i :=
                      (history_sample t' i)
                        \<lparr>hp_time := time - ucast j - ucast (n * of_nat i)\<rparr>]\<rparr>) is t)" for "is"
    by (rule fold_inv) (simp_all add: touch_kept_def)
  then show ?thesis by (simp add: tp_motion_history_fix_last_def)
qed

lemma same_shape_msc_timestamp: "same_shape tp (tp_process_msc_timestamp tp time)"
proof -
  let ?f = "\<lambda>t. tp_motion_history_fix_last t
                  (quirks_msc_timestamp_now tp - quirks_msc_timestamp_interval tp)
                  (quirks_msc_timestamp_interval tp) time"
  have a: "same_shape tp (tp_for_each_touch ?f tp)"
    by (rule same_shape_for_each) (rule touch_kept_fix_last)
  have b: "same_shape (tp_for_each_touch ?f tp)
             (add_trace cs ((tp_for_each_touch ?f tp)
                \<lparr>quirks_msc_timestamp_state := JUMP_STATE_IGNORE\<rparr>))" for cs
    by (simp add: same_shape_fields)
  show ?thesis
    using same_shape_trans [OF a b]
    by (auto simp: tp_process_msc_timestamp_def Let_def same_shape_fields
        split: tp_jump_state.splits)
qed

lemma tp_pre_process_state_inv:
  assumes "tp_pre_process_state tp time = Some tp'" and "tp_inv tp"
  shows "tp_inv tp' \<and> ntouches tp' = ntouches tp"
proof -
  let ?tp1 = "if queued tp AND TOUCHPAD_EVENT_TIMESTAMP \<noteq> 0
              then tp_process_msc_timestamp tp time else tp"
  let ?body = "\<lambda>i tp.
                 let tpa = (if t_state (touch tp i) = TOUCH_MAYBE_END
                            then tp_end_touch tp i time else tp);
                     t = touch tpa i
                 in if t_state t = TOUCH_END \<and> t_history_count t > 0
                    then set_touch tpa i (t\<lparr>t_point := hp_point (history_sample t 0)\<rparr>)
                    else tpa"
  let ?P = "\<lambda>s. tp_inv s \<and> ntouches s = ntouches tp"
  have s1: "same_shape tp ?tp1" by (simp add: same_shape_msc_timestamp)
  have P1: "?P ?tp1"
    using same_shape_inv [OF assms(2) s1] same_shape_ntouches [OF s1] by simp
  from assms(1) obtain tp2 tp3 where
    a: "tp_process_fake_touches ?tp1 time = Some tp2"
    and b: "tp_unhover_touches tp2 time = Some tp3"
    and c: "tp' = fold ?body [0..<ntouches tp3] tp3"
    by (auto simp: tp_pre_process_state_def split: option.splits)
  have P2: "?P tp2" using tp_process_fake_touches_inv [OF a] P1 by simp
  have P3: "?P tp3" using tp_unhover_touches_inv [OF b] P2 by simp
  have step: "?P (?body i s)" if "i \<in> set [0..<ntouches tp3]" "?P s" for i s
  proof -
    let ?tpa = "if t_state (touch s i) = TOUCH_MAYBE_END then tp_end_touch s i time else s"
    have "ntouches s = length (touches s)" using that(2) by (auto dest: tp_inv_length)
    then have i: "i < length (touches s)" using that P3 by simp
    have Pa: "?P ?tpa" using that(2) i by (simp add: tp_end_touch_inv)
    have "tp_inv (set_touch ?tpa i
            ((touch ?tpa i)\<lparr>t_point := hp_point (history_sample (touch ?tpa i) 0)\<rparr>))"
      by (rule tp_inv_set_touch_keep) (use Pa in simp_all)
    then show ?thesis using Pa by (simp add: Let_def)
  qed
  have "?P (fold ?body [0..<ntouches tp3] tp3)"
    by (rule fold_inv [where P = ?P, OF P3 step])
  then show ?thesis using c by simp
qed

lemma touch_kept_simps [simp]:
  "touch_kept t (tp_motion_history_reset t)"
  "touch_kept t (tp_motion_history_push t)"
  "touch_kept t (tp_motion_hysteresis ext tp t)"
  "touch_kept t (tp_calculate_motion_speed tp t)"
  "touch_kept t (tp_unpin_finger tp t)"
  "touch_kept t (snd (tp_detect_jumps tp t time))"
  by (simp_all add: touch_kept_def tp_motion_history_reset_def tp_motion_history_push_def
      tp_motion_hysteresis_def tp_calculate_motion_speed_def tp_unpin_finger_def
      tp_detect_jumps_def Let_def)

lemma touch_kept_palm_rules [simp]:
  "touch_kept t (snd (tp_palm_detect_pressure_triggered tp t time))"
  "touch_kept t (snd (tp_palm_detect_arbitration_triggered tp t time))"
  "touch_kept t (snd (tp_palm_detect_dwt_triggered tp t time))"
  "touch_kept t (snd (tp_palm_detect_trackpoint_triggered tp t time))"
  "touch_kept t (snd (tp_palm_detect_tool_triggered tp t time))"
  "touch_kept t (snd (tp_palm_detect_touch_size_triggered tp t time))"
  "touch_kept t (snd (tp_palm_detect_edge ext tp i t time))"
  by (simp_all add: touch_kept_def tp_palm_detect_pressure_triggered_def
      tp_palm_detect_arbitration_triggered_def tp_palm_detect_dwt_triggered_def
      tp_palm_detect_trackpoint_triggered_def tp_palm_detect_tool_triggered_def
      tp_palm_detect_touch_size_triggered_def tp_palm_detect_edge_def Let_def)

lemma touch_kept_palm_detect_rules: "touch_kept t (snd (tp_palm_detect_rules ext tp i t time))"
proof -
  let ?t1 = "snd (tp_palm_detect_pressure_triggered tp t time)"
  let ?t2 = "snd (tp_palm_detect_arbitration_triggered tp ?t1 time)"
  let ?t3 = "snd (tp_palm_detect_dwt_triggered tp ?t2 time)"
  let ?t4 = "snd (tp_palm_detect_trackpoint_triggered tp ?t3 time)"
  let ?t5 = "snd (tp_palm_detect_tool_triggered tp ?t4 time)"
  let ?t6 = "snd (tp_palm_detect_touch_size_triggered tp ?t5 time)"
  let ?t7 = "snd (tp_palm_detect_edge ext tp i ?t6 time)"
  let ?t8 = "snd (tp_palm_detect_pressure_triggered tp ?t7 time)"
  have k1: "touch_kept t ?t1" by simp
  have k2: "touch_kept t ?t2" by (rule touch_kept_trans [OF k1]) simp
  have k3: "touch_kept t ?t3" by (rule touch_kept_trans [OF k2]) simp
  have k4: "touch_kept t ?t4" by (rule touch_kept_trans [OF k3]) simp
  have k5: "touch_kept t ?t5" by (rule touch_kept_trans [OF k4]) simp
  have k6: "touch_kept t ?t6" by (rule touch_kept_trans [OF k5]) simp
  have k7: "touch_kept t ?t7" by (rule touch_kept_trans [OF k6]) simp
  have k8: "touch_kept t ?t8" by (rule touch_kept_trans [OF k7]) simp
  have "snd (tp_palm_detect_rules ext tp i t time) \<in> {?t1, ?t2, ?t3, ?t4, ?t5, ?t6, ?t7, ?t8}"
    by (simp add: tp_palm_detect_rules_def split_beta Let_def)
  then show ?thesis using k1 k2 k3 k4 k5 k6 k7 k8 by auto
qed

lemma same_shape_palm_detect:
  "tp_palm_detect ext tp i time = Some tp' \<Longrightarrow> same_shape tp tp'"
  by (auto simp: tp_palm_detect_def split_beta Let_def split: if_splits
      intro!: same_shape_set_touch touch_kept_palm_detect_rules)

lemma same_shape_if:
  "same_shape tp a \<Longrightarrow> same_shape tp b \<Longrightarrow> same_shape tp (if c then a else b)"
  by simp

lemma same_shape_thumb_detect_others: "same_shape tp (tp_thumb_detect_others tp i js)"
proof (induction js)
  case Nil
  then show ?case by simp
next
  case (Cons j js)
  let ?tp1 = "set_touch tp i ((touch tp i)\<lparr>t_thumb_state := THUMB_STATE_NO\<rparr>)"
  have a: "same_shape tp ?tp1"
    by (rule same_shape_set_touch) (simp add: touch_kept_def)
  have b: "same_shape ?tp1 (set_touch ?tp1 j ((touch ?tp1 j)\<lparr>t_thumb_state := THUMB_STATE_NO\<rparr>))"
    by (rule same_shape_set_touch) (simp add: touch_kept_def)
  show ?case
    using Cons.IH a same_shape_trans [OF a b] by (simp add: Let_def)
qed

lemma same_shape_thumb_detect: "same_shape tp (tp_thumb_detect tp i time)"
proof -
  let ?t = "touch tp i"
  let ?tp1 = "if t_state ?t = TOUCH_BEGIN
              then set_touch tp i (?t\<lparr>t_thumb_initial := t_point ?t\<rparr>) else tp"
  let ?tp2 = "if dc_y (t_point ?t) > thumb_upper_thumb_line tp \<and> nfingers_down tp > 1
              then tp_thumb_detect_others ?tp1 i [0..<ntouches tp] else ?tp1"
  let ?tp3 = "set_touch ?tp2 i ((touch ?tp2 i)\<lparr>t_thumb_state := THUMB_STATE_YES\<rparr>)"
  have no: "same_shape tp (set_touch tp i (?t\<lparr>t_thumb_state := THUMB_STATE_NO\<rparr>))"
    by (rule same_shape_set_touch) (simp add: touch_kept_def)
  have s1: "same_shape tp ?tp1"
    by (auto intro!: same_shape_set_touch simp: touch_kept_def)
  have s12: "same_shape ?tp1 ?tp2"
    by (simp add: same_shape_thumb_detect_others)
  have s2: "same_shape tp ?tp2"
    by (rule same_shape_trans [OF s1 s12])
  have s23: "same_shape ?tp2 ?tp3"
    by (rule same_shape_set_touch) (simp add: touch_kept_def)
  have s3: "same_shape tp ?tp3"
    by (rule same_shape_trans [OF s2 s23])
  show ?thesis
    unfolding tp_thumb_detect_def Let_def
    by (intro same_shape_if no s2 s3 same_shape_refl)
qed

lemma same_shape_detect_wobbling: "same_shape tp (tp_detect_wobbling tp i time)"
proof -
  have a: "same_shape tp (set_touch tp' i t')"
    if "touches tp' = touches tp \<and> ntouches tp' = ntouches tp \<and> num_slots tp' = num_slots tp \<and>
      nfingers_down tp' = nfingers_down tp" "touch_kept (touch tp i) t'" for tp' t'
  proof -
    have "same_shape tp tp'" using that by (simp add: same_shape_fields)
    moreover have "same_shape tp' (set_touch tp' i t')"
      by (rule same_shape_set_touch) (use that in \<open>simp add: touch_def\<close>)
    ultimately show ?thesis by (rule same_shape_trans)
  qed
  show ?thesis
    unfolding tp_detect_wobbling_def Let_def
    by (intro same_shape_if same_shape_refl a) (simp_all add: touch_kept_def)
qed

lemma same_shape_detect_thumb_while_moving:
  "tp_detect_thumb_while_moving tp = Some tp' \<Longrightarrow> same_shape tp tp'"
  by (auto simp: tp_detect_thumb_while_moving_def Let_def touch_kept_def
      split: prod.splits option.splits if_splits intro!: same_shape_set_touch)

lemma same_shape_pin_fingers: "same_shape tp (tp_pin_fingers tp)"
  unfolding tp_pin_fingers_def
  by (rule same_shape_for_each) (simp add: touch_kept_def)

lemma fold_option_same_shape:
  assumes "fold_option f as s = Some s'"
    and "\<And>a s s'. f a s = Some s' \<Longrightarrow> same_shape s s'"
  shows "same_shape s s'"
  using assms(1)
proof (induction as arbitrary: s)
  case Nil
  then show ?case by simp
next
  case (Cons a as)
  from Cons.prems obtain s1 where s1: "f a s = Some s1" "fold_option f as s1 = Some s'"
    by (auto split: option.splits)
  show ?case
    by (rule same_shape_trans [OF assms(2) [OF s1(1)] Cons.IH [OF s1(2)]])
qed

lemma same_shape_position_fake_touches:
  assumes "tp_position_fake_touches tp = Some tp'"
  shows "same_shape tp tp'"
proof -
  let ?tp = "snd (tp_fake_finger_count tp)"
  have s0: "same_shape tp ?tp" by simp
  consider (early) "tp' = ?tp \<or> tp' = add_trace [Log_bug_libinput_no_topmost_touch] ?tp"
    | (copy) topmost where
        "fold_option
            (\<lambda>i tp. case tp_get_touch tp i of
                       None \<Rightarrow> None
                     | Some t \<Rightarrow>
                         if t_state t = TOUCH_NONE then Some tp
                         else Some (set_touch tp i
                                (t\<lparr>t_point := t_point (touch tp topmost),
                                   t_pressure := t_pressure (touch tp topmost),
                                   t_dirty := (if \<not> t_dirty t then t_dirty (touch tp topmost)
                                               else t_dirty t)\<rparr>)))
            [(if has_mt ?tp then num_slots ?tp else 1)..<ntouches ?tp] ?tp = Some tp'"
    using assms
    by (auto simp: tp_position_fake_touches_def split_beta Let_def
        split: if_splits option.splits)
  then show ?thesis
  proof cases
    case early
    then show ?thesis
      using s0 same_shape_trans [OF s0 same_shape_add_trace] by auto
  next
    case copy
    have "same_shape ?tp tp'"
      by (rule fold_option_same_shape [OF copy])
         (auto split: option.splits if_splits dest!: tp_get_touch_Some
            intro!: same_shape_set_touch simp: touch_kept_def)
    then show ?thesis by (rule same_shape_trans [OF s0])
  qed
qed

lemma same_shape_need_motion_history_reset:
  "same_shape tp (snd (tp_need_motion_history_reset tp))"
  by (simp add: tp_need_motion_history_reset_def split_beta Let_def same_shape_fields)

subsection \<open>The frame keeps the invariant\<close>

lemma same_shape_process_state_touch:
  assumes "tp_process_state_touch ext want time i (tp, rf, hn, sp) = Some (tp', rf', hn', sp')"
  shows "same_shape tp tp'"
proof (cases "t_state (touch tp i) = TOUCH_NONE")
  case True
  then show ?thesis using assms by (simp add: tp_process_state_touch_def Let_def)
next
  case False
  let ?t = "touch tp i"
  let ?t1 = "if want
             then (tp_motion_history_reset ?t)\<lparr>t_quirks_reset_motion_history := True\<rparr>
             else if t_quirks_reset_motion_history ?t
             then (tp_motion_history_reset ?t)\<lparr>t_quirks_reset_motion_history := False\<rparr>
             else ?t"
  have k1: "touch_kept ?t ?t1"
    by (simp add: touch_kept_def tp_motion_history_reset_def)
  show ?thesis
  proof (cases "t_dirty ?t1")
    case nd: False
    let ?t2 = "if t_speed_exceeded_count ?t1 > 0
               then ?t1\<lparr>t_speed_exceeded_count := t_speed_exceeded_count ?t1 - 1\<rparr>
               else ?t1"
    have "touch_kept ?t1 ?t2" by (simp add: touch_kept_def)
    then have k2: "touch_kept ?t ?t2" by (rule touch_kept_trans [OF k1])
    have "tp' = set_touch tp i ?t2"
      using assms False nd by (simp add: tp_process_state_touch_def Let_def)
    then show ?thesis using k2 by (simp add: same_shape_set_touch)
  next
    case d: True
    let ?t2 = "snd (tp_detect_jumps tp ?t1 time)"
    let ?j = "fst (tp_detect_jumps tp ?t1 time)"
    let ?tp1 = "if ?j \<and> \<not> semi_mt tp then add_trace [Log_bug_kernel_touch_jump] tp else tp"
    let ?t3 = "if ?j then tp_motion_history_reset ?t2 else ?t2"
    let ?tp2 = "tp_thumb_detect (set_touch ?tp1 i ?t3) i time"
    from assms False d obtain tp3 where
      p: "tp_palm_detect ext ?tp2 i time = Some tp3"
      and r: "tp' = set_touch (tp_detect_wobbling tp3 i time) i
                (tp_unpin_finger (tp_detect_wobbling tp3 i time)
                  (tp_calculate_motion_speed (tp_detect_wobbling tp3 i time)
                    (let t5 = tp_motion_history_push
                                (tp_motion_hysteresis ext (tp_detect_wobbling tp3 i time)
                                   (touch (tp_detect_wobbling tp3 i time) i))
                     in if t_speed_last_speed t5 > THUMB_IGNORE_SPEED_THRESHOLD
                        then (if t_speed_exceeded_count t5 < 10
                              then t5\<lparr>t_speed_exceeded_count := t_speed_exceeded_count t5 + 1\<rparr>
                              else t5)
                        else if t_speed_exceeded_count t5 > 0
                        then t5\<lparr>t_speed_exceeded_count := t_speed_exceeded_count t5 - 1\<rparr>
                        else t5)))"
      by (simp add: tp_process_state_touch_def Let_def split_beta split: option.splits
          cong: if_cong)
    let ?tp4 = "tp_detect_wobbling tp3 i time"
    have "touch_kept ?t1 ?t3"
      by (auto intro: touch_kept_trans [OF touch_kept_simps(6) touch_kept_simps(1)])
    then have k3: "touch_kept ?t ?t3" by (rule touch_kept_trans [OF k1])
    have a: "same_shape tp ?tp1" by simp
    have e1: "touch ?tp1 i = ?t" by simp
    have "touch_kept (touch ?tp1 i) ?t3" unfolding e1 by (rule k3)
    then have b: "same_shape ?tp1 (set_touch ?tp1 i ?t3)" by (rule same_shape_set_touch)
    have c: "same_shape (set_touch ?tp1 i ?t3) ?tp2" by (rule same_shape_thumb_detect)
    have dd: "same_shape ?tp2 tp3" by (rule same_shape_palm_detect [OF p])
    have e: "same_shape tp3 ?tp4" by (rule same_shape_detect_wobbling)
    have s4: "same_shape tp ?tp4"
      by (rule same_shape_trans [OF a same_shape_trans [OF b same_shape_trans
            [OF c same_shape_trans [OF dd e]]]])
    have "touch_kept (touch ?tp4 i) t" if "t = t5 \<or> t_state t = t_state t5 \<and> t_dirty t = t_dirty t5"
      and "touch_kept (touch ?tp4 i) t5" for t t5
      using that by (auto simp: touch_kept_def)
    have k5: "touch_kept (touch ?tp4 i)
                (tp_motion_history_push (tp_motion_hysteresis ext ?tp4 (touch ?tp4 i)))"
      by (rule touch_kept_trans [OF touch_kept_simps(3) touch_kept_simps(2)])
    have k6: "touch_kept t5
                (if t_speed_last_speed t5 > THUMB_IGNORE_SPEED_THRESHOLD
                        then (if t_speed_exceeded_count t5 < 10
                              then t5\<lparr>t_speed_exceeded_count := t_speed_exceeded_count t5 + 1\<rparr>
                              else t5)
                        else if t_speed_exceeded_count t5 > 0
                        then t5\<lparr>t_speed_exceeded_count := t_speed_exceeded_count t5 - 1\<rparr>
                        else t5)" for t5
      by (simp add: touch_kept_def)
    have k7: "touch_kept t6 (tp_unpin_finger ?tp4 (tp_calculate_motion_speed ?tp4 t6))" for t6
      by (rule touch_kept_trans [OF touch_kept_simps(4) touch_kept_simps(5)])
    have "same_shape ?tp4 tp'"
      unfolding r Let_def
      by (rule same_shape_set_touch)
         (rule touch_kept_trans [OF k5 touch_kept_trans [OF k6 k7]])
    then show ?thesis by (rule same_shape_trans [OF s4])
  qed
qed

lemma same_shape_process_state_touches:
  "fold_option (tp_process_state_touch ext want time) is acc = Some acc' \<Longrightarrow>
     same_shape (fst acc) (fst acc')"
proof (induction "is" arbitrary: acc)
  case Nil
  then show ?case by simp
next
  case (Cons i "is")
  from Cons.prems obtain acc1 where
    a: "tp_process_state_touch ext want time i acc = Some acc1"
    and b: "fold_option (tp_process_state_touch ext want time) is acc1 = Some acc'"
    by (auto split: option.splits)
  have "same_shape (fst acc) (fst acc1)"
    using a same_shape_process_state_touch
    by (cases acc; cases acc1) fastforce
  then show ?case using Cons.IH [OF b] by (rule same_shape_trans)
qed

lemma same_shape_add_traceI: "same_shape tp tp' \<Longrightarrow> same_shape tp (add_trace cs tp')"
  by (erule same_shape_trans) simp

lemma same_shape_pin_fingersI: "same_shape tp tp' \<Longrightarrow> same_shape tp (tp_pin_fingers tp')"
  by (erule same_shape_trans) (rule same_shape_pin_fingers)

lemma same_shape_process_state:
  assumes "tp_process_state ext tp time = Some tp'"
  shows "same_shape tp tp'"
proof -
  from assms obtain tp0 where a: "tp_position_fake_touches tp = Some tp0"
    by (auto simp: tp_process_state_def split: option.splits)
  let ?want = "fst (tp_need_motion_history_reset tp0)"
  let ?tp1 = "snd (tp_need_motion_history_reset tp0)"
  from assms a obtain tp2 rf hn sp where
    b: "fold_option (tp_process_state_touch ext ?want time) [0..<ntouches ?tp1]
          (?tp1, False, False, 0) = Some (tp2, rf, hn, sp)"
    by (auto simp: tp_process_state_def split_beta split: option.splits)
  have s0: "same_shape tp tp0" by (rule same_shape_position_fake_touches [OF a])
  have s1: "same_shape tp0 ?tp1" by (rule same_shape_need_motion_history_reset)
  have s2: "same_shape ?tp1 tp2" using same_shape_process_state_touches [OF b] by simp
  have s02: "same_shape tp tp2"
    by (rule same_shape_trans [OF s0 same_shape_trans [OF s1 s2]])
  show ?thesis
    using assms a b s02
    by (auto simp: tp_process_state_def split_beta Let_def split: option.splits if_splits
        dest!: same_shape_detect_thumb_while_moving
        intro!: same_shape_add_traceI same_shape_pin_fingersI
        intro: same_shape_trans [OF s02])
qed

lemma same_shape_post_events: "same_shape tp (tp_post_events ext tp time)"
proof -
  have "same_shape tp (add_trace cs (add_trace ds tp))" for cs ds
    by (simp add: same_shape_fields)
  then show ?thesis
    by (simp add: tp_post_events_def Let_def)
qed

text \<open>
  \<^verbatim>\<open>tp_post_process_state\<close> commits the states: a touch that is down stays down, and
  afterwards no touch is dirty, hence none is in \<^verbatim>\<open>TOUCH_BEGIN\<close>.
\<close>

lemma tp_post_process_state_inv:
  assumes "tp_inv tp"
  shows "tp_inv (tp_post_process_state tp time) \<and>
         ntouches (tp_post_process_state tp time) = ntouches tp \<and>
         list_all (\<lambda>t. t_state t \<noteq> TOUCH_BEGIN) (touches (tp_post_process_state tp time))"
proof -
  let ?f = "\<lambda>t. if \<not> t_dirty t then t
                else (if t_state t = TOUCH_END
                      then (if t_has_ended t then t\<lparr>t_state := TOUCH_NONE\<rparr>
                            else t\<lparr>t_state := TOUCH_HOVERING\<rparr>)
                      else if t_state t = TOUCH_BEGIN then t\<lparr>t_state := TOUCH_UPDATE\<rparr>
                      else t)\<lparr>t_dirty := False\<rparr>"
  let ?tp' = "tp_post_process_state tp time"
  have len: "ntouches tp = length (touches tp)" using assms by (rule tp_inv_length)
  have ts: "touches ?tp' = map ?f (touches tp)"
    by (simp add: tp_post_process_state_def tp_for_each_touch_def len)
  have fields: "ntouches ?tp' = ntouches tp" "num_slots ?tp' = num_slots tp"
    "nfingers_down ?tp' = nfingers_down tp"
    by (simp_all add: tp_post_process_state_def tp_for_each_touch_def)
  have down: "is_down (?f t) = is_down t" for t
    by (simp add: is_down_def)
  have cnt: "fingers_down (touches ?tp') = fingers_down (touches tp)"
    by (rule fingers_down_pointwise) (simp_all add: ts down del: if_split)
  have d: "list_all (\<lambda>t. t_state t = TOUCH_BEGIN \<longrightarrow> t_dirty t) (touches tp)"
    using assms by (simp add: tp_inv_def nfingers_inv_def)
  have nb: "list_all (\<lambda>t. t_state t \<noteq> TOUCH_BEGIN) (touches ?tp')"
    using d by (auto simp: ts list_all_iff split: if_splits)
  then have d': "list_all (\<lambda>t. t_state t = TOUCH_BEGIN \<longrightarrow> t_dirty t) (touches ?tp')"
    by (auto simp: list_all_iff)
  have "tp_inv ?tp'"
    using assms cnt d' fields ts by (auto simp: tp_inv_def tp_wf_def nfingers_inv_def)
  then show ?thesis using fields nb by simp
qed

lemma tp_handle_state_inv:
  assumes "tp_handle_state ext tp time = Some tp'" and "tp_inv tp"
  shows "tp_inv tp' \<and> ntouches tp' = ntouches tp \<and>
         list_all (\<lambda>t. t_state t \<noteq> TOUCH_BEGIN) (touches tp')"
proof -
  from assms(1) obtain tp1 tp2 where
    a: "tp_pre_process_state tp time = Some tp1"
    and b: "tp_process_state ext tp1 time = Some tp2"
    and c: "tp' = add_trace [Clickpad_middlebutton_apply_config]
              (tp_post_process_state (tp_post_events ext tp2 time) time)"
    by (auto simp: tp_handle_state_def split: option.splits)
  have P1: "tp_inv tp1 \<and> ntouches tp1 = ntouches tp"
    by (rule tp_pre_process_state_inv [OF a assms(2)])
  have s: "same_shape tp1 (tp_post_events ext tp2 time)"
    by (rule same_shape_trans [OF same_shape_process_state [OF b] same_shape_post_events])
  have P3: "tp_inv (tp_post_events ext tp2 time)"
    using P1 s by (auto intro: same_shape_inv)
  have n3: "ntouches (tp_post_events ext tp2 time) = ntouches tp"
    using P1 same_shape_ntouches [OF s] by simp
  show ?thesis
    using tp_post_process_state_inv [OF P3, of time] n3 by (simp add: c)
qed

subsection \<open>Every input keeps the invariant\<close>

lemma same_shape_set_touch_fields:
  assumes "touches tp0 = touches tp" and "ntouches tp0 = ntouches tp"
    and "num_slots tp0 = num_slots tp" and "nfingers_down tp0 = nfingers_down tp"
    and "touch_kept (touch tp i) t"
  shows "same_shape tp (set_touch tp0 i t)"
proof -
  have "same_shape tp tp0" using assms(1-4) by (simp add: same_shape_fields)
  moreover have "same_shape tp0 (set_touch tp0 i t)"
    by (rule same_shape_set_touch) (use assms in \<open>simp add: touch_def\<close>)
  ultimately show ?thesis by (rule same_shape_trans)
qed

lemma same_shape_Some:
  "same_shape tp tp' \<Longrightarrow> tp_inv tp \<Longrightarrow> tp_inv tp' \<and> ntouches tp' = ntouches tp"
  by (simp add: same_shape_inv same_shape_ntouches)

lemma tp_current_touch_less: "tp_inv tp \<Longrightarrow> tp_current_touch tp < ntouches tp"
proof -
  assume "tp_inv tp"
  then have "0 < ntouches tp" unfolding tp_inv_def tp_wf_def by blast
  then show ?thesis unfolding tp_current_touch_def by arith
qed

lemma tp_process_absolute_inv:
  assumes "tp_process_absolute tp e time = Some tp'" and "tp_inv tp"
  shows "tp_inv tp' \<and> ntouches tp' = ntouches tp"
proof (cases "ev_code e = ABS_MT_TRACKING_ID")
  case True
  then have c: "ev_code e \<noteq> ABS_MT_POSITION_X" "ev_code e \<noteq> ABS_MT_POSITION_Y"
    "ev_code e \<noteq> ABS_MT_SLOT"
    by (simp_all add: ABS_MT_TRACKING_ID_def ABS_MT_POSITION_X_def ABS_MT_POSITION_Y_def
        ABS_MT_SLOT_def)
  show ?thesis
    using assms True c tp_current_touch_less [OF assms(2)]
    by (auto simp: tp_process_absolute_def Let_def split: if_splits
        dest: tp_end_sequence_Some intro: tp_new_touch_Some)
next
  case False
  have "same_shape tp tp'"
    using assms(1) False
    by (auto simp: tp_process_absolute_def Let_def touch_kept_def same_shape_fields
        split: if_splits option.splits intro!: same_shape_set_touch_fields)
  then show ?thesis using assms(2) by (rule same_shape_Some)
qed

lemma tp_process_absolute_st_inv:
  assumes "tp_process_absolute_st tp e time = Some tp'" and "tp_inv tp"
  shows "tp_inv tp' \<and> ntouches tp' = ntouches tp"
proof -
  have "same_shape tp tp'"
    using assms(1)
    by (auto simp: tp_process_absolute_st_def Let_def touch_kept_def same_shape_fields
        split: if_splits option.splits intro!: same_shape_set_touch_fields)
  then show ?thesis using assms(2) by (rule same_shape_Some)
qed

lemma same_shape_fake_finger_set: "same_shape tp (tp_fake_finger_set tp code is_press)"
  by (simp add: tp_fake_finger_set_def Let_def same_shape_fields)

lemma same_shape_process_key: "same_shape tp (tp_process_key ext tp e time)"
  by (simp add: tp_process_key_def Let_def same_shape_fake_finger_set same_shape_fields)

lemma same_shape_process_msc: "same_shape tp (tp_process_msc tp e time)"
  by (simp add: tp_process_msc_def same_shape_fields)

lemma no_begin_imp_update_count:
  "list_all (\<lambda>t. t_state t \<noteq> TOUCH_BEGIN) ts \<Longrightarrow>
     fingers_down ts = length (filter (\<lambda>t. t_state t = TOUCH_UPDATE) ts)"
  by (induction ts) (auto simp: fingers_down_def is_down_def)

lemma tp_interface_process_inv:
  assumes "tp_interface_process ext tp e time = Some tp'" and "tp_inv tp"
  shows "tp_inv tp' \<and> ntouches tp' = ntouches tp \<and>
         (ev_type e = EV_SYN \<longrightarrow> list_all (\<lambda>t. t_state t \<noteq> TOUCH_BEGIN) (touches tp'))"
proof -
  have neq: "EV_SYN \<noteq> EV_ABS" "EV_SYN \<noteq> EV_KEY" "EV_SYN \<noteq> EV_MSC"
    by (simp_all add: EV_SYN_def EV_ABS_def EV_KEY_def EV_MSC_def)
  show ?thesis
    using assms neq
      same_shape_Some [OF same_shape_process_key [of tp ext e time] assms(2)]
      same_shape_Some [OF same_shape_process_msc [of tp e time] assms(2)]
    by (auto simp: tp_interface_process_def split: if_splits
        dest: tp_process_absolute_inv tp_process_absolute_st_inv tp_handle_state_inv)
qed

lemma tp_clear_state_inv:
  assumes "tp_clear_state ext tp now = Some tp'" and "tp_inv tp"
  shows "tp_inv tp' \<and> ntouches tp' = ntouches tp \<and>
         list_all (\<lambda>t. t_state t \<noteq> TOUCH_BEGIN) (touches tp')"
proof -
  let ?tp0 = "add_trace [Release_all_buttons now, Release_all_taps now] tp"
  let ?P = "\<lambda>s. tp_inv s \<and> ntouches s = ntouches tp"
  from assms(1) obtain tp1 where
    a: "fold_option (\<lambda>i tp. tp_end_sequence tp i now) [0..<ntouches tp] ?tp0 = Some tp1"
    and b: "tp_handle_state ext (tp_release_fake_touches tp1) now = Some tp'"
    by (auto simp: tp_clear_state_def split: option.splits)
  have P0: "?P ?tp0" using assms(2) by simp
  have P1: "?P tp1"
    by (rule fold_option_inv [OF a, where P = ?P, OF P0])
       (auto dest: tp_end_sequence_Some)
  have s: "same_shape tp1 (tp_release_fake_touches tp1)"
    by (simp add: tp_release_fake_touches_def same_shape_fields)
  have P2: "?P (tp_release_fake_touches tp1)"
    using same_shape_Some [OF s] P1 by simp
  show ?thesis
    using tp_handle_state_inv [OF b] P2 by simp
qed

lemma tp_step_inv:
  assumes "tp_step ext tp a = Some tp'" and "tp_inv tp"
  shows "tp_inv tp' \<and>
         (ends_frame a \<longrightarrow> list_all (\<lambda>t. t_state t \<noteq> TOUCH_BEGIN) (touches tp'))"
  using assms
  by (cases a) (auto simp: ends_frame_def dest: tp_interface_process_inv tp_clear_state_inv)

lemma tp_run_inv:
  "tp_run ext tp ins = Some tp' \<Longrightarrow> tp_inv tp \<Longrightarrow>
     tp_inv tp' \<and>
     (ins \<noteq> [] \<and> ends_frame (last ins) \<longrightarrow>
        list_all (\<lambda>t. t_state t \<noteq> TOUCH_BEGIN) (touches tp'))"
proof (induction ins arbitrary: tp)
  case Nil
  then show ?case by simp
next
  case (Cons a ins)
  from Cons.prems(1) obtain tp1 where
    a: "tp_step ext tp a = Some tp1" and b: "tp_run ext tp1 ins = Some tp'"
    by (auto split: option.splits)
  have s: "tp_inv tp1 \<and>
           (ends_frame a \<longrightarrow> list_all (\<lambda>t. t_state t \<noteq> TOUCH_BEGIN) (touches tp1))"
    by (rule tp_step_inv [OF a Cons.prems(2)])
  show ?case
  proof (cases ins)
    case Nil
    then show ?thesis using s b by simp
  next
    case (Cons b' bs)
    then show ?thesis using Cons.IH [OF b] s by simp
  qed
qed

lemma tp_inv_zalloc: "0 < n \<Longrightarrow> k \<le> n \<Longrightarrow> n < 2 ^ 32 \<Longrightarrow> tp_inv (tp_zalloc k n)"
  by (simp add: tp_inv_def tp_wf_def nfingers_inv_def tp_zalloc_def fingers_down_def
      is_down_def tp_init_touch_def list_all_iff)

text \<open>
  C1: the invariant holds for the freshly allocated dispatcher and is kept by every
  input, whatever the collaborators answer; so after every run that the dispatcher
  survives, \<^verbatim>\<open>nfingers_down\<close> is the number of touches in \<^verbatim>\<open>TOUCH_BEGIN\<close> or
  \<^verbatim>\<open>TOUCH_UPDATE\<close>, and when the last input ended a frame (after
  \<^verbatim>\<open>tp_post_process_state\<close>) no touch is in \<^verbatim>\<open>TOUCH_BEGIN\<close> and the counter is the
  number of touches in \<^verbatim>\<open>TOUCH_UPDATE\<close>.
\<close>

theorem nfingers_down_counts_touches:
  assumes "tp_wf tp" and "nfingers_inv tp" and "tp_run ext tp ins = Some tp'"
  shows "tp_wf tp' \<and> nfingers_inv tp' \<and>
         nfingers_down tp' =
           length (filter (\<lambda>t. t_state t = TOUCH_BEGIN \<or> t_state t = TOUCH_UPDATE) (touches tp')) \<and>
         (ins \<noteq> [] \<and> ends_frame (last ins) \<longrightarrow>
            list_all (\<lambda>t. t_state t \<noteq> TOUCH_BEGIN) (touches tp') \<and>
            nfingers_down tp' =
              length (filter (\<lambda>t. t_state t = TOUCH_UPDATE) (touches tp')))"
proof -
  have inv: "tp_inv tp" using assms(1,2) by (simp add: tp_inv_def)
  have r: "tp_inv tp' \<and>
     (ins \<noteq> [] \<and> ends_frame (last ins) \<longrightarrow>
        list_all (\<lambda>t. t_state t \<noteq> TOUCH_BEGIN) (touches tp'))"
    by (rule tp_run_inv [OF assms(3) inv])
  then have n: "nfingers_down tp' = fingers_down (touches tp')"
    by (simp add: tp_inv_def nfingers_inv_def)
  have "fingers_down (touches tp') =
          length (filter (\<lambda>t. t_state t = TOUCH_BEGIN \<or> t_state t = TOUCH_UPDATE) (touches tp'))"
    by (simp add: fingers_down_def is_down_def [abs_def])
  then show ?thesis
    using r n no_begin_imp_update_count [of "touches tp'"] by (auto simp: tp_inv_def)
qed

lemmas ev_codes = EV_SYN_def EV_KEY_def EV_ABS_def EV_MSC_def SYN_REPORT_def MSC_TIMESTAMP_def
  ABS_X_def ABS_Y_def ABS_PRESSURE_def ABS_MT_SLOT_def ABS_MT_TOUCH_MAJOR_def
  ABS_MT_TOUCH_MINOR_def ABS_MT_POSITION_X_def ABS_MT_POSITION_Y_def ABS_MT_TOOL_TYPE_def
  ABS_MT_TRACKING_ID_def ABS_MT_PRESSURE_def BTN_0_def BTN_1_def BTN_2_def BTN_LEFT_def
  BTN_RIGHT_def BTN_MIDDLE_def

lemmas pipeline_defs =
  tp_interface_process_def tp_process_absolute_st_def tp_process_absolute_def
  tp_process_key_def tp_process_msc_def tp_handle_state_def tp_pre_process_state_def
  tp_process_fake_touches_def tp_fake_finger_count_def tp_unhover_touches_def
  tp_unhover_fake_touches_def tp_fake_finger_is_touching_def tp_begin_touch_def
  tp_new_touch_def tp_end_sequence_def tp_maybe_end_touch_def tp_end_touch_def
  tp_process_state_def tp_position_fake_touches_def tp_need_motion_history_reset_def
  tp_process_state_touch_def tp_detect_jumps_def tp_thumb_detect_def tp_palm_detect_def
  tp_palm_detect_rules_def tp_palm_detect_pressure_triggered_def
  tp_palm_detect_arbitration_triggered_def tp_palm_detect_dwt_triggered_def
  tp_palm_detect_trackpoint_triggered_def tp_palm_detect_tool_triggered_def
  tp_palm_detect_touch_size_triggered_def tp_palm_detect_edge_def
  tp_palm_detect_multifinger_def tp_palm_in_edge_def tp_palm_in_side_edge_def
  tp_palm_in_top_edge_def tp_detect_wobbling_def tp_motion_hysteresis_def
  tp_motion_history_push_def tp_calculate_motion_speed_def tp_unpin_finger_def
  tp_post_events_def tp_post_process_state_def tp_for_each_touch_def
  tp_fake_finger_set_def tp_current_touch_def rotated_def tp_get_touch_def
  tp_motion_history_reset_def touch_def set_touch_def add_trace_def
  FAKE_FINGER_OVERFLOW_def popcount_def ffs_def TOUCHPAD_HISTORY_LENGTH_def
  TOUCHPAD_EVENT_MOTION_def TOUCHPAD_EVENT_TIMESTAMP_def TOUCHPAD_EVENT_OTHERAXIS_def
  TOUCHPAD_EVENT_BUTTON_PRESS_def TOUCHPAD_EVENT_NONE_def THUMB_IGNORE_SPEED_THRESHOLD_def
  quiet_collaborators_def

theorem nfingers_down_counts_touches_witness:
  "tp_wf (tp_zalloc 1 1) \<and> nfingers_inv (tp_zalloc 1 1)
   \<and> finger_down_frame \<noteq> [] \<and> ends_frame (last finger_down_frame)
   \<and> map_option (\<lambda>tp. (nfingers_down tp, map t_state (touches tp)))
        (tp_run quiet_collaborators (tp_zalloc 1 1) finger_down_frame)
       = Some (1, [TOUCH_UPDATE])"
proof -
  have "tp_inv (tp_zalloc 1 1)" by (rule tp_inv_zalloc) simp_all
  then have wf: "tp_wf (tp_zalloc 1 1)" and ni: "nfingers_inv (tp_zalloc 1 1)"
    by (simp_all add: tp_inv_def)
  have E: "map_option (\<lambda>tp. (nfingers_down tp, map t_state (touches tp)))
        (tp_run quiet_collaborators (tp_zalloc 1 1) finger_down_frame)
       = Some (1, [TOUCH_UPDATE])"
    by (simp add: finger_down_frame_def pipeline_defs ev_codes btn_codes Let_def tp_zalloc_def
        tp_init_touch_def)
  then obtain tp' where
    run: "tp_run quiet_collaborators (tp_zalloc 1 1) finger_down_frame = Some tp'"
    by auto
  have fr: "finger_down_frame \<noteq> [] \<and> ends_frame (last finger_down_frame)"
    by (simp add: finger_down_frame_def ends_frame_def EV_SYN_def)
  show ?thesis
    using nfingers_down_counts_touches [OF wf ni run] E fr wf ni by simp
qed

section \<open>Properties of the MSC-timestamp jump corrector\<close>

lemma tp_motion_history_offset_eq:
  "t_history_index t < TOUCHPAD_HISTORY_LENGTH \<Longrightarrow>
   i < TOUCHPAD_HISTORY_LENGTH \<Longrightarrow> k < TOUCHPAD_HISTORY_LENGTH \<Longrightarrow>
     (tp_motion_history_offset t i = tp_motion_history_offset t k) = (i = k)"
  unfolding tp_motion_history_offset_def TOUCHPAD_HISTORY_LENGTH_def
  by (auto simp: nat_eq_iff) presburger+

lemma tp_motion_history_offset_less:
  "tp_motion_history_offset t i < TOUCHPAD_HISTORY_LENGTH"
  unfolding tp_motion_history_offset_def TOUCHPAD_HISTORY_LENGTH_def
  by simp

text \<open>The loop of \<^verbatim>\<open>tp_motion_history_fix_last\<close>, run over the first \<open>n\<close> entries.\<close>

lemma fix_last_loop:
  fixes T :: "nat \<Rightarrow> 64 word"
  defines "F \<equiv> \<lambda>i t'. t'\<lparr>t_history_samples :=
                   (t_history_samples t')[tp_motion_history_offset t' i :=
                      (history_sample t' i)\<lparr>hp_time := T i\<rparr>]\<rparr>"
  assumes "length (t_history_samples t) = TOUCHPAD_HISTORY_LENGTH"
    and "t_history_index t < TOUCHPAD_HISTORY_LENGTH" and "n \<le> TOUCHPAD_HISTORY_LENGTH"
  shows "fold F [0..<n] t = t\<lparr>t_history_samples := t_history_samples (fold F [0..<n] t)\<rparr> \<and>
         length (t_history_samples (fold F [0..<n] t)) = TOUCHPAD_HISTORY_LENGTH \<and>
         (\<forall>k<TOUCHPAD_HISTORY_LENGTH.
            history_sample (fold F [0..<n] t) k =
              (if k < n then (history_sample t k)\<lparr>hp_time := T k\<rparr> else history_sample t k))"
  using assms(4)
proof (induction n)
  case 0
  then show ?case using assms(2) by simp
next
  case (Suc n)
  have F_samples: "t_history_samples (F i u) =
      (t_history_samples u)[tp_motion_history_offset u i :=
         (history_sample u i)\<lparr>hp_time := T i\<rparr>]" for i u
    by (simp add: F_def)
  have F_off: "tp_motion_history_offset (F i u) k = tp_motion_history_offset u k" for i u k
    by (simp add: F_def tp_motion_history_offset_def)
  have F_upd: "F i u = u\<lparr>t_history_samples := t_history_samples (F i u)\<rparr>" for i u
    by (simp add: F_def)
  define u where "u = fold F [0..<n] t"
  from Suc have IH: "u = t\<lparr>t_history_samples := t_history_samples u\<rparr>"
    "length (t_history_samples u) = TOUCHPAD_HISTORY_LENGTH"
    "\<forall>k<TOUCHPAD_HISTORY_LENGTH.
            history_sample u k =
              (if k < n then (history_sample t k)\<lparr>hp_time := T k\<rparr> else history_sample t k)"
    by (simp_all add: u_def)
  have idx: "t_history_index u = t_history_index t"
    by (subst IH(1)) simp
  have off: "tp_motion_history_offset u k = tp_motion_history_offset t k" for k
    by (simp add: tp_motion_history_offset_def idx)
  have n: "n < TOUCHPAD_HISTORY_LENGTH" using Suc.prems by simp
  have step: "fold F [0..<Suc n] t = F n u" by (simp add: u_def)
  have upd: "u\<lparr>t_history_samples := X\<rparr> = t\<lparr>t_history_samples := X\<rparr>" for X
    using arg_cong [OF IH(1), of "\<lambda>r. r\<lparr>t_history_samples := X\<rparr>"] by simp
  have a: "F n u = t\<lparr>t_history_samples := t_history_samples (F n u)\<rparr>"
    using F_upd [of n u] by (simp only: upd)
  have b: "length (t_history_samples (F n u)) = TOUCHPAD_HISTORY_LENGTH"
    by (simp add: F_samples IH(2))
  have c: "history_sample (F n u) k =
             (if k < Suc n then (history_sample t k)\<lparr>hp_time := T k\<rparr> else history_sample t k)"
    if k: "k < TOUCHPAD_HISTORY_LENGTH" for k
  proof (cases "k = n")
    case True
    have "history_sample (F n u) n = (history_sample u n)\<lparr>hp_time := T n\<rparr>"
      using tp_motion_history_offset_less [of u n]
      by (simp add: history_sample_def F_off F_samples IH(2))
    then show ?thesis
      using IH(3) n True by simp
  next
    case False
    then have "tp_motion_history_offset u n \<noteq> tp_motion_history_offset u k"
      using tp_motion_history_offset_eq [OF assms(3) n k] by (simp add: off)
    then have "history_sample (F n u) k = history_sample u k"
      by (simp add: history_sample_def F_off F_samples)
    then show ?thesis
      using IH(3) k False by auto
  qed
  show ?case
    unfolding step using a b c by simp
qed

lemma tp_motion_history_fix_last_samples:
  fixes t j n time
  assumes "tp_history_wf t"
  defines "t' \<equiv> tp_motion_history_fix_last t j n time"
  shows "t' = t\<lparr>t_history_samples := t_history_samples t'\<rparr>"
    and "length (t_history_samples t') = TOUCHPAD_HISTORY_LENGTH"
    and "k < TOUCHPAD_HISTORY_LENGTH \<Longrightarrow>
         history_sample t' k =
           (if t_state t = TOUCH_UPDATE \<and> k < t_history_count t
            then (history_sample t k)\<lparr>hp_time := time - ucast j - ucast (n * of_nat k)\<rparr>
            else history_sample t k)"
proof -
  from assms(1) have wf: "length (t_history_samples t) = TOUCHPAD_HISTORY_LENGTH"
    "t_history_index t < TOUCHPAD_HISTORY_LENGTH" "t_history_count t \<le> TOUCHPAD_HISTORY_LENGTH"
    by (simp_all add: tp_history_wf_def)
  note loop = fix_last_loop [OF wf, of "\<lambda>i. time - ucast j - ucast (n * of_nat i)"]
  show "t' = t\<lparr>t_history_samples := t_history_samples t'\<rparr>"
    using loop unfolding t'_def tp_motion_history_fix_last_def by simp
  show "length (t_history_samples t') = TOUCHPAD_HISTORY_LENGTH"
    using loop wf(1) unfolding t'_def tp_motion_history_fix_last_def by simp
  show "history_sample t' k =
           (if t_state t = TOUCH_UPDATE \<and> k < t_history_count t
            then (history_sample t k)\<lparr>hp_time := time - ucast j - ucast (n * of_nat k)\<rparr>
            else history_sample t k)" if "k < TOUCHPAD_HISTORY_LENGTH"
    using loop that unfolding t'_def tp_motion_history_fix_last_def by simp
qed

lemma tp_history_wf_fix_last:
  assumes "tp_history_wf t"
  shows "tp_history_wf (tp_motion_history_fix_last t j n time)"
proof -
  let ?t' = "tp_motion_history_fix_last t j n time"
  note eq = tp_motion_history_fix_last_samples(1) [OF assms, of j n time]
  have "t_history_index ?t' = t_history_index t" "t_history_count ?t' = t_history_count t"
    using arg_cong [OF eq, of t_history_index] arg_cong [OF eq, of t_history_count]
    by simp_all
  then show ?thesis
    using assms tp_motion_history_fix_last_samples(2) [OF assms, of j n time]
    by (simp add: tp_history_wf_def)
qed

lemma tp_history_wf_init: "tp_history_wf (tp_init_touch i)"
  by (simp add: tp_history_wf_def tp_init_touch_def TOUCHPAD_HISTORY_LENGTH_def)

lemma tp_history_wf_push: "tp_history_wf t \<Longrightarrow> tp_history_wf (tp_motion_history_push t)"
  by (simp add: tp_history_wf_def tp_motion_history_push_def Let_def TOUCHPAD_HISTORY_LENGTH_def)

text \<open>The comparisons and differences of the corrector, read as numbers.\<close>

lemma ucast_32_64_of_nat: "(ucast (w :: 32 word) :: 64 word) = of_nat (unat w)"
  by simp

lemma unat_ucast_32_64: "unat (ucast (w :: 32 word) :: 64 word) = unat w"
proof -
  have "unat w < 2 ^ 32" using unsigned_less [of w, where 'a = nat] by simp
  then have "unat w < 2 ^ 64" by simp
  then show ?thesis by (simp add: unsigned_ucast_eq take_bit_nat_eq_self)
qed

lemma msc_timestamp_inv_zalloc: "msc_timestamp_inv (tp_zalloc nslots n)"
  by (simp add: msc_timestamp_inv_def tp_zalloc_def)

lemma msc_timestamp_inv_process_msc:
  "msc_timestamp_inv tp \<Longrightarrow> msc_timestamp_inv (tp_process_msc tp e time)"
  by (simp add: msc_timestamp_inv_def tp_process_msc_def)

lemma msc_timestamp_inv_process_msc_timestamp:
  assumes "msc_timestamp_inv tp"
  shows "msc_timestamp_inv (tp_process_msc_timestamp tp time)"
proof -
  have "0 < unat now \<and> unat now \<le> 20000"
    if "now \<noteq> 0" "\<not> ms2us 20 < ucast now" for now :: "32 word"
  proof -
    have "unat (ucast now :: 64 word) \<le> unat (ms2us 20)"
      using that(2) by (simp add: word_less_nat_alt)
    moreover have "unat (ucast now :: 64 word) = unat now"
      by (rule unat_ucast_32_64)
    moreover have "unat now \<noteq> 0" using that(1) by (simp add: unat_eq_0)
    ultimately show ?thesis by (simp add: ms2us_def)
  qed
  then show ?thesis
    using assms
    by (auto simp: msc_timestamp_inv_def tp_process_msc_timestamp_def Let_def add_trace_def
                   tp_for_each_touch_def split: tp_jump_state.splits)
qed

lemma msc_interval_double:
  fixes now interval :: "32 word"
  assumes "unat interval \<le> 20000"
  shows "(interval * 2 < now) = (2 * unat interval < unat now)"
proof -
  have "unat interval * unat (2 :: 32 word) < 2 ^ LENGTH(32)" using assms by simp
  then have "unat (interval * 2) = unat interval * unat (2 :: 32 word)"
    by (simp only: unat_mult_lem)
  then show "(interval * 2 < now) = (2 * unat interval < unat now)"
    by (simp add: word_less_nat_alt mult.commute)
qed

lemma msc_interval_diff:
  fixes now interval :: "32 word"
  assumes "2 * unat interval < unat now"
  shows "unat (now - interval) = unat now - unat interval" 
proof -
  have "interval \<le> now" using assms by (simp add: word_le_nat_alt)
  then show ?thesis by (rule unat_sub)
qed

lemma msc_interval_times:
  fixes interval :: "32 word"
  assumes "unat interval \<le> 20000" "i < TOUCHPAD_HISTORY_LENGTH"
  shows "(ucast (interval * of_nat i) :: 64 word) = ucast interval * of_nat i"
proof -
  have i: "i < 4" using assms(2) by (simp add: TOUCHPAD_HISTORY_LENGTH_def)
  have "unat interval * i \<le> 20000 * 4"
    using assms(1) i by (intro mult_mono) simp_all
  then have lt: "unat interval * i < 2 ^ LENGTH(32)" by simp
  have ui: "unat (of_nat i :: 32 word) = i"
    using i by (simp add: unat_of_nat)
  have "unat interval * unat (of_nat i :: 32 word) < 2 ^ LENGTH(32)"
    using lt by (simp only: ui)
  then have "unat (interval * of_nat i) = unat interval * unat (of_nat i :: 32 word)"
    by (simp only: unat_mult_lem)
  then have "unat (interval * of_nat i) = unat interval * i" by (simp only: ui)
  then have "(ucast (interval * of_nat i) :: 64 word) = of_nat (unat interval * i)"
    by (simp only: ucast_32_64_of_nat)
  also have "\<dots> = ucast interval * of_nat i"
    by (simp only: ucast_32_64_of_nat of_nat_mult)
  finally show ?thesis .
qed

lemma touches_for_each_touch:
  "ntouches tp = length (touches tp) \<Longrightarrow> touches (tp_for_each_touch f tp) = map f (touches tp)"
  by (simp add: tp_for_each_touch_def)

text \<open>
  Claim C7.  In state \<^verbatim>\<open>JUMP_STATE_EXPECT_DELAY\<close> with a nonzero \<^verbatim>\<open>msc.now\<close>: if
  \<^verbatim>\<open>msc.now\<close> is more than twice the interval, then \<open>tdelta = now - interval\<close>, every
  touch in \<^verbatim>\<open>TOUCH_UPDATE\<close> has the time of each of its history entries \<open>i\<close> rewritten to
  \<open>time - tdelta - interval * i\<close> (the points, the other entries and the other touches
  are left alone), the filter is restarted exactly once, at \<open>time - tdelta\<close>, and the
  state becomes \<^verbatim>\<open>JUMP_STATE_IGNORE\<close>; otherwise nothing changes.  A frame with
  \<^verbatim>\<open>msc.now = 0\<close> re-enters \<^verbatim>\<open>JUMP_STATE_EXPECT_FIRST\<close> with the interval reset to 0,
  whatever the state was.
\<close>

theorem tp_process_msc_timestamp_expect_delay:
  assumes "tp_wf tp" and "list_all tp_history_wf (touches tp)" and "msc_timestamp_inv tp"
  shows
    "let now = quirks_msc_timestamp_now tp;
         interval = quirks_msc_timestamp_interval tp;
         tdelta = now - interval;
         tp' = tp_process_msc_timestamp tp time
     in (quirks_msc_timestamp_state tp = JUMP_STATE_EXPECT_DELAY \<and> now \<noteq> 0 \<and>
           2 * unat interval < unat now \<longrightarrow>
           unat tdelta = unat now - unat interval \<and>
           tp' = tp\<lparr>touches := touches tp',
                     quirks_msc_timestamp_state := JUMP_STATE_IGNORE,
                     trace := trace tp @ [Filter_restart (time - ucast tdelta)]\<rparr> \<and>
           length (touches tp') = length (touches tp) \<and>
           (\<forall>j<length (touches tp).
              touches tp' ! j =
                (touches tp ! j)\<lparr>t_history_samples := t_history_samples (touches tp' ! j)\<rparr> \<and>
              length (t_history_samples (touches tp' ! j)) = TOUCHPAD_HISTORY_LENGTH \<and>
              (\<forall>i<TOUCHPAD_HISTORY_LENGTH.
                 history_sample (touches tp' ! j) i =
                   (if t_state (touches tp ! j) = TOUCH_UPDATE \<and>
                       i < t_history_count (touches tp ! j)
                    then (history_sample (touches tp ! j) i)
                           \<lparr>hp_time := time - ucast tdelta - ucast interval * of_nat i\<rparr>
                    else history_sample (touches tp ! j) i)))) \<and>
        (quirks_msc_timestamp_state tp = JUMP_STATE_EXPECT_DELAY \<and> now \<noteq> 0 \<and>
           unat now \<le> 2 * unat interval \<longrightarrow> tp' = tp) \<and>
        (now = 0 \<longrightarrow>
           tp' = tp\<lparr>quirks_msc_timestamp_state := JUMP_STATE_EXPECT_FIRST,
                     quirks_msc_timestamp_interval := 0\<rparr>)"
proof -
  define now where "now = quirks_msc_timestamp_now tp"
  define interval where "interval = quirks_msc_timestamp_interval tp"
  define tdelta where "tdelta = now - interval"
  define tp' where "tp' = tp_process_msc_timestamp tp time"
  let ?f = "\<lambda>t. tp_motion_history_fix_last t tdelta interval time"
  have zero: "tp' = tp\<lparr>quirks_msc_timestamp_state := JUMP_STATE_EXPECT_FIRST,
                         quirks_msc_timestamp_interval := 0\<rparr>" if "now = 0"
    using that by (simp add: tp'_def now_def tp_process_msc_timestamp_def)
  have same: "tp' = tp"
    if "quirks_msc_timestamp_state tp = JUMP_STATE_EXPECT_DELAY" "now \<noteq> 0"
       "unat now \<le> 2 * unat interval"
  proof -
    from assms(3) that(1) have "unat interval \<le> 20000"
      by (simp add: msc_timestamp_inv_def interval_def)
    from msc_interval_double [OF this, of now] that(3)
    have "\<not> interval * 2 < now" by simp
    then show ?thesis
      using that(1,2)
      by (simp add: tp'_def now_def interval_def tp_process_msc_timestamp_def)
  qed
  have jump: "unat tdelta = unat now - unat interval \<and>
           tp' = tp\<lparr>touches := touches tp',
                     quirks_msc_timestamp_state := JUMP_STATE_IGNORE,
                     trace := trace tp @ [Filter_restart (time - ucast tdelta)]\<rparr> \<and>
           length (touches tp') = length (touches tp) \<and>
           (\<forall>j<length (touches tp).
              touches tp' ! j =
                (touches tp ! j)\<lparr>t_history_samples := t_history_samples (touches tp' ! j)\<rparr> \<and>
              length (t_history_samples (touches tp' ! j)) = TOUCHPAD_HISTORY_LENGTH \<and>
              (\<forall>i<TOUCHPAD_HISTORY_LENGTH.
                 history_sample (touches tp' ! j) i =
                   (if t_state (touches tp ! j) = TOUCH_UPDATE \<and>
                       i < t_history_count (touches tp ! j)
                    then (history_sample (touches tp ! j) i)
                           \<lparr>hp_time := time - ucast tdelta - ucast interval * of_nat i\<rparr>
                    else history_sample (touches tp ! j) i)))"
    if "quirks_msc_timestamp_state tp = JUMP_STATE_EXPECT_DELAY" "now \<noteq> 0"
       "2 * unat interval < unat now"
  proof -
    from assms(3) that(1) have le: "unat interval \<le> 20000"
      by (simp add: msc_timestamp_inv_def interval_def)
    from msc_interval_double [OF this, of now] that(3)
    have "interval * 2 < now" by simp
    then have tp': "tp' = add_trace [Filter_restart (time - ucast tdelta)]
                      ((tp_for_each_touch ?f tp)
                         \<lparr>quirks_msc_timestamp_state := JUMP_STATE_IGNORE\<rparr>)"
      using that(1,2)
      by (simp add: tp'_def now_def interval_def tdelta_def tp_process_msc_timestamp_def
                    Let_def)
    have nt: "ntouches tp = length (touches tp)"
      using assms(1) by (simp add: tp_wf_def)
    have ts: "touches tp' = map ?f (touches tp)"
      by (simp add: tp' add_trace_def touches_for_each_touch [OF nt])
    have a: "unat tdelta = unat now - unat interval"
      unfolding tdelta_def using that(3) by (rule msc_interval_diff)
    have b: "tp' = tp\<lparr>touches := touches tp',
                     quirks_msc_timestamp_state := JUMP_STATE_IGNORE,
                     trace := trace tp @ [Filter_restart (time - ucast tdelta)]\<rparr>"
      by (simp add: tp' add_trace_def tp_for_each_touch_def)
    have c: "length (touches tp') = length (touches tp)"
      by (simp add: ts)
    have d: "touches tp' ! j =
                (touches tp ! j)\<lparr>t_history_samples := t_history_samples (touches tp' ! j)\<rparr> \<and>
              length (t_history_samples (touches tp' ! j)) = TOUCHPAD_HISTORY_LENGTH \<and>
              (\<forall>i<TOUCHPAD_HISTORY_LENGTH.
                 history_sample (touches tp' ! j) i =
                   (if t_state (touches tp ! j) = TOUCH_UPDATE \<and>
                       i < t_history_count (touches tp ! j)
                    then (history_sample (touches tp ! j) i)
                           \<lparr>hp_time := time - ucast tdelta - ucast interval * of_nat i\<rparr>
                    else history_sample (touches tp ! j) i))"
      if j: "j < length (touches tp)" for j
    proof -
      have wf: "tp_history_wf (touches tp ! j)"
        using assms(2) j by (simp add: list_all_length)
      have tj: "touches tp' ! j = ?f (touches tp ! j)"
        using j by (simp add: ts)
      show ?thesis
        unfolding tj
        using tp_motion_history_fix_last_samples [OF wf, where j = tdelta and n = interval and time = time]
              msc_interval_times [OF le]
        by simp
    qed
    show ?thesis using a b c d by blast
  qed
  show ?thesis
    using zero same jump
    unfolding Let_def now_def [symmetric] interval_def [symmetric] tdelta_def [symmetric]
              tp'_def [symmetric]
    by blast
qed

lemma msc_example_touches:
  "touches msc_example =
     [(tp_init_touch 0)\<lparr>t_state := TOUCH_UPDATE,
          t_history_samples :=
            [\<lparr>hp_point = \<lparr>dc_x = 10, dc_y = 10\<rparr>, hp_time = 11000\<rparr>,
             \<lparr>hp_point = \<lparr>dc_x = 12, dc_y = 11\<rparr>, hp_time = 13000\<rparr>,
             \<lparr>hp_point = device_coords_zero, hp_time = 0\<rparr>,
             \<lparr>hp_point = device_coords_zero, hp_time = 0\<rparr>],
          t_history_index := 1, t_history_count := 2\<rparr>,
      tp_init_touch 1]"
  by (simp add: msc_example_def set_touch_def tp_zalloc_def numeral_2_eq_2 upt_conv_Cons)

lemma msc_example_fields:
  "quirks_msc_timestamp_state msc_example = JUMP_STATE_EXPECT_DELAY"
  "quirks_msc_timestamp_now msc_example = 123456"
  "quirks_msc_timestamp_interval msc_example = 7300"
  "ntouches msc_example = 2" "num_slots msc_example = 2" "trace msc_example = []"
  by (simp_all add: msc_example_def set_touch_def tp_zalloc_def)

theorem tp_process_msc_timestamp_expect_delay_witness:
  "tp_wf msc_example \<and> list_all tp_history_wf (touches msc_example) \<and>
   msc_timestamp_inv msc_example \<and>
   quirks_msc_timestamp_state msc_example = JUMP_STATE_EXPECT_DELAY \<and>
   quirks_msc_timestamp_now msc_example = 123456 \<and>
   quirks_msc_timestamp_interval msc_example = 7300 \<and>
   quirks_msc_timestamp_state (tp_process_msc_timestamp msc_example 1000000) =
     JUMP_STATE_IGNORE \<and>
   trace (tp_process_msc_timestamp msc_example 1000000) = [Filter_restart 883844] \<and>
   map (\<lambda>i. history_sample (touches (tp_process_msc_timestamp msc_example 1000000) ! 0) i)
       [0, 1] =
     [\<lparr>hp_point = \<lparr>dc_x = 12, dc_y = 11\<rparr>, hp_time = 883844\<rparr>,
      \<lparr>hp_point = \<lparr>dc_x = 10, dc_y = 10\<rparr>, hp_time = 876544\<rparr>]"
proof -
  let ?tp' = "tp_process_msc_timestamp msc_example 1000000"
  have h1: "tp_wf msc_example"
    by (simp add: tp_wf_def msc_example_touches msc_example_fields)
  have h2: "list_all tp_history_wf (touches msc_example)"
    by (simp add: msc_example_touches tp_history_wf_def tp_init_touch_def
                  TOUCHPAD_HISTORY_LENGTH_def)
  have h3: "msc_timestamp_inv msc_example"
    by (simp add: msc_timestamp_inv_def msc_example_fields)
  note T = tp_process_msc_timestamp_expect_delay [OF h1 h2 h3, of 1000000, unfolded Let_def]
  have td: "(1000000 :: 64 word) - ucast (123456 - 7300 :: 32 word) = 883844"
       "(883844 :: 64 word) - ucast (7300 :: 32 word) = 876544"
    by simp_all
  from T have J:
    "?tp' = msc_example\<lparr>touches := touches ?tp',
                quirks_msc_timestamp_state := JUMP_STATE_IGNORE,
                trace := [Filter_restart 883844]\<rparr>"
    "\<forall>j<2. \<forall>i<TOUCHPAD_HISTORY_LENGTH.
        history_sample (touches ?tp' ! j) i =
          (if t_state (touches msc_example ! j) = TOUCH_UPDATE \<and>
              i < t_history_count (touches msc_example ! j)
           then (history_sample (touches msc_example ! j) i)
                  \<lparr>hp_time := 883844 - 7300 * of_nat i\<rparr>
           else history_sample (touches msc_example ! j) i)"
    by (simp_all add: msc_example_fields msc_example_touches td)
  have s: "quirks_msc_timestamp_state ?tp' = JUMP_STATE_IGNORE"
    by (subst J(1)) simp
  have t: "trace ?tp' = [Filter_restart 883844]"
    by (subst J(1)) simp
  from J(2) have
    "history_sample (touches ?tp' ! 0) 0 =
       (history_sample (touches msc_example ! 0) 0)\<lparr>hp_time := 883844\<rparr>"
    "history_sample (touches ?tp' ! 0) 1 =
       (history_sample (touches msc_example ! 0) 1)\<lparr>hp_time := 883844 - 7300\<rparr>"
    by (simp_all add: msc_example_touches TOUCHPAD_HISTORY_LENGTH_def)
  moreover have
    "history_sample (touches msc_example ! 0) 0 =
       \<lparr>hp_point = \<lparr>dc_x = 12, dc_y = 11\<rparr>, hp_time = 13000\<rparr>"
    "history_sample (touches msc_example ! 0) 1 =
       \<lparr>hp_point = \<lparr>dc_x = 10, dc_y = 10\<rparr>, hp_time = 11000\<rparr>"
    by (simp_all add: msc_example_touches history_sample_def tp_motion_history_offset_def
                      TOUCHPAD_HISTORY_LENGTH_def)
  ultimately have h: "map (\<lambda>i. history_sample (touches ?tp' ! 0) i) [0, 1] =
     [\<lparr>hp_point = \<lparr>dc_x = 12, dc_y = 11\<rparr>, hp_time = 883844\<rparr>,
      \<lparr>hp_point = \<lparr>dc_x = 10, dc_y = 10\<rparr>, hp_time = 876544\<rparr>]"
    by simp
  show ?thesis
    using h1 h2 h3 s t h by (simp add: msc_example_fields)
qed

section \<open>Properties of the jump detector\<close>








end
